(* ===== verification/Prelude.thy ===== *)
theory Prelude
  imports Main "HOL-Library.Word"
begin

text \<open>
  Shared vocabulary of the development: byte strings, the error values of
  \<open>std::io\<close>, the result type and its sequencing, fixed-width integer
  codecs (\<open>to_be_bytes\<close> and friends), UTF-8 and the \<open>str\<close> functions of the
  standard library that the client calls, saturating arithmetic on machine
  words, and the generic transition-system locale the stateful components
  instantiate.
\<close>

named_theorems result_simps \<open>equations and inversions of the result type\<close>
named_theorems codec_simps \<open>lengths and round trips of fixed-width codecs\<close>

section \<open>Bytes, strings and results\<close>

type_synonym byte = "8 word"
type_synonym bytes = "8 word list"
type_synonym u8 = "8 word"
type_synonym u16 = "16 word"
type_synonym u32 = "32 word"
type_synonym u64 = "64 word"
type_synonym i64 = "64 word"

datatype error_kind =
    NotFound | PermissionDenied | ConnectionRefused | ConnectionReset
  | ConnectionAborted | NotConnected | BrokenPipe | AlreadyExists | WouldBlock
  | InvalidInput | InvalidData | TimedOut | WriteZero | Interrupted
  | Unsupported | UnexpectedEof | AddrNotAvailable | OtherError

datatype io_error = IoError (err_kind: error_kind) (err_msg: string)

type_synonym 'a result = "io_error + 'a"

definition invalid_input :: "string \<Rightarrow> io_error" where
  "invalid_input m = IoError InvalidInput m"

definition invalid_data :: "string \<Rightarrow> io_error" where
  "invalid_data m = IoError InvalidData m"

text \<open>The \<open>?\<close> operator: continue with the value, return the error.\<close>

definition rbind :: "'e + 'a \<Rightarrow> ('a \<Rightarrow> 'e + 'b) \<Rightarrow> 'e + 'b" where
  "rbind r f = (case r of Inl e \<Rightarrow> Inl e | Inr x \<Rightarrow> f x)"

definition ok_or :: "'a option \<Rightarrow> 'e \<Rightarrow> 'e + 'a" where
  "ok_or x e = (case x of None \<Rightarrow> Inl e | Some y \<Rightarrow> Inr y)"

definition is_ok :: "'e + 'a \<Rightarrow> bool" where
  "is_ok r = (case r of Inl _ \<Rightarrow> False | Inr _ \<Rightarrow> True)"

definition as_bytes :: "string \<Rightarrow> bytes" where
  "as_bytes s = map (\<lambda>c. word_of_nat (of_char c)) s"

definition string_of_bytes :: "bytes \<Rightarrow> string" where
  "string_of_bytes bs = map (\<lambda>b. char_of (unat b)) bs"

section \<open>Fixed-width integers as bytes\<close>

primrec be_encode :: "nat \<Rightarrow> nat \<Rightarrow> bytes" where
  "be_encode 0 v = []"
| "be_encode (Suc n) v = be_encode n (v div 256) @ [word_of_nat v]"

definition be_decode :: "bytes \<Rightarrow> nat" where
  "be_decode bs = foldl (\<lambda>acc b. acc * 256 + unat b) 0 bs"

definition to_be_bytes :: "'a::len word \<Rightarrow> bytes" where
  "to_be_bytes w = be_encode (LENGTH('a) div 8) (unat w)"

definition from_be_bytes :: "bytes \<Rightarrow> 'a::len word" where
  "from_be_bytes bs = word_of_nat (be_decode bs)"

definition to_le_bytes :: "'a::len word \<Rightarrow> bytes" where
  "to_le_bytes w = rev (to_be_bytes w)"

definition from_le_bytes :: "bytes \<Rightarrow> 'a::len word" where
  "from_le_bytes bs = from_be_bytes (rev bs)"

section \<open>Machine arithmetic\<close>

definition saturating_add :: "'a::len word \<Rightarrow> 'a word \<Rightarrow> 'a word" where
  "saturating_add a b = (if unat a + unat b < 2 ^ LENGTH('a) then a + b else - 1)"

definition saturating_sub :: "'a::len word \<Rightarrow> 'a word \<Rightarrow> 'a word" where
  "saturating_sub a b = (if b \<le> a then a - b else 0)"

definition saturating_mul :: "'a::len word \<Rightarrow> 'a word \<Rightarrow> 'a word" where
  "saturating_mul a b = (if unat a * unat b < 2 ^ LENGTH('a) then a * b else - 1)"

definition checked_add :: "'a::len word \<Rightarrow> 'a word \<Rightarrow> 'a word option" where
  "checked_add a b = (if unat a + unat b < 2 ^ LENGTH('a) then Some (a + b) else None)"

definition checked_mul :: "'a::len word \<Rightarrow> 'a word \<Rightarrow> 'a word option" where
  "checked_mul a b = (if unat a * unat b < 2 ^ LENGTH('a) then Some (a * b) else None)"

definition div_ceil :: "nat \<Rightarrow> nat \<Rightarrow> nat" where
  "div_ceil a b = (if a mod b = 0 then a div b else a div b + 1)"

section \<open>UTF-8 and string functions\<close>

definition utf8_cont :: "byte \<Rightarrow> bool" where
  "utf8_cont b = (128 \<le> unat b \<and> unat b \<le> 191)"

definition utf8_low :: "byte \<Rightarrow> nat" where
  "utf8_low b = unat b - 128"

fun utf8_next :: "bytes \<Rightarrow> (nat \<times> bytes) option" where
  "utf8_next [] = None"
| "utf8_next (b # bs) = (let n = unat b in
     if n < 128 then Some (n, bs)
     else if 194 \<le> n \<and> n \<le> 223 then (case bs of
         c1 # r \<Rightarrow> if utf8_cont c1 then Some ((n - 192) * 64 + utf8_low c1, r) else None
       | _ \<Rightarrow> None)
     else if 224 \<le> n \<and> n \<le> 239 then (case bs of
         c1 # c2 # r \<Rightarrow>
           if utf8_cont c1 \<and> utf8_cont c2 \<and> (n = 224 \<longrightarrow> 160 \<le> unat c1) \<and> (n = 237 \<longrightarrow> unat c1 \<le> 159)
           then Some ((n - 224) * 4096 + utf8_low c1 * 64 + utf8_low c2, r) else None
       | _ \<Rightarrow> None)
     else if 240 \<le> n \<and> n \<le> 244 then (case bs of
         c1 # c2 # c3 # r \<Rightarrow>
           if utf8_cont c1 \<and> utf8_cont c2 \<and> utf8_cont c3
              \<and> (n = 240 \<longrightarrow> 144 \<le> unat c1) \<and> (n = 244 \<longrightarrow> unat c1 \<le> 143)
           then Some ((n - 240) * 262144 + utf8_low c1 * 4096 + utf8_low c2 * 64 + utf8_low c3, r)
           else None
       | _ \<Rightarrow> None)
     else None)"

lemma utf8_next_shorter: "utf8_next bs = Some (c, r) \<Longrightarrow> length r < length bs"
  by (cases bs) (auto simp: Let_def split: if_splits list.splits)

function utf8_decode :: "bytes \<Rightarrow> nat list option" where
  "utf8_decode bs = (if bs = [] then Some [] else
     (case utf8_next bs of
        None \<Rightarrow> None
      | Some (c, r) \<Rightarrow> map_option ((#) c) (utf8_decode r)))"
  by pat_completeness auto
termination
  by (relation "measure length") (auto dest: utf8_next_shorter)

declare utf8_decode.simps [simp del]

definition utf8_valid :: "bytes \<Rightarrow> bool" where
  "utf8_valid bs = (utf8_decode bs \<noteq> None)"

text \<open>\<open>str::from_utf8\<close> on bytes and \<open>str::chars\<close> on a (valid) string.\<close>

definition from_utf8 :: "bytes \<Rightarrow> string option" where
  "from_utf8 bs = (if utf8_valid bs then Some (string_of_bytes bs) else None)"

definition str_chars :: "string \<Rightarrow> nat list" where
  "str_chars s = (case utf8_decode (as_bytes s) of None \<Rightarrow> [] | Some cs \<Rightarrow> cs)"

definition char_is_control :: "nat \<Rightarrow> bool" where
  "char_is_control c = (c < 32 \<or> (127 \<le> c \<and> c < 160))"

definition char_is_whitespace :: "nat \<Rightarrow> bool" where
  "char_is_whitespace c = ((9 \<le> c \<and> c \<le> 13) \<or> c = 32 \<or> c = 133 \<or> c = 160 \<or> c = 5760
     \<or> (8192 \<le> c \<and> c \<le> 8202) \<or> c = 8232 \<or> c = 8233 \<or> c = 8239 \<or> c = 8287 \<or> c = 12288)"

text \<open>\<open>s.trim().is_empty()\<close>.\<close>

definition trim_is_empty :: "string \<Rightarrow> bool" where
  "trim_is_empty s = list_all char_is_whitespace (str_chars s)"

definition any_control :: "string \<Rightarrow> bool" where
  "any_control s = list_ex char_is_control (str_chars s)"

section \<open>Transition systems\<close>

text \<open>
  A component whose operations update a state: what every initial state has
  and every step keeps holds in every reachable state.
\<close>

inductive reachable :: "('s \<Rightarrow> bool) \<Rightarrow> ('s \<Rightarrow> 's \<Rightarrow> bool) \<Rightarrow> 's \<Rightarrow> bool"
  for init step where
  reach_init: "init s \<Longrightarrow> reachable init step s"
| reach_step: "reachable init step s \<Longrightarrow> step s s' \<Longrightarrow> reachable init step s'"

locale invariant_system =
  fixes init :: "'s \<Rightarrow> bool"
    and step :: "'s \<Rightarrow> 's \<Rightarrow> bool"
    and inv :: "'s \<Rightarrow> bool"
  assumes inv_init: "init s \<Longrightarrow> inv s"
    and inv_step: "inv s \<Longrightarrow> step s s' \<Longrightarrow> inv s'"
begin

lemma inv_reachable: "reachable init step s \<Longrightarrow> inv s"
  by (induction rule: reachable.induct) (auto intro: inv_init inv_step)

lemma inv_steps: "inv s \<Longrightarrow> step\<^sup>*\<^sup>* s s' \<Longrightarrow> inv s'"
  by (rotate_tac, induction rule: rtranclp_induct) (auto intro: inv_step)

end

section \<open>Lemmas on results\<close>

lemma rbind_Inr [simp, result_simps]: "rbind (Inr x) f = f x"
  by (simp add: rbind_def)

lemma rbind_Inl [simp, result_simps]: "rbind (Inl e) f = Inl e"
  by (simp add: rbind_def)

lemma rbind_eq_Inr [result_simps]: "rbind r f = Inr y \<longleftrightarrow> (\<exists>x. r = Inr x \<and> f x = Inr y)"
  by (cases r) auto

lemma rbind_eq_Inl [result_simps]:
  "rbind r f = Inl e \<longleftrightarrow> r = Inl e \<or> (\<exists>x. r = Inr x \<and> f x = Inl e)"
  by (cases r) auto

lemma rbind_cong [fundef_cong]:
  "r = r' \<Longrightarrow> (\<And>x. r' = Inr x \<Longrightarrow> f x = f' x) \<Longrightarrow> rbind r f = rbind r' f'"
  by (cases r') auto

lemma ok_or_simps [simp, result_simps]: "ok_or None e = Inl e" "ok_or (Some x) e = Inr x"
  by (simp_all add: ok_or_def)

lemma ok_or_eq_Inr [result_simps]: "ok_or x e = Inr y \<longleftrightarrow> x = Some y"
  by (cases x) auto

lemma is_ok_simps [simp]: "is_ok (Inr x)" "\<not> is_ok (Inl e)"
  by (simp_all add: is_ok_def)

lemma is_ok_iff: "is_ok r \<longleftrightarrow> (\<exists>x. r = Inr x)"
  by (cases r) auto

lemma if_error_eq_Inr [result_simps]:
  "(if b then Inl e else r) = Inr x \<longleftrightarrow> \<not> b \<and> r = Inr x"
  by auto

section \<open>Lemmas on strings\<close>

lemma length_as_bytes [simp]: "length (as_bytes s) = length s"
  by (simp add: as_bytes_def)

lemma length_string_of_bytes [simp]: "length (string_of_bytes bs) = length bs"
  by (simp add: string_of_bytes_def)

lemma as_bytes_Nil [simp]: "as_bytes [] = []"
  by (simp add: as_bytes_def)

lemma as_bytes_append [simp]: "as_bytes (s @ t) = as_bytes s @ as_bytes t"
  by (simp add: as_bytes_def)

lemma as_bytes_Nil_iff [simp]: "as_bytes s = [] \<longleftrightarrow> s = []"
  by (simp add: as_bytes_def)

lemma string_of_bytes_as_bytes [simp]: "string_of_bytes (as_bytes s) = s"
proof -
  have "(of_char c :: nat) < 2 ^ 8" for c
    using of_char_mod_256 [of c, where 'a=nat] mod_less_divisor [of 256 "of_char c :: nat"] by simp
  then have "char_of (unat (word_of_nat (of_char c) :: 8 word)) = c" for c
    by (simp add: unat_of_nat take_bit_nat_eq_self)
  then show ?thesis
    by (simp add: string_of_bytes_def as_bytes_def comp_def map_idI)
qed

lemma as_bytes_string_of_bytes [simp]: "as_bytes (string_of_bytes bs) = bs"
proof -
  have "word_of_nat (of_char (char_of (unat b))) = b" for b :: byte
  proof -
    have "unat b < 256" using unsigned_less [of b, where ?'a = nat] by simp
    then show ?thesis by (simp add: of_char_of)
  qed
  then show ?thesis
    by (simp add: string_of_bytes_def as_bytes_def comp_def map_idI)
qed

lemma as_bytes_inj [simp]: "as_bytes s = as_bytes t \<longleftrightarrow> s = t"
  by (metis string_of_bytes_as_bytes)

lemma from_utf8_as_bytes: "utf8_valid (as_bytes s) \<Longrightarrow> from_utf8 (as_bytes s) = Some s"
  by (simp add: from_utf8_def)

lemma from_utf8_SomeD: "from_utf8 bs = Some s \<Longrightarrow> as_bytes s = bs \<and> utf8_valid bs"
  by (auto simp: from_utf8_def split: if_splits)

section \<open>Lemmas on fixed-width codecs\<close>

lemma length_be_encode [simp, codec_simps]: "length (be_encode n v) = n"
  by (induction n arbitrary: v) auto

lemma be_decode_Nil [simp]: "be_decode [] = 0"
  by (simp add: be_decode_def)

lemma be_decode_snoc [simp]: "be_decode (bs @ [b]) = be_decode bs * 256 + unat b"
  by (simp add: be_decode_def)

lemma unat_byte_less: "unat (b :: byte) < 256"
  using unsigned_less [of b, where ?'a = nat] by simp

lemma unat_word_of_nat_byte: "unat (word_of_nat v :: byte) = v mod 256"
  by (simp add: unat_of_nat take_bit_eq_mod)

lemma be_decode_be_encode [codec_simps]: "be_decode (be_encode n v) = v mod 256 ^ n"
proof (induction n arbitrary: v)
  case (Suc n)
  then show ?case
    using mod_mult2_eq [of v 256 "256 ^ n"] by (simp add: unat_word_of_nat_byte mult.commute)
qed simp

lemma be_decode_less: "be_decode bs < 256 ^ length bs"
proof (induction bs rule: rev_induct)
  case (snoc b bs)
  then have "be_decode bs + 1 \<le> 256 ^ length bs" by simp
  then have "(be_decode bs + 1) * 256 \<le> 256 ^ length bs * 256" by (rule mult_le_mono1)
  then show ?case using unat_byte_less [of b] by simp
qed simp

lemma be_encode_be_decode [codec_simps]: "be_encode (length bs) (be_decode bs) = bs"
proof (induction bs rule: rev_induct)
  case (snoc b bs)
  have "(be_decode bs * 256 + unat b) div 256 = be_decode bs"
    using unat_byte_less [of b] by simp
  moreover have "(word_of_nat (be_decode bs * 256 + unat b) :: byte) = b"
    by (rule word_unat_eq_iff [THEN iffD2])
      (simp add: unat_word_of_nat_byte unat_byte_less del: of_nat_add of_nat_mult)
  ultimately show ?case using snoc by (simp del: of_nat_add of_nat_mult)
qed simp

text \<open>The contract of a fixed-width codec, as the frame and record layouts rely on it.\<close>

locale fixed_codec =
  fixes enc :: "'a \<Rightarrow> bytes"
    and dec :: "bytes \<Rightarrow> 'a"
    and width :: nat
  assumes enc_width: "length (enc x) = width"
    and dec_enc: "dec (enc x) = x"
    and enc_dec: "length bs = width \<Longrightarrow> enc (dec bs) = bs"
begin

lemma enc_inj: "enc x = enc y \<longleftrightarrow> x = y"
  by (metis dec_enc)

lemma take_enc: "take width (enc x @ rest) = enc x"
  by (simp add: enc_width)

lemma drop_enc: "drop width (enc x @ rest) = rest"
  by (simp add: enc_width)

lemma dec_take_enc: "dec (take width (enc x @ rest)) = x"
  by (simp only: take_enc dec_enc)

lemma enc_append_inj: "enc x @ r = enc y @ s \<longleftrightarrow> x = y \<and> r = s"
  by (metis dec_enc enc_width append_eq_append_conv)

end

lemma length_to_be_bytes [codec_simps]: "length (to_be_bytes (w :: 'a::len word)) = LENGTH('a) div 8"
  by (simp add: to_be_bytes_def)

lemma pow256: "8 dvd n \<Longrightarrow> 256 ^ (n div 8) = (2 :: nat) ^ n"
proof (elim dvdE)
  fix k assume "n = 8 * k"
  then show ?thesis using power_mult [of "2 :: nat" 8 k] by simp
qed

lemma from_to_be_bytes [codec_simps]:
  "8 dvd LENGTH('a) \<Longrightarrow> from_be_bytes (to_be_bytes (w :: 'a::len word)) = w"
  by (simp add: from_be_bytes_def to_be_bytes_def be_decode_be_encode pow256)

lemma to_from_be_bytes [codec_simps]:
  assumes "8 dvd LENGTH('a)" "length bs = LENGTH('a) div 8"
  shows "to_be_bytes (from_be_bytes bs :: 'a::len word) = bs"
proof -
  have "be_decode bs < 2 ^ LENGTH('a)"
    using be_decode_less [of bs] assms pow256 [of "LENGTH('a)"] by simp
  then have "unat (word_of_nat (be_decode bs) :: 'a word) = be_decode bs"
    by (simp add: unat_of_nat take_bit_nat_eq_self)
  then show ?thesis
    using be_encode_be_decode [of bs] assms by (simp add: to_be_bytes_def from_be_bytes_def)
qed

interpretation be16: fixed_codec "to_be_bytes :: u16 \<Rightarrow> bytes" from_be_bytes 2
  by unfold_locales (simp_all add: codec_simps)

interpretation be32: fixed_codec "to_be_bytes :: u32 \<Rightarrow> bytes" from_be_bytes 4
  by unfold_locales (simp_all add: codec_simps)

interpretation be64: fixed_codec "to_be_bytes :: u64 \<Rightarrow> bytes" from_be_bytes 8
  by unfold_locales (simp_all add: codec_simps)

interpretation le64: fixed_codec "to_le_bytes :: u64 \<Rightarrow> bytes" from_le_bytes 8
proof unfold_locales
  fix bs :: bytes
  assume "length bs = 8"
  then show "to_le_bytes (from_le_bytes bs :: u64) = bs"
    by (simp add: to_le_bytes_def from_le_bytes_def codec_simps)
qed (simp_all add: to_le_bytes_def from_le_bytes_def codec_simps)

lemmas be_width [simp] = be16.enc_width be32.enc_width be64.enc_width le64.enc_width
lemmas be_dec_enc [simp] = be16.dec_enc be32.dec_enc be64.dec_enc le64.dec_enc
lemmas be_enc_inj [simp] = be16.enc_inj be32.enc_inj be64.enc_inj le64.enc_inj

section \<open>Lemmas on machine arithmetic\<close>

lemma unat_ucast: "unat (ucast (w :: 'a::len word) :: 'b::len word) = unat w mod 2 ^ LENGTH('b)"
  by (simp add: unsigned_ucast_eq take_bit_eq_mod)

lemma ucast_ucast_small:
  fixes v :: "'a::len word"
  assumes "unat v < 2 ^ LENGTH('b)"
  shows "ucast (ucast v :: 'b::len word) = v"
  using assms unsigned_less [of v, where ?'a = nat]
  by (simp add: word_unat_eq_iff unat_ucast)

lemma unat_max_word: "unat (- 1 :: 'a::len word) = 2 ^ LENGTH('a) - 1"
  by (simp add: unsigned_minus_1_eq_mask mask_eq_exp_minus_1)

lemma unat_saturating_add:
  "unat (saturating_add a (b :: 'a::len word)) = min (unat a + unat b) (2 ^ LENGTH('a) - 1)"
proof (cases "unat a + unat b < 2 ^ LENGTH('a)")
  case True
  then have "unat a + unat b \<le> 2 ^ LENGTH('a) - 1" by linarith
  with True show ?thesis by (simp add: saturating_add_def unat_add_lem [THEN iffD1])
next
  case False
  then have "2 ^ LENGTH('a) - 1 \<le> unat a + unat b" by linarith
  with False show ?thesis by (simp add: saturating_add_def unat_max_word)
qed

lemma unat_saturating_sub: "unat (saturating_sub a (b :: 'a::len word)) = unat a - unat b"
  by (auto simp: saturating_sub_def unat_sub word_le_nat_alt)

lemma unat_saturating_mul:
  "unat (saturating_mul a (b :: 'a::len word)) = min (unat a * unat b) (2 ^ LENGTH('a) - 1)"
proof (cases "unat a * unat b < 2 ^ LENGTH('a)")
  case True
  then have "unat a * unat b \<le> 2 ^ LENGTH('a) - 1" by linarith
  with True show ?thesis by (simp add: saturating_mul_def unat_mult_lem [THEN iffD1])
next
  case False
  then have "2 ^ LENGTH('a) - 1 \<le> unat a * unat b" by linarith
  with False show ?thesis by (simp add: saturating_mul_def unat_max_word)
qed

lemma div_ceil_upper: "0 < b \<Longrightarrow> a \<le> div_ceil a b * b"
proof -
  assume "0 < b"
  then have "a mod b < b" by simp
  moreover have "a div b * b + a mod b = a" by (rule div_mult_mod_eq)
  moreover have "(a div b + 1) * b = a div b * b + b" by simp
  ultimately have "a \<le> (a div b + 1) * b" "a mod b = 0 \<Longrightarrow> a \<le> a div b * b" by linarith+
  then show ?thesis by (cases "a mod b = 0") (simp_all add: div_ceil_def del: mult_Suc)
qed

lemma div_ceil_lower: "0 < b \<Longrightarrow> 0 < a \<Longrightarrow> (div_ceil a b - 1) * b < a"
proof -
  assume pos: "0 < b" "0 < a"
  have split: "a div b * b + a mod b = a" by (rule div_mult_mod_eq)
  show ?thesis
  proof (cases "a mod b = 0")
    case True
    then obtain k where k: "a = b * k" by auto
    with pos have "(k - 1) * b < b * k" by (cases k) auto
    with k pos show ?thesis by (simp add: div_ceil_def)
  next
    case False
    then have "a div b * b < a" using split by linarith
    then show ?thesis using False by (simp add: div_ceil_def)
  qed
qed

end
