(* ===== verification/Cbor.thy ===== *)
theory Cbor
  imports Prelude
begin

unbundle bit_operations_syntax

text \<open>
  The CBOR subset of the client: the \<open>Value\<close> tree with its accessors, the
  encoder \<open>encode_cbor_value\<close> and the depth-limited decoder \<open>CborDecoder\<close> of
  \<open>src/lib.rs\<close>.  A decoder is its input and its position, and every method
  returns the moved decoder or the error the source returns.  Floating point
  numbers are kept as their IEEE bit patterns.
\<close>

section \<open>Values\<close>

datatype Value =
    Null
  | Bool bool
  | Unsigned u64
  | Integer i64
  | Float u64
  | Bytes bytes
  | Text string
  | Array "Value list"
  | Map "(string \<times> Value) list"

fun value_get :: "Value \<Rightarrow> string \<Rightarrow> Value option" where
  "value_get (Map entries) key = map_option snd (find (\<lambda>(candidate, _). candidate = key) entries)"
| "value_get _ key = None"

fun as_str :: "Value \<Rightarrow> string option" where
  "as_str (Text s) = Some s"
| "as_str _ = None"

fun as_u64 :: "Value \<Rightarrow> u64 option" where
  "as_u64 (Unsigned v) = Some v"
| "as_u64 (Integer v) = (if 0 \<le> sint v then Some v else None)"
| "as_u64 _ = None"

fun as_i64 :: "Value \<Rightarrow> i64 option" where
  "as_i64 (Integer v) = Some v"
| "as_i64 (Unsigned v) = (if unat v \<le> 2 ^ 63 - 1 then Some v else None)"
| "as_i64 _ = None"

fun as_bool :: "Value \<Rightarrow> bool option" where
  "as_bool (Bool b) = Some b"
| "as_bool _ = None"

section \<open>Encoder\<close>

definition encode_cbor_head :: "u8 \<Rightarrow> u64 \<Rightarrow> bytes" where
  "encode_cbor_head major v =
    (let prefix = push_bit 5 major in
     if v \<le> 23 then [prefix OR ucast v]
     else if v \<le> 0xff then [prefix OR 24, ucast v]
     else if v \<le> 0xffff then (prefix OR 25) # to_be_bytes (ucast v :: u16)
     else if v \<le> 0xffffffff then (prefix OR 26) # to_be_bytes (ucast v :: u32)
     else (prefix OR 27) # to_be_bytes v)"

fun encode_cbor_value :: "Value \<Rightarrow> bytes" where
  "encode_cbor_value Null = [0xf6]"
| "encode_cbor_value (Bool False) = [0xf4]"
| "encode_cbor_value (Bool True) = [0xf5]"
| "encode_cbor_value (Unsigned v) = encode_cbor_head 0 v"
| "encode_cbor_value (Integer v) =
     (if 0 \<le> sint v then encode_cbor_head 0 v
      else encode_cbor_head 1 (word_of_int (- 1 - sint v)))"
| "encode_cbor_value (Float bits) = 0xfb # to_be_bytes bits"
| "encode_cbor_value (Bytes bs) = encode_cbor_head 2 (word_of_nat (length bs)) @ bs"
| "encode_cbor_value (Text s) = encode_cbor_head 3 (word_of_nat (length s)) @ as_bytes s"
| "encode_cbor_value (Array vs) =
     encode_cbor_head 4 (word_of_nat (length vs)) @ concat (map encode_cbor_value vs)"
| "encode_cbor_value (Map es) =
     encode_cbor_head 5 (word_of_nat (length es))
     @ concat (map (\<lambda>(key, v). encode_cbor_head 3 (word_of_nat (length key)) @ as_bytes key
                                @ encode_cbor_value v) es)"

definition encode_cbor :: "Value \<Rightarrow> bytes" where
  "encode_cbor v = encode_cbor_value v"

section \<open>Decoder\<close>

record cbor_decoder =
  dec_input :: bytes
  dec_pos :: nat

definition cbor_new :: "bytes \<Rightarrow> cbor_decoder" where
  "cbor_new input = \<lparr>dec_input = input, dec_pos = 0\<rparr>"

definition MST5_MAX_PLAIN_PAYLOAD :: nat where
  "MST5_MAX_PLAIN_PAYLOAD = 4 * 1024 * 1024"

definition short_cbor :: io_error where
  "short_cbor = IoError UnexpectedEof ''short CBOR input''"

definition cbor_byte :: "cbor_decoder \<Rightarrow> (u8 \<times> cbor_decoder) result" where
  "cbor_byte d =
    (if dec_pos d < length (dec_input d)
     then Inr (dec_input d ! dec_pos d, d\<lparr>dec_pos := dec_pos d + 1\<rparr>)
     else Inl short_cbor)"

definition cbor_take :: "nat \<Rightarrow> cbor_decoder \<Rightarrow> (bytes \<times> cbor_decoder) result" where
  "cbor_take len d =
    (if dec_pos d + len \<ge> 2 ^ 64 then Inl (invalid_data ''CBOR length overflow'')
     else if dec_pos d + len > length (dec_input d) then Inl short_cbor
     else Inr (take len (drop (dec_pos d) (dec_input d)), d\<lparr>dec_pos := dec_pos d + len\<rparr>))"

definition cbor_argument :: "u8 \<Rightarrow> cbor_decoder \<Rightarrow> (u64 \<times> cbor_decoder) result" where
  "cbor_argument additional d =
    (if additional \<le> 23 then Inr (ucast additional, d)
     else if additional = 24 then rbind (cbor_byte d) (\<lambda>(b, d). Inr (ucast b, d))
     else if additional = 25 then
       rbind (cbor_take 2 d) (\<lambda>(bs, d). Inr (ucast (from_be_bytes bs :: u16), d))
     else if additional = 26 then
       rbind (cbor_take 4 d) (\<lambda>(bs, d). Inr (ucast (from_be_bytes bs :: u32), d))
     else if additional = 27 then
       rbind (cbor_take 8 d) (\<lambda>(bs, d). Inr (from_be_bytes bs, d))
     else if additional = 31 then Inl (invalid_data ''indefinite-length CBOR is not supported'')
     else Inl (invalid_data ''invalid CBOR additional information''))"

text \<open>\<open>usize::try_from(u64)\<close> never fails where \<open>usize\<close> has 64 bits.\<close>

definition cbor_length :: "u8 \<Rightarrow> cbor_decoder \<Rightarrow> (nat \<times> cbor_decoder) result" where
  "cbor_length additional d =
    rbind (cbor_argument additional d) (\<lambda>(v, d). Inr (unat v, d))"

text \<open>\<open>f32::from_bits(bits) as f64\<close>, on bit patterns.\<close>

fun f32_norm :: "nat \<Rightarrow> nat \<Rightarrow> nat \<Rightarrow> nat \<times> nat" where
  "f32_norm 0 e m = (e, m)"
| "f32_norm (Suc n) e m = (if m < 2 ^ 23 then f32_norm n (e - 1) (2 * m) else (e, m))"

definition f32_to_f64_bits :: "u32 \<Rightarrow> u64" where
  "f32_to_f64_bits bits =
    (let b = unat bits; sign = b div 2 ^ 31; e = b div 2 ^ 23 mod 256; m = b mod 2 ^ 23 in
     word_of_nat (sign * 2 ^ 63 +
       (if e = 255 then
          2047 * 2 ^ 52 + (if m = 0 then 0 else (if m < 2 ^ 22 then m + 2 ^ 22 else m) * 2 ^ 29)
        else if e = 0 then
          (if m = 0 then 0
           else (case f32_norm 23 897 m of (e', m') \<Rightarrow> e' * 2 ^ 52 + (m' - 2 ^ 23) * 2 ^ 29))
        else (e + 896) * 2 ^ 52 + m * 2 ^ 29)))"

definition cbor_simple :: "u8 \<Rightarrow> cbor_decoder \<Rightarrow> (Value \<times> cbor_decoder) result" where
  "cbor_simple additional d =
    (if additional = 20 then Inr (Bool False, d)
     else if additional = 21 then Inr (Bool True, d)
     else if additional = 22 then Inr (Null, d)
     else if additional = 26 then
       rbind (cbor_take 4 d) (\<lambda>(bs, d). Inr (Float (f32_to_f64_bits (from_be_bytes bs)), d))
     else if additional = 27 then
       rbind (cbor_take 8 d) (\<lambda>(bs, d). Inr (Float (from_be_bytes bs), d))
     else Inl (invalid_data ''unsupported CBOR simple value''))"

definition cbor_text :: "bytes \<Rightarrow> Value result" where
  "cbor_text bs = (case from_utf8 bs of
      None \<Rightarrow> Inl (invalid_data ''invalid UTF-8 in CBOR text'')
    | Some s \<Rightarrow> Inr (Text s))"

text \<open>
  The decoder proper.  The two \<open>for\<close> loops of the source are the recursions
  \<open>cbor_values\<close> and \<open>cbor_entries\<close> on the number of elements left.
\<close>

function (sequential)
  cbor_value :: "nat \<Rightarrow> cbor_decoder \<Rightarrow> (Value \<times> cbor_decoder) result" and
  cbor_values :: "nat \<Rightarrow> nat \<Rightarrow> cbor_decoder \<Rightarrow> (Value list \<times> cbor_decoder) result" and
  cbor_entries :: "nat \<Rightarrow> nat \<Rightarrow> cbor_decoder \<Rightarrow> ((string \<times> Value) list \<times> cbor_decoder) result"
where
  "cbor_value depth d =
    (if depth > 64 then Inl (invalid_data ''CBOR nesting is too deep'')
     else rbind (cbor_byte d) (\<lambda>(initial, d).
       let major = drop_bit 5 initial; additional = initial AND 0x1f in
       if major = 0 then
         rbind (cbor_argument additional d) (\<lambda>(v, d). Inr (Unsigned v, d))
       else if major = 1 then
         rbind (cbor_argument additional d) (\<lambda>(raw, d).
           let v = - 1 - uint raw in
           if v < - (2 ^ 63) then Inl (invalid_data ''CBOR negative integer is out of range'')
           else Inr (Integer (word_of_int v), d))
       else if major = 2 then
         rbind (cbor_length additional d) (\<lambda>(len, d).
           rbind (cbor_take len d) (\<lambda>(bs, d). Inr (Bytes bs, d)))
       else if major = 3 then
         rbind (cbor_length additional d) (\<lambda>(len, d).
           rbind (cbor_take len d) (\<lambda>(bs, d).
             rbind (cbor_text bs) (\<lambda>v. Inr (v, d))))
       else if major = 4 then
         rbind (cbor_length additional d) (\<lambda>(len, d).
           if len > MST5_MAX_PLAIN_PAYLOAD then Inl (invalid_data ''CBOR array is too large'')
           else rbind (cbor_values (depth + 1) len d) (\<lambda>(vs, d). Inr (Array vs, d)))
       else if major = 5 then
         rbind (cbor_length additional d) (\<lambda>(len, d).
           if len > MST5_MAX_PLAIN_PAYLOAD then Inl (invalid_data ''CBOR map is too large'')
           else rbind (cbor_entries (depth + 1) len d) (\<lambda>(es, d). Inr (Map es, d)))
       else if major = 7 then cbor_simple additional d
       else Inl (invalid_data ''unsupported CBOR major type'')))"
| "cbor_values depth 0 d = Inr ([], d)"
| "cbor_values depth (Suc n) d =
    rbind (cbor_value depth d) (\<lambda>(v, d).
    rbind (cbor_values depth n d) (\<lambda>(vs, d). Inr (v # vs, d)))"
| "cbor_entries depth 0 d = Inr ([], d)"
| "cbor_entries depth (Suc n) d =
    rbind (cbor_value depth d) (\<lambda>(key, d). case key of
        Text key \<Rightarrow>
          rbind (cbor_value depth d) (\<lambda>(v, d).
          rbind (cbor_entries depth n d) (\<lambda>(es, d). Inr ((key, v) # es, d)))
      | _ \<Rightarrow> Inl (invalid_data ''CBOR map key must be text''))"
  by pat_completeness auto
termination
  by (relation "measures
      [\<lambda>x. case x of Inl (depth, _) \<Rightarrow> 66 - depth
           | Inr (Inl (depth, _, _)) \<Rightarrow> 66 - depth
           | Inr (Inr (depth, _, _)) \<Rightarrow> 66 - depth,
       \<lambda>x. case x of Inl _ \<Rightarrow> 0
           | Inr (Inl (_, n, _)) \<Rightarrow> n + 1
           | Inr (Inr (_, n, _)) \<Rightarrow> n + 1]") auto

declare cbor_value.simps [simp del]

definition decode_cbor :: "bytes \<Rightarrow> Value result" where
  "decode_cbor input =
    rbind (cbor_value 0 (cbor_new input)) (\<lambda>(v, d).
      if dec_pos d \<noteq> length input then Inl (invalid_data ''trailing CBOR data'') else Inr v)"

section \<open>Specification vocabulary\<close>

definition advance :: "nat \<Rightarrow> cbor_decoder \<Rightarrow> cbor_decoder" where
  "advance n d = d\<lparr>dec_pos := dec_pos d + n\<rparr>"

definition dec_at :: "cbor_decoder \<Rightarrow> bytes \<Rightarrow> bool" where
  "dec_at d xs \<longleftrightarrow> dec_pos d \<le> length (dec_input d) \<and> length (dec_input d) < 2 ^ 64
     \<and> drop (dec_pos d) (dec_input d) = xs"

definition head_decodes :: "u64 \<Rightarrow> u8 \<Rightarrow> bytes \<Rightarrow> bool" where
  "head_decodes v a bs \<longleftrightarrow> a < 32 \<and>
     (\<forall>d xs. dec_at d (bs @ xs) \<longrightarrow> cbor_argument a d = Inr (v, advance (length bs) d))"

fun cbor_ok :: "nat \<Rightarrow> Value \<Rightarrow> bool" where
  "cbor_ok depth (Bytes bs) = (depth \<le> 64 \<and> length bs < 2 ^ 64)"
| "cbor_ok depth (Text s) = (depth \<le> 64 \<and> length s < 2 ^ 64 \<and> utf8_valid (as_bytes s))"
| "cbor_ok depth (Array vs) = (depth \<le> 64 \<and> length vs \<le> MST5_MAX_PLAIN_PAYLOAD
     \<and> list_all (cbor_ok (depth + 1)) vs)"
| "cbor_ok depth (Map es) = (depth \<le> 64 \<and> length es \<le> MST5_MAX_PLAIN_PAYLOAD
     \<and> list_all (\<lambda>(k, v). length k < 2 ^ 64 \<and> utf8_valid (as_bytes k) \<and> cbor_ok (depth + 1) v) es)"
| "cbor_ok depth _ = (depth \<le> 64)"

fun cbor_norm :: "Value \<Rightarrow> Value" where
  "cbor_norm (Integer v) = (if 0 \<le> sint v then Unsigned v else Integer v)"
| "cbor_norm (Array vs) = Array (map cbor_norm vs)"
| "cbor_norm (Map es) = Map (map (\<lambda>(k, v). (k, cbor_norm v)) es)"
| "cbor_norm v = v"

definition decodes_as :: "nat \<Rightarrow> Value \<Rightarrow> bool" where
  "decodes_as depth v \<longleftrightarrow> (\<forall>d xs. dec_at d (encode_cbor_value v @ xs) \<longrightarrow>
     cbor_value depth d = Inr (cbor_norm v, advance (length (encode_cbor_value v)) d))"

definition moves :: "cbor_decoder \<Rightarrow> cbor_decoder \<Rightarrow> bool" where
  "moves d d' \<longleftrightarrow> dec_input d' = dec_input d \<and> dec_pos d \<le> dec_pos d'
     \<and> (dec_pos d \<le> length (dec_input d) \<longrightarrow> dec_pos d' \<le> length (dec_input d))"

definition sound_at :: "nat \<Rightarrow> bool" where
  "sound_at depth \<longleftrightarrow> (\<forall>d v d'. cbor_value depth d = Inr (v, d') \<longrightarrow>
     cbor_ok depth v \<and> cbor_norm v = v \<and> moves d d')"

section \<open>Round trip and soundness\<close>

lemma head_byte_split:
  fixes major a :: u8
  assumes "major < 8" "a < 32"
  shows "drop_bit 5 (push_bit 5 major OR a) = major" "(push_bit 5 major OR a) AND 31 = a"
proof -
  have m: "take_bit 3 major = major"
    using assms(1) by (simp add: take_bit_eq_mod word_unat_eq_iff unat_mod word_less_nat_alt)
  have a: "take_bit 5 a = a"
    using assms(2) by (simp add: take_bit_eq_mod word_unat_eq_iff unat_mod word_less_nat_alt)
  have "drop_bit 5 (push_bit 5 (take_bit 3 major) OR take_bit 5 a) = take_bit 3 major"
    by (rule bit_eqI) (auto simp: bit_simps)
  then show "drop_bit 5 (push_bit 5 major OR a) = major" by (simp only: m a)
  have "take_bit 5 (push_bit 5 major OR take_bit 5 a) = take_bit 5 a"
    by (rule bit_eqI) (auto simp: bit_simps)
  then show "(push_bit 5 major OR a) AND 31 = a"
    using a by (simp add: take_bit_eq_mask mask_eq_exp_minus_1)
qed

lemma advance_advance [simp]: "advance m (advance n d) = advance (n + m) d"
  by (simp add: advance_def add.assoc)

lemma advance_0 [simp]: "advance 0 d = d"
  by (simp add: advance_def)

lemma dec_at_advance: "dec_at d (bs @ xs) \<Longrightarrow> dec_at (advance (length bs) d) xs"
proof -
  assume a: "dec_at d (bs @ xs)"
  then have "length (dec_input d) - dec_pos d = length bs + length xs"
    by (metis dec_at_def length_append length_drop)
  moreover have "drop (length bs) (drop (dec_pos d) (dec_input d)) = xs"
    using a by (simp add: dec_at_def)
  ultimately show ?thesis
    using a by (auto simp: dec_at_def advance_def add.commute)
qed

lemma cbor_take_at: "dec_at d (bs @ xs) \<Longrightarrow> cbor_take (length bs) d = Inr (bs, advance (length bs) d)"
proof -
  assume a: "dec_at d (bs @ xs)"
  then have "dec_pos d + length bs \<le> length (dec_input d)"
    using dec_at_advance [OF a] by (simp add: dec_at_def advance_def)
  then show ?thesis
    using a by (simp add: cbor_take_def dec_at_def advance_def)
qed

lemma cbor_byte_at: "dec_at d (b # xs) \<Longrightarrow> cbor_byte d = Inr (b, advance 1 d)"
proof -
  assume a: "dec_at d (b # xs)"
  then have "drop (dec_pos d) (dec_input d) = b # xs" by (simp add: dec_at_def)
  then have "dec_pos d < length (dec_input d)" "dec_input d ! dec_pos d = b"
    by (auto intro: nth_via_drop simp: not_le [symmetric] simp flip: drop_eq_Nil)
  then show ?thesis by (simp add: cbor_byte_def advance_def)
qed

lemma encode_cbor_head_cases:
  obtains a bs where "encode_cbor_head major v = (push_bit 5 major OR a) # bs" "head_decodes v a bs"
proof -
  consider (tiny) "v \<le> 23" | (b1) "\<not> v \<le> 23" "v \<le> 0xff" | (b2) "\<not> v \<le> 23" "\<not> v \<le> 0xff" "v \<le> 0xffff"
    | (b4) "\<not> v \<le> 23" "\<not> v \<le> 0xff" "\<not> v \<le> 0xffff" "v \<le> 0xffffffff"
    | (b8) "\<not> v \<le> 23" "\<not> v \<le> 0xff" "\<not> v \<le> 0xffff" "\<not> v \<le> 0xffffffff" by blast
  then show ?thesis
  proof cases
    case tiny
    then have "(ucast v :: u8) < 32" "(ucast v :: u8) \<le> 23" "ucast (ucast v :: u8) = v"
      by (simp_all add: word_less_nat_alt word_le_nat_alt unat_ucast ucast_ucast_small)
    then have "head_decodes v (ucast v) []"
      by (simp add: head_decodes_def cbor_argument_def)
    with tiny show ?thesis by (intro that) (auto simp: encode_cbor_head_def)
  next
    case b1
    then have "ucast (ucast v :: u8) = v"
      by (intro ucast_ucast_small) (simp add: word_le_nat_alt)
    then have "head_decodes v 24 [ucast v]"
      by (simp add: head_decodes_def cbor_argument_def cbor_byte_at)
    with b1 show ?thesis by (intro that) (auto simp: encode_cbor_head_def)
  next
    case b2
    then have "ucast (ucast v :: u16) = v"
      by (intro ucast_ucast_small) (simp add: word_le_nat_alt)
    then have "head_decodes v 25 (to_be_bytes (ucast v :: u16))"
      using cbor_take_at [of _ "to_be_bytes (ucast v :: u16)"]
      by (simp add: head_decodes_def cbor_argument_def)
    with b2 show ?thesis by (intro that) (auto simp: encode_cbor_head_def)
  next
    case b4
    then have "ucast (ucast v :: u32) = v"
      by (intro ucast_ucast_small) (simp add: word_le_nat_alt)
    then have "head_decodes v 26 (to_be_bytes (ucast v :: u32))"
      using cbor_take_at [of _ "to_be_bytes (ucast v :: u32)"]
      by (simp add: head_decodes_def cbor_argument_def)
    with b4 show ?thesis by (intro that) (auto simp: encode_cbor_head_def)
  next
    case b8
    have "head_decodes v 27 (to_be_bytes v)"
      using cbor_take_at [of _ "to_be_bytes v"]
      by (simp add: head_decodes_def cbor_argument_def)
    with b8 show ?thesis by (intro that) (auto simp: encode_cbor_head_def)
  qed
qed

lemma cbor_head_at:
  assumes "dec_at d (encode_cbor_head major v @ xs)" "major < 8"
  obtains initial where "cbor_byte d = Inr (initial, advance 1 d)" "drop_bit 5 initial = major"
    "cbor_argument (initial AND 31) (advance 1 d)
       = Inr (v, advance (length (encode_cbor_head major v)) d)"
proof -
  obtain a bs where h: "encode_cbor_head major v = (push_bit 5 major OR a) # bs" "head_decodes v a bs"
    by (rule encode_cbor_head_cases)
  have at: "dec_at d ((push_bit 5 major OR a) # (bs @ xs))"
    using assms(1) unfolding h(1) by simp
  have arg: "cbor_argument a (advance 1 d) = Inr (v, advance (length bs) (advance 1 d))"
    using h(2) dec_at_advance [of d "[push_bit 5 major OR a]" "bs @ xs"] at
    unfolding head_decodes_def by (auto simp del: advance_advance)
  have "a < 32" using h(2) by (simp add: head_decodes_def)
  note split = head_byte_split [OF assms(2) this]
  show ?thesis
    using that [of "push_bit 5 major OR a"] cbor_byte_at [OF at] split arg by (simp add: h(1))
qed

lemma cbor_ok_depth: "cbor_ok depth v \<Longrightarrow> depth \<le> 64"
  by (cases v) auto

lemma unat_word_of_nat_u64: "n < 2 ^ 64 \<Longrightarrow> unat (word_of_nat n :: u64) = n"
  by (simp add: unat_of_nat take_bit_nat_eq_self)

lemma cbor_value_head:
  assumes at: "dec_at d (encode_cbor_head major v @ xs)" and small: "major < 6" and depth: "depth \<le> 64"
  defines "d' \<equiv> advance (length (encode_cbor_head major v)) d"
  shows "cbor_value depth d =
    (if major = 0 then Inr (Unsigned v, d')
     else if major = 1 then
       (if - 1 - uint v < - (2 ^ 63) then Inl (invalid_data ''CBOR negative integer is out of range'')
        else Inr (Integer (word_of_int (- 1 - uint v)), d'))
     else if major = 2 then rbind (cbor_take (unat v) d') (\<lambda>(bs, d). Inr (Bytes bs, d))
     else if major = 3 then
       rbind (cbor_take (unat v) d') (\<lambda>(bs, d). rbind (cbor_text bs) (\<lambda>v. Inr (v, d)))
     else if major = 4 then
       (if unat v > MST5_MAX_PLAIN_PAYLOAD then Inl (invalid_data ''CBOR array is too large'')
        else rbind (cbor_values (depth + 1) (unat v) d') (\<lambda>(vs, d). Inr (Array vs, d)))
     else
       (if unat v > MST5_MAX_PLAIN_PAYLOAD then Inl (invalid_data ''CBOR map is too large'')
        else rbind (cbor_entries (depth + 1) (unat v) d') (\<lambda>(es, d). Inr (Map es, d))))"
proof -
  have m8: "major < 8" using small by (simp add: word_less_nat_alt)
  have m: "major \<in> {0, 1, 2, 3, 4, 5}"
  proof -
    have "unat major \<in> {0, 1, 2, 3, 4, 5}" using small by (auto simp: word_less_nat_alt)
    then show ?thesis by (auto simp: word_unat_eq_iff)
  qed
  obtain initial where "cbor_byte d = Inr (initial, advance 1 d)" "drop_bit 5 initial = major"
    "cbor_argument (initial AND 31) (advance 1 d) = Inr (v, d')"
    unfolding d'_def using cbor_head_at [OF at m8] by blast
  then show ?thesis
    using depth m by (subst cbor_value.simps) (auto simp: Let_def cbor_length_def)
qed

lemma decodes_asD:
  "decodes_as depth v \<Longrightarrow> dec_at d (encode_cbor_value v @ xs) \<Longrightarrow>
     cbor_value depth d = Inr (cbor_norm v, advance (length (encode_cbor_value v)) d)"
  unfolding decodes_as_def by blast

lemma cbor_values_at:
  "list_all (decodes_as depth) vs \<Longrightarrow> dec_at d (concat (map encode_cbor_value vs) @ xs) \<Longrightarrow>
   cbor_values depth (length vs) d
     = Inr (map cbor_norm vs, advance (length (concat (map encode_cbor_value vs))) d)"
proof (induction vs arbitrary: d)
  case (Cons v vs)
  then have at: "dec_at d (encode_cbor_value v @ (concat (map encode_cbor_value vs) @ xs))" by simp
  show ?case
    using Cons decodes_asD [OF _ at] dec_at_advance [OF at] by simp
qed simp

lemma decodes_as_text:
  "depth \<le> 64 \<Longrightarrow> length s < 2 ^ 64 \<Longrightarrow> utf8_valid (as_bytes s) \<Longrightarrow> decodes_as depth (Text s)"
  unfolding decodes_as_def
proof (intro allI impI)
  fix d xs
  assume a: "depth \<le> 64" "length s < 2 ^ 64" "utf8_valid (as_bytes s)"
    and at0: "dec_at d (encode_cbor_value (Text s) @ xs)"
  let ?h = "encode_cbor_head 3 (word_of_nat (length s))"
  have at: "dec_at d (?h @ (as_bytes s @ xs))" using at0 by simp
  show "cbor_value depth d
      = Inr (cbor_norm (Text s), advance (length (encode_cbor_value (Text s))) d)"
    using cbor_value_head [OF at _ a(1)] cbor_take_at [OF dec_at_advance [OF at]] a
    by (simp add: unat_word_of_nat_u64 cbor_text_def from_utf8_as_bytes)
qed

lemma cbor_entries_at:
  "list_all (\<lambda>(k, v). decodes_as depth (Text k) \<and> decodes_as depth v) es \<Longrightarrow>
   dec_at d (concat (map (\<lambda>(key, v). encode_cbor_value (Text key) @ encode_cbor_value v) es) @ xs) \<Longrightarrow>
   cbor_entries depth (length es) d
     = Inr (map (\<lambda>(k, v). (k, cbor_norm v)) es,
         advance (length (concat (map (\<lambda>(key, v). encode_cbor_value (Text key) @ encode_cbor_value v) es))) d)"
proof (induction es arbitrary: d)
  case (Cons e es)
  obtain k v where e: "e = (k, v)" by force
  let ?t = "encode_cbor_value (Text k)"
    and ?r = "concat (map (\<lambda>(key, v). encode_cbor_value (Text key) @ encode_cbor_value v) es) @ xs"
  have at: "dec_at d (?t @ (encode_cbor_value v @ ?r))" using Cons.prems e by simp
  note at2 = dec_at_advance [OF at]
  show ?case
    using Cons e decodes_asD [OF _ at] decodes_asD [OF _ at2] dec_at_advance [OF at2]
    by (simp del: encode_cbor_value.simps add: add.assoc)
qed simp

lemma simple_head:
  "drop_bit 5 (0xf4 :: u8) = 7" "(0xf4 :: u8) AND 0x1f = 20"
  "drop_bit 5 (0xf5 :: u8) = 7" "(0xf5 :: u8) AND 0x1f = 21"
  "drop_bit 5 (0xf6 :: u8) = 7" "(0xf6 :: u8) AND 0x1f = 22"
  "drop_bit 5 (0xfb :: u8) = 7" "(0xfb :: u8) AND 0x1f = 27"
  by code_simp+

lemma cbor_value_simple:
  assumes "dec_at d (b # xs)" "drop_bit 5 b = 7" "depth \<le> 64"
  shows "cbor_value depth d = cbor_simple (b AND 0x1f) (advance 1 d)"
  using cbor_byte_at [OF assms(1)] assms(2,3)
  by (subst cbor_value.simps) (simp add: Let_def)

lemma decodes_as_float: "depth \<le> 64 \<Longrightarrow> decodes_as depth (Float bits)"
  unfolding decodes_as_def
proof (intro allI impI)
  fix d xs
  assume a: "depth \<le> 64" and at0: "dec_at d (encode_cbor_value (Float bits) @ xs)"
  then have at: "dec_at d (0xfb # (to_be_bytes bits @ xs))" by simp
  then have "dec_at (advance 1 d) (to_be_bytes bits @ xs)"
    using dec_at_advance [of d "[0xfb]" "to_be_bytes bits @ xs"] by simp
  from cbor_take_at [OF this]
  show "cbor_value depth d
      = Inr (cbor_norm (Float bits), advance (length (encode_cbor_value (Float bits))) d)"
    using cbor_value_simple [OF at _ a] by (simp add: simple_head cbor_simple_def)
qed

lemma decodes_as_integer: "depth \<le> 64 \<Longrightarrow> decodes_as depth (Integer v)"
proof (cases "0 \<le> sint v")
  case False
  assume "depth \<le> 64"
  have neg: "uint (word_of_int (- 1 - sint v) :: u64) = - 1 - sint v"
    unfolding uint_word_of_int_eq using False sint_ge [of v]
    by (intro take_bit_int_eq_self) simp_all
  then have "word_of_int (- 1 - uint (word_of_int (- 1 - sint v) :: u64)) = v"
    by simp
  with \<open>depth \<le> 64\<close> False neg show ?thesis
    using sint_ge [of v]
    by (auto simp: decodes_as_def cbor_value_head simp del: of_int_diff of_int_sint)
qed (auto simp: decodes_as_def cbor_value_head)

lemma decodes_as_bytes: "depth \<le> 64 \<Longrightarrow> length bs < 2 ^ 64 \<Longrightarrow> decodes_as depth (Bytes bs)"
  unfolding decodes_as_def
proof (intro allI impI)
  fix d xs
  assume a: "depth \<le> 64" "length bs < 2 ^ 64" and at0: "dec_at d (encode_cbor_value (Bytes bs) @ xs)"
  have at: "dec_at d (encode_cbor_head 2 (word_of_nat (length bs)) @ (bs @ xs))" using at0 by simp
  show "cbor_value depth d
      = Inr (cbor_norm (Bytes bs), advance (length (encode_cbor_value (Bytes bs))) d)"
    using cbor_value_head [OF at _ a(1)] cbor_take_at [OF dec_at_advance [OF at]] a
    by (simp add: unat_word_of_nat_u64)
qed

lemma decodes_as_array:
  assumes "depth \<le> 64" "length vs \<le> MST5_MAX_PLAIN_PAYLOAD" "list_all (decodes_as (depth + 1)) vs"
  shows "decodes_as depth (Array vs)"
  unfolding decodes_as_def
proof (intro allI impI)
  fix d xs
  assume at0: "dec_at d (encode_cbor_value (Array vs) @ xs)"
  let ?h = "encode_cbor_head 4 (word_of_nat (length vs))"
  have at: "dec_at d (?h @ (concat (map encode_cbor_value vs) @ xs))" using at0 by simp
  have "length vs < 2 ^ 64" using assms(2) by (simp add: MST5_MAX_PLAIN_PAYLOAD_def)
  then show "cbor_value depth d
      = Inr (cbor_norm (Array vs), advance (length (encode_cbor_value (Array vs))) d)"
    using cbor_value_head [OF at _ assms(1)] cbor_values_at [OF assms(3) dec_at_advance [OF at]] assms(2)
    by (simp add: unat_word_of_nat_u64)
qed

lemma decodes_as_map:
  assumes "depth \<le> 64" "length es \<le> MST5_MAX_PLAIN_PAYLOAD"
    "list_all (\<lambda>(k, v). decodes_as (depth + 1) (Text k) \<and> decodes_as (depth + 1) v) es"
  shows "decodes_as depth (Map es)"
  unfolding decodes_as_def
proof (intro allI impI)
  fix d xs
  assume at0: "dec_at d (encode_cbor_value (Map es) @ xs)"
  let ?h = "encode_cbor_head 5 (word_of_nat (length es))"
  let ?es = "concat (map (\<lambda>(key, v). encode_cbor_value (Text key) @ encode_cbor_value v) es)"
  have enc: "encode_cbor_value (Map es) = ?h @ ?es" by simp
  have at: "dec_at d (?h @ (?es @ xs))" using at0 unfolding enc by simp
  have "length es < 2 ^ 64" using assms(2) by (simp add: MST5_MAX_PLAIN_PAYLOAD_def)
  then show "cbor_value depth d
      = Inr (cbor_norm (Map es), advance (length (encode_cbor_value (Map es))) d)"
    using cbor_value_head [OF at _ assms(1)] cbor_entries_at [OF assms(3) dec_at_advance [OF at]] assms(2)
    unfolding enc by (simp add: unat_word_of_nat_u64 del: encode_cbor_value.simps)
qed

lemma encode_cbor_value_ok: "cbor_ok depth v \<Longrightarrow> decodes_as depth v"
proof (induction v arbitrary: depth)
  case (Unsigned v)
  then show ?case by (auto simp: decodes_as_def cbor_value_head)
next
  case (Array vs)
  then show ?case by (intro decodes_as_array) (auto simp: list_all_iff)
next
  case (Map es)
  then show ?case
    by (intro decodes_as_map)
      (auto simp: list_all_iff snds.intros dest: cbor_ok_depth intro!: decodes_as_text)
next
  case (Bool b)
  then show ?case
    by (cases b) (auto simp: decodes_as_def cbor_value_simple simple_head cbor_simple_def)
next
  case Null
  then show ?case by (auto simp: decodes_as_def cbor_value_simple simple_head cbor_simple_def)
qed (auto intro!: decodes_as_float decodes_as_text decodes_as_bytes decodes_as_integer)

lemma decode_encode_cbor:
  assumes "cbor_ok 0 v" "length (encode_cbor v) < 2 ^ 64"
  shows "decode_cbor (encode_cbor v) = Inr (cbor_norm v)"
proof -
  let ?d = "cbor_new (encode_cbor v)"
  have "dec_at ?d (encode_cbor_value v @ [])"
    using assms(2) by (simp add: dec_at_def cbor_new_def encode_cbor_def)
  from decodes_asD [OF encode_cbor_value_ok [OF assms(1)] this] show ?thesis
    by (simp add: decode_cbor_def encode_cbor_def cbor_new_def advance_def)
qed

lemma moves_refl [simp]: "moves d d"
  by (simp add: moves_def)

lemma moves_trans: "moves d d' \<Longrightarrow> moves d' d'' \<Longrightarrow> moves d d''"
  by (auto simp: moves_def)

lemma cbor_byte_moves: "cbor_byte d = Inr (b, d') \<Longrightarrow> moves d d'"
  by (auto simp: cbor_byte_def moves_def split: if_splits)

lemma cbor_take_moves: "cbor_take n d = Inr (bs, d') \<Longrightarrow> moves d d' \<and> length bs = n \<and> n < 2 ^ 64"
  by (auto simp: cbor_take_def moves_def split: if_splits)

lemma cbor_argument_moves: "cbor_argument a d = Inr (v, d') \<Longrightarrow> moves d d'"
  by (auto simp: cbor_argument_def result_simps split: if_splits
      dest: cbor_byte_moves cbor_take_moves)

lemma cbor_length_moves: "cbor_length a d = Inr (n, d') \<Longrightarrow> moves d d'"
  by (auto simp: cbor_length_def result_simps dest: cbor_argument_moves)

lemma cbor_text_Inr: "cbor_text bs = Inr v \<longleftrightarrow> (\<exists>s. v = Text s \<and> as_bytes s = bs \<and> utf8_valid bs)"
  by (auto simp: cbor_text_def from_utf8_def split: option.splits if_splits)

lemma cbor_simple_ok:
  "cbor_simple a d = Inr (v, d') \<Longrightarrow> depth \<le> 64 \<Longrightarrow> cbor_ok depth v \<and> cbor_norm v = v \<and> moves d d'"
  by (auto simp: cbor_simple_def result_simps split: if_splits dest: cbor_take_moves)

lemma cbor_negative_sint:
  "\<not> 9223372036854775807 < uint (raw :: u64) \<Longrightarrow> sint (- 1 - raw) < 0"
proof -
  assume "\<not> 9223372036854775807 < uint raw"
  then have "signed_take_bit 63 (- 1 - uint raw) = - 1 - uint raw"
    using uint_ge_0 [of raw] by (intro signed_take_bit_int_eq_self; simp; linarith)
  then have "sint (word_of_int (- 1 - uint raw) :: u64) = - 1 - uint raw"
    by (simp add: sint_sbintrunc' del: of_int_diff)
  moreover have "(word_of_int (- 1 - uint raw) :: u64) = - 1 - raw" by simp
  ultimately have "sint (- 1 - raw) = - 1 - uint raw" by (simp only:)
  then show ?thesis using uint_ge_0 [of raw] by linarith
qed

lemma cbor_values_sound:
  "sound_at depth \<Longrightarrow> cbor_values depth n d = Inr (vs, d') \<Longrightarrow>
     length vs = n \<and> list_all (cbor_ok depth) vs \<and> map cbor_norm vs = vs \<and> moves d d'"
proof (induction n arbitrary: d vs)
  case (Suc n)
  then obtain v d1 vs' where "cbor_value depth d = Inr (v, d1)" "cbor_values depth n d1 = Inr (vs', d')"
    "vs = v # vs'" by (auto simp: result_simps)
  then show ?case
    using Suc.IH [OF Suc.prems(1), of d1 vs'] Suc.prems(1) by (auto simp: sound_at_def intro: moves_trans)
qed simp

lemma cbor_entries_sound:
  "sound_at depth \<Longrightarrow> cbor_entries depth n d = Inr (es, d') \<Longrightarrow>
     length es = n \<and> list_all (\<lambda>(k, v). length k < 2 ^ 64 \<and> utf8_valid (as_bytes k) \<and> cbor_ok depth v) es
     \<and> map (\<lambda>(k, v). (k, cbor_norm v)) es = es \<and> moves d d'"
proof (induction n arbitrary: d es)
  case (Suc n)
  then obtain key d1 where key: "cbor_value depth d = Inr (key, d1)" by (auto simp: result_simps)
  with Suc.prems obtain k v d2 es' where r: "cbor_value depth d = Inr (Text k, d1)"
    "cbor_value depth d1 = Inr (v, d2)" "cbor_entries depth n d2 = Inr (es', d')" "es = (k, v) # es'"
    by (cases key) (auto simp: result_simps)
  have "cbor_ok depth (Text k)" "moves d d1" "cbor_ok depth v" "cbor_norm v = v" "moves d1 d2"
    using Suc.prems(1) r(1,2) unfolding sound_at_def by blast+
  then show ?case
    using Suc.IH [OF Suc.prems(1) r(3)] r(4) by (auto intro: moves_trans)
qed simp

lemma cbor_value_sound: "sound_at depth"
proof (induction "65 - depth" arbitrary: depth rule: less_induct)
  case less
  show ?case unfolding sound_at_def
  proof (intro allI impI)
    fix d v d'
    assume run: "cbor_value depth d = Inr (v, d')"
    then have le: "depth \<le> 64" by (subst (asm) cbor_value.simps) (auto split: if_splits)
    then have next_depth: "sound_at (depth + 1)" by (intro less) simp
    note sub = cbor_values_sound [OF next_depth] cbor_entries_sound [OF next_depth]
    show "cbor_ok depth v \<and> cbor_norm v = v \<and> moves d d'"
      using run le
      by (subst (asm) cbor_value.simps)
        (auto simp: result_simps Let_def cbor_text_Inr cbor_negative_sint not_le split: if_splits
          dest!: cbor_byte_moves cbor_argument_moves cbor_length_moves cbor_take_moves cbor_simple_ok
            sub intro: moves_trans simp flip: One_nat_def)
  qed
qed

lemma decode_cbor_sound:
  "decode_cbor input = Inr v \<Longrightarrow> cbor_ok 0 v \<and> cbor_norm v = v"
  using cbor_value_sound [of 0]
  by (auto simp: decode_cbor_def result_simps sound_at_def split: if_splits)

text \<open>
  C10: decoding what \<open>encode_cbor\<close> writes gives the value back, for every value
  within the decoder's limits (nesting at most 64, at most 4 Mi elements per
  array or map, valid UTF-8 text).  The one normalisation is that a
  non-negative \<open>Integer\<close> comes back as \<open>Unsigned\<close>.
\<close>

theorem cbor_round_trip:
  assumes "cbor_ok 0 v" "length (encode_cbor v) < 2 ^ 64"
  shows "decode_cbor (encode_cbor v) = Inr (cbor_norm v)"
  using assms by (rule decode_encode_cbor)

theorem cbor_round_trip_witness:
  "let v = Map [(''a'', Array [Integer (- 5), Text ''xy'', Integer 7])] in
   cbor_ok 0 v \<and> length (encode_cbor v) < 2 ^ 64 \<and>
   decode_cbor (encode_cbor v) = Inr (Map [(''a'', Array [Integer (- 5), Text ''xy'', Unsigned 7])])"
proof -
  let ?v = "Map [(''a'', Array [Integer (- 5), Text ''xy'', Integer 7])]"
  have ok: "cbor_ok 0 ?v"
    by (simp add: MST5_MAX_PLAIN_PAYLOAD_def utf8_valid_def utf8_decode.simps as_bytes_def)
  have len: "length (encode_cbor ?v) < 2 ^ 64"
    by (simp add: encode_cbor_def encode_cbor_head_def)
  show ?thesis
    using ok len cbor_round_trip [OF ok len] by (simp add: Let_def)
qed

text \<open>
  C15: whatever input the decoder accepts, the value it returns is within the
  limits (so a hostile frame cannot make it build a deeper or wider tree), and
  encoding that value and decoding it again gives the same value.
\<close>

theorem cbor_decode_stable:
  assumes "decode_cbor input = Inr v" "length (encode_cbor v) < 2 ^ 64"
  shows "cbor_ok 0 v \<and> decode_cbor (encode_cbor v) = Inr v"
  using decode_encode_cbor [of v] decode_cbor_sound [OF assms(1)] assms(2) by simp

theorem cbor_decode_stable_witness:
  "decode_cbor [0x82, 0x18, 0x05, 0xf6] = Inr (Array [Unsigned 5, Null]) \<and>
   length (encode_cbor (Array [Unsigned 5, Null])) < 2 ^ 64 \<and>
   decode_cbor (encode_cbor (Array [Unsigned 5, Null])) = Inr (Array [Unsigned 5, Null])"
proof -
  let ?i = "[0x82, 0x18, 0x05, 0xf6] :: bytes"
  have two: "2 = Suc (Suc 0)" by simp
  have "cbor_value 1 \<lparr>dec_input = ?i, dec_pos = 1\<rparr> = Inr (Unsigned 5, \<lparr>dec_input = ?i, dec_pos = 3\<rparr>)"
    by (subst cbor_value.simps) (simp add: cbor_byte_def Let_def cbor_argument_def)
  moreover have "cbor_value 1 \<lparr>dec_input = ?i, dec_pos = 3\<rparr> = Inr (Null, \<lparr>dec_input = ?i, dec_pos = 4\<rparr>)"
    by (subst cbor_value.simps) (simp add: cbor_byte_def Let_def cbor_simple_def)
  ultimately have "cbor_values 1 2 \<lparr>dec_input = ?i, dec_pos = 1\<rparr>
      = Inr ([Unsigned 5, Null], \<lparr>dec_input = ?i, dec_pos = 4\<rparr>)"
    unfolding two by simp
  then have dec: "decode_cbor ?i = Inr (Array [Unsigned 5, Null])"
    unfolding decode_cbor_def
    by (subst cbor_value.simps) (simp add: cbor_byte_def cbor_new_def Let_def cbor_length_def
      cbor_argument_def MST5_MAX_PLAIN_PAYLOAD_def)
  have len: "length (encode_cbor (Array [Unsigned 5, Null])) < 2 ^ 64"
    by (simp add: encode_cbor_def encode_cbor_head_def)
  show ?thesis using dec len cbor_decode_stable [OF dec len] by simp
qed

end
