(* ===== verification/Frame.thy ===== *)
theory Frame
  imports Prelude Cbor
begin

unbundle bit_operations_syntax

text \<open>
  MST5 frames: the frame kinds of \<open>mod kind\<close>, the \<open>Frame\<close> struct, its
  constructors, \<open>encode_into\<close> and \<open>decode_with_zstd\<close> of \<open>src/lib.rs\<close>.  The two
  decompressors (\<open>miniz_oxide\<close> and \<open>zstd\<close>) are parameters: functions from a
  compressed byte string and an output limit to an optional output.
\<close>

named_theorems const_defs \<open>numeric protocol constants\<close>

section \<open>Constants\<close>

definition kind_AUTH :: u8 where [const_defs]: "kind_AUTH = 1"
definition kind_COMMAND :: u8 where [const_defs]: "kind_COMMAND = 2"
definition kind_QUERY :: u8 where [const_defs]: "kind_QUERY = 3"
definition kind_RESULT :: u8 where [const_defs]: "kind_RESULT = 4"
definition kind_EVENT_BATCH :: u8 where [const_defs]: "kind_EVENT_BATCH = 5"
definition kind_ACK :: u8 where [const_defs]: "kind_ACK = 6"
definition kind_ERROR :: u8 where [const_defs]: "kind_ERROR = 7"
definition kind_PING :: u8 where [const_defs]: "kind_PING = 8"
definition kind_PONG :: u8 where [const_defs]: "kind_PONG = 9"
definition kind_HELLO :: u8 where [const_defs]: "kind_HELLO = 11"
definition kind_CANCEL :: u8 where [const_defs]: "kind_CANCEL = 12"
definition kind_KEY_UPDATE :: u8 where [const_defs]: "kind_KEY_UPDATE = 13"
definition kind_STREAM_OPEN :: u8 where [const_defs]: "kind_STREAM_OPEN = 14"
definition kind_STREAM_DATA :: u8 where [const_defs]: "kind_STREAM_DATA = 15"
definition kind_STREAM_END :: u8 where [const_defs]: "kind_STREAM_END = 16"
definition kind_STREAM_ABORT :: u8 where [const_defs]: "kind_STREAM_ABORT = 17"

definition frame_kinds :: "(string \<times> u8) list" where
  "frame_kinds =
    [(''AUTH'', kind_AUTH), (''COMMAND'', kind_COMMAND), (''QUERY'', kind_QUERY), (''RESULT'', kind_RESULT),
     (''EVENT_BATCH'', kind_EVENT_BATCH), (''ACK'', kind_ACK), (''ERROR'', kind_ERROR), (''PING'', kind_PING),
     (''PONG'', kind_PONG), (''HELLO'', kind_HELLO), (''CANCEL'', kind_CANCEL), (''KEY_UPDATE'', kind_KEY_UPDATE),
     (''STREAM_OPEN'', kind_STREAM_OPEN), (''STREAM_DATA'', kind_STREAM_DATA), (''STREAM_END'', kind_STREAM_END),
     (''STREAM_ABORT'', kind_STREAM_ABORT)]"

definition MST5_HEADER_LEN :: nat where [const_defs]: "MST5_HEADER_LEN = 40"
definition MST5_MAX_WIRE_PAYLOAD :: nat where [const_defs]: "MST5_MAX_WIRE_PAYLOAD = 4 * 1024 * 1024"
definition MST5_FLAG_DEFLATE :: u8 where [const_defs]: "MST5_FLAG_DEFLATE = 1"
definition MST5_FLAG_ZSTD :: u8 where [const_defs]: "MST5_FLAG_ZSTD = 2"
definition MST5_MAX_COMPRESSION_RATIO :: nat where [const_defs]: "MST5_MAX_COMPRESSION_RATIO = 64"

declare MST5_MAX_PLAIN_PAYLOAD_def [const_defs]

section \<open>The frame and its codec\<close>

record frame =
  f_kind :: u8
  f_flags :: u8
  f_code :: u16
  f_id :: u64
  f_request_nonce :: bytes
  f_deadline_ms :: u64
  f_payload :: bytes

type_synonym decompressor = "bytes \<Rightarrow> nat \<Rightarrow> bytes option"

definition valid_kind :: "u8 \<Rightarrow> bool" where
  "valid_kind k = ((kind_AUTH \<le> k \<and> k \<le> kind_PONG) \<or> (kind_HELLO \<le> k \<and> k \<le> kind_STREAM_ABORT))"

definition frame_new :: "u8 \<Rightarrow> u16 \<Rightarrow> u64 \<Rightarrow> bytes \<Rightarrow> frame result" where
  "frame_new knd code fid payload =
    (if \<not> valid_kind knd then Inl (invalid_input ''invalid MST5 frame kind'')
     else if length payload > MST5_MAX_PLAIN_PAYLOAD then
       Inl (invalid_input ''MST5 payload is too large'')
     else Inr \<lparr>f_kind = knd, f_flags = 0, f_code = code, f_id = fid,
       f_request_nonce = replicate 16 0, f_deadline_ms = 0, f_payload = payload\<rparr>)"

definition frame_request ::
    "u8 \<Rightarrow> u16 \<Rightarrow> u64 \<Rightarrow> bytes \<Rightarrow> u64 \<Rightarrow> bytes \<Rightarrow> frame result" where
  "frame_request knd code fid request_nonce deadline_ms payload =
    rbind (frame_new knd code fid payload) (\<lambda>f.
      Inr (f\<lparr>f_request_nonce := request_nonce, f_deadline_ms := deadline_ms\<rparr>))"

definition frame_header :: "frame \<Rightarrow> bytes" where
  "frame_header f = [f_kind f, f_flags f] @ to_be_bytes (f_code f) @ to_be_bytes (f_id f)
     @ f_request_nonce f @ to_be_bytes (f_deadline_ms f)
     @ to_be_bytes (word_of_nat (length (f_payload f)) :: u32)"

definition frame_encode :: "frame \<Rightarrow> bytes result" where
  "frame_encode f =
    (if f_flags f \<noteq> 0 then Inl (invalid_input ''client MST5 frames must not use compression'')
     else if length (f_payload f) > MST5_MAX_WIRE_PAYLOAD then
       Inl (invalid_input ''MST5 wire payload is too large'')
     else Inr (frame_header f @ f_payload f))"

definition zstd_decompress_bounded :: "decompressor \<Rightarrow> bytes \<Rightarrow> nat \<Rightarrow> bytes result" where
  "zstd_decompress_bounded zstd input limit =
    (if input = [] then Inl (invalid_data ''empty MST5 zstd payload'')
     else rbind (ok_or (zstd input limit) (invalid_data ''invalid or oversized MST5 zstd payload''))
       (\<lambda>output.
         if length output > limit then Inl (invalid_data ''inflated MST5 payload is too large'')
         else if length output > length input * MST5_MAX_COMPRESSION_RATIO then
           Inl (invalid_data ''MST5 compression ratio exceeds limit'')
         else Inr output))"

definition frame_inflate :: "decompressor \<Rightarrow> decompressor \<Rightarrow> u8 \<Rightarrow> bytes \<Rightarrow> bytes result" where
  "frame_inflate deflate zstd flags wire_payload =
    (if flags AND MST5_FLAG_DEFLATE \<noteq> 0 then
       ok_or (deflate wire_payload MST5_MAX_PLAIN_PAYLOAD)
         (invalid_data ''invalid or oversized MST5 deflate payload'')
     else if flags AND MST5_FLAG_ZSTD \<noteq> 0 then
       zstd_decompress_bounded zstd wire_payload MST5_MAX_PLAIN_PAYLOAD
     else Inr wire_payload)"

text \<open>
  \<open>saturating_mul\<close> on \<open>usize\<close> is plain multiplication here: the wire payload is
  at most 4 MiB at that point.
\<close>

definition decode_with_zstd :: "decompressor \<Rightarrow> decompressor \<Rightarrow> bytes \<Rightarrow> frame result" where
  "decode_with_zstd deflate zstd input =
    (if length input < MST5_HEADER_LEN then Inl (IoError UnexpectedEof ''short MST5 frame'')
     else let
       knd = input ! 0;
       flags = input ! 1;
       both = MST5_FLAG_DEFLATE OR MST5_FLAG_ZSTD
     in
     if \<not> valid_kind knd \<or> flags AND NOT both \<noteq> 0 \<or> flags AND both = both then
       Inl (invalid_data ''invalid MST5 frame header'')
     else if flags AND both \<noteq> 0 \<and> \<not> (knd = kind_RESULT \<or> knd = kind_EVENT_BATCH) then
       Inl (invalid_data ''compressed MST5 control frame'')
     else let
       code = from_be_bytes (take 2 (drop 2 input));
       fid = from_be_bytes (take 8 (drop 4 input));
       request_nonce = take 16 (drop 12 input);
       deadline_ms = from_be_bytes (take 8 (drop 28 input));
       payload_len = unat (from_be_bytes (take 4 (drop 36 input)) :: u32)
     in
     if payload_len > MST5_MAX_WIRE_PAYLOAD \<or> length input \<noteq> MST5_HEADER_LEN + payload_len then
       Inl (invalid_data ''invalid MST5 payload length'')
     else let wire_payload = drop MST5_HEADER_LEN input in
       rbind (frame_inflate deflate zstd flags wire_payload) (\<lambda>payload.
         if length payload > MST5_MAX_PLAIN_PAYLOAD then
           Inl (invalid_data ''inflated MST5 payload is too large'')
         else if flags AND both \<noteq> 0 \<and> wire_payload \<noteq> []
           \<and> length payload > length wire_payload * MST5_MAX_COMPRESSION_RATIO then
           Inl (invalid_data ''MST5 compression ratio exceeds limit'')
         else Inr \<lparr>f_kind = knd, f_flags = flags, f_code = code, f_id = fid,
           f_request_nonce = request_nonce, f_deadline_ms = deadline_ms, f_payload = payload\<rparr>))"

definition frame_decode :: "decompressor \<Rightarrow> decompressor option \<Rightarrow> bytes \<Rightarrow> frame result" where
  "frame_decode deflate zstd_new input =
    rbind (ok_or zstd_new (invalid_data ''cannot initialize MST5 zstd decompressor'')) (\<lambda>zstd.
      decode_with_zstd deflate zstd input)"

section \<open>Well-formed frames\<close>

definition frame_wf :: "frame \<Rightarrow> bool" where
  "frame_wf f \<longleftrightarrow> valid_kind (f_kind f) \<and> length (f_request_nonce f) = 16
     \<and> length (f_payload f) \<le> MST5_MAX_PLAIN_PAYLOAD"

text \<open>A sample frame for the witnesses.\<close>

definition ping_frame :: frame where
  "ping_frame = \<lparr>f_kind = kind_PING, f_flags = 0, f_code = 0, f_id = 7,
     f_request_nonce = replicate 16 0, f_deadline_ms = 9, f_payload = [1, 2]\<rparr>"

section \<open>Lemmas\<close>

lemma frame_new_wf: "frame_new knd code fid payload = Inr f \<Longrightarrow> frame_wf f \<and> f_flags f = 0"
  by (auto simp: frame_new_def frame_wf_def split: if_splits)

lemma frame_request_wf:
  "frame_request knd code fid nonce deadline payload = Inr f \<Longrightarrow> length nonce = 16 \<Longrightarrow>
   frame_wf f \<and> f_flags f = 0 \<and> f_id f = fid \<and> f_kind f = knd \<and> f_code f = code
   \<and> f_request_nonce f = nonce \<and> f_deadline_ms f = deadline \<and> f_payload f = payload"
  by (auto simp: frame_request_def frame_new_def frame_wf_def result_simps split: if_splits)

lemma frame_request_ok_iff:
  "is_ok (frame_request knd code fid nonce deadline payload)
   \<longleftrightarrow> valid_kind knd \<and> length payload \<le> MST5_MAX_PLAIN_PAYLOAD"
  by (auto simp: frame_request_def frame_new_def)

lemma length_frame_header: "length (f_request_nonce f) = 16 \<Longrightarrow> length (frame_header f) = 40"
  by (simp add: frame_header_def)

lemma frame_header_slices:
  assumes "length (f_request_nonce f) = 16"
  shows "(frame_header f @ p) ! 0 = f_kind f" "(frame_header f @ p) ! 1 = f_flags f"
    "take 2 (drop 2 (frame_header f @ p)) = to_be_bytes (f_code f)"
    "take 8 (drop 4 (frame_header f @ p)) = to_be_bytes (f_id f)"
    "take 16 (drop 12 (frame_header f @ p)) = f_request_nonce f"
    "take 8 (drop 28 (frame_header f @ p)) = to_be_bytes (f_deadline_ms f)"
    "take 4 (drop 36 (frame_header f @ p)) = to_be_bytes (word_of_nat (length (f_payload f)) :: u32)"
    "drop 40 (frame_header f @ p) = p"
  using assms by (simp_all add: frame_header_def)

lemma frame_encode_ok: "frame_wf f \<Longrightarrow> f_flags f = 0 \<Longrightarrow> frame_encode f = Inr (frame_header f @ f_payload f)"
  by (simp add: frame_encode_def frame_wf_def const_defs)

lemma payload_len_u32: "n \<le> MST5_MAX_PLAIN_PAYLOAD \<Longrightarrow> unat (word_of_nat n :: u32) = n"
  by (simp add: const_defs unat_of_nat take_bit_nat_eq_self)

lemma decode_encoded_frame:
  assumes "frame_wf f" "f_flags f = 0"
  shows "decode_with_zstd deflate zstd (frame_header f @ f_payload f) = Inr f"
proof -
  have n: "length (f_request_nonce f) = 16" using assms(1) by (simp add: frame_wf_def)
  show ?thesis
    unfolding decode_with_zstd_def Let_def MST5_HEADER_LEN_def frame_header_slices [OF n]
    using assms
    by (simp add: frame_wf_def length_frame_header payload_len_u32 frame_inflate_def)
      (simp add: const_defs)
qed

lemma flag_cases:
  fixes flags :: u8
  assumes "flags AND NOT (MST5_FLAG_DEFLATE OR MST5_FLAG_ZSTD) = 0"
    "flags AND (MST5_FLAG_DEFLATE OR MST5_FLAG_ZSTD) \<noteq> MST5_FLAG_DEFLATE OR MST5_FLAG_ZSTD"
  shows "flags = 0 \<or> flags = MST5_FLAG_DEFLATE \<or> flags = MST5_FLAG_ZSTD"
proof -
  let ?m = "MST5_FLAG_DEFLATE OR MST5_FLAG_ZSTD"
  have "flags = (flags AND ?m) OR (flags AND NOT ?m)"
    by (rule bit_eqI) (auto simp: bit_simps)
  then have m: "flags = flags AND 3" using assms(1) by (simp add: const_defs)
  then have "flags \<le> 3" by (metis word_and_le1)
  then have "unat flags \<in> {0, 1, 2, 3}" by (auto simp: word_le_nat_alt)
  then have "flags \<in> {0, 1, 2, 3}" by (auto simp: word_unat_eq_iff)
  then show ?thesis using assms(2) by (auto simp: const_defs)
qed

lemma word_unat_inverse32: "word_of_nat (unat x) = (x :: u32)"
  by simp

lemma header_slices:
  assumes "40 \<le> length input"
  shows "input ! 0 # input ! 1 # take 2 (drop 2 input) @ take 8 (drop 4 input) @ take 16 (drop 12 input)
    @ take 8 (drop 28 input) @ take 4 (drop 36 input) = take 40 input"
proof -
  have "take 2 input = [input ! 0, input ! 1]"
    using assms by (cases input; cases "tl input") (auto simp: numeral_2_eq_2)
  moreover have "take 40 input = take (2 + (2 + (8 + (16 + (8 + 4))))) input" by simp
  ultimately show ?thesis unfolding take_add drop_drop by simp
qed

lemma decode_with_zstd_InrD:
  assumes "decode_with_zstd deflate zstd input = Inr f"
  defines "wire \<equiv> drop MST5_HEADER_LEN input"
  shows "frame_wf f" "f_flags f = 0 \<or> f_flags f = MST5_FLAG_DEFLATE \<or> f_flags f = MST5_FLAG_ZSTD"
    "f_flags f \<noteq> 0 \<Longrightarrow> f_kind f = kind_RESULT \<or> f_kind f = kind_EVENT_BATCH"
    "f_flags f \<noteq> 0 \<Longrightarrow> wire \<noteq> [] \<Longrightarrow> length (f_payload f) \<le> 64 * length wire"
    "f_flags f = 0 \<Longrightarrow> frame_header f @ f_payload f = input"
proof -
  let ?both = "MST5_FLAG_DEFLATE OR MST5_FLAG_ZSTD"
  have len: "40 \<le> length input"
    using assms(1) unfolding decode_with_zstd_def if_error_eq_Inr by (simp add: MST5_HEADER_LEN_def)
  obtain payload where raw: "\<not> (\<not> valid_kind (input ! 0) \<or> input ! 1 AND NOT ?both \<noteq> 0 \<or> input ! 1 AND ?both = ?both)"
      "\<not> (input ! 1 AND ?both \<noteq> 0 \<and> \<not> (input ! 0 = kind_RESULT \<or> input ! 0 = kind_EVENT_BATCH))"
      "\<not> (unat (from_be_bytes (take 4 (drop 36 input)) :: u32) > MST5_MAX_WIRE_PAYLOAD
         \<or> length input \<noteq> MST5_HEADER_LEN + unat (from_be_bytes (take 4 (drop 36 input)) :: u32))"
      "frame_inflate deflate zstd (input ! 1) wire = Inr payload"
      "\<not> length payload > MST5_MAX_PLAIN_PAYLOAD"
      "\<not> (input ! 1 AND ?both \<noteq> 0 \<and> wire \<noteq> [] \<and> length payload > length wire * MST5_MAX_COMPRESSION_RATIO)"
    and f: "\<lparr>f_kind = input ! 0, f_flags = input ! 1, f_code = from_be_bytes (take 2 (drop 2 input)),
        f_id = from_be_bytes (take 8 (drop 4 input)), f_request_nonce = take 16 (drop 12 input),
        f_deadline_ms = from_be_bytes (take 8 (drop 28 input)), f_payload = payload\<rparr> = f"
    using assms(1) unfolding wire_def decode_with_zstd_def Let_def if_error_eq_Inr rbind_eq_Inr sum.inject
    by blast
  note flags = f [symmetric]
  show wf: "frame_wf f" using raw(1,5) len by (simp add: flags frame_wf_def)
  show c: "f_flags f = 0 \<or> f_flags f = MST5_FLAG_DEFLATE \<or> f_flags f = MST5_FLAG_ZSTD"
    using flag_cases [of "input ! 1"] raw(1) by (simp only: flags frame.simps) blast
  then have nz: "f_flags f \<noteq> 0 \<Longrightarrow> input ! 1 AND ?both \<noteq> 0" by (auto simp: flags const_defs)
  show "f_flags f \<noteq> 0 \<Longrightarrow> f_kind f = kind_RESULT \<or> f_kind f = kind_EVENT_BATCH"
    using raw(2) nz by (simp only: flags frame.simps) blast
  show "f_flags f \<noteq> 0 \<Longrightarrow> wire \<noteq> [] \<Longrightarrow> length (f_payload f) \<le> 64 * length wire"
    using raw(6) nz by (simp only: flags frame.simps MST5_MAX_COMPRESSION_RATIO_def) (simp add: mult.commute)
  assume z: "f_flags f = 0"
  have pay: "payload = drop 40 input" using raw(4) z
    by (simp add: flags frame_inflate_def wire_def MST5_HEADER_LEN_def)
  have "length input = 40 + unat (from_be_bytes (take 4 (drop 36 input)) :: u32)"
    using raw(3) by (simp only: de_Morgan_disj not_not MST5_HEADER_LEN_def)
  then have "length payload = unat (from_be_bytes (take 4 (drop 36 input)) :: u32)"
    by (simp only: pay length_drop add_diff_cancel_left')
  then have "to_be_bytes (word_of_nat (length payload) :: u32) = take 4 (drop 36 input)"
    using len be32.enc_dec [of "take 4 (drop 36 input)"] word_unat_inverse32 by (simp only:) simp
  then have "frame_header f = take 40 input"
    using header_slices [OF len] len by (simp add: flags frame_header_def be16.enc_dec be64.enc_dec)
  then show "frame_header f @ f_payload f = input" using pay flags by simp
qed

section \<open>Properties\<close>

lemma ping_frame_wf: "frame_wf ping_frame" "f_flags ping_frame = 0"
  by (simp_all add: ping_frame_def frame_wf_def valid_kind_def const_defs)

text \<open>
  C16: every frame the client can build encodes to a 40-byte header followed by
  its payload, and decoding those bytes gives the same frame, whatever the
  decompressors do.
\<close>

theorem frame_round_trip:
  assumes "frame_wf f" "f_flags f = 0"
  shows "\<exists>bs. frame_encode f = Inr bs \<and> length bs = MST5_HEADER_LEN + length (f_payload f)
    \<and> decode_with_zstd deflate zstd bs = Inr f"
  using assms frame_encode_ok decode_encoded_frame
  by (auto simp: frame_wf_def length_frame_header MST5_HEADER_LEN_def)

theorem frame_round_trip_witness:
  "frame_wf ping_frame \<and> f_flags ping_frame = 0 \<and>
   (\<exists>bs. frame_encode ping_frame = Inr bs \<and> length bs = 42
      \<and> decode_with_zstd (\<lambda>_ _. None) (\<lambda>_ _. None) bs = Inr ping_frame)"
  using frame_round_trip [OF ping_frame_wf, of "\<lambda>_ _. None" "\<lambda>_ _. None"] ping_frame_wf
  by (simp add: MST5_HEADER_LEN_def ping_frame_def)

text \<open>
  C9: a frame that the decoder accepts has a known kind and a payload of at most
  4 MiB; it carries at most one compression flag, only on RESULT and
  EVENT_BATCH frames, and then inflates its wire payload at most 64 times; and
  an uncompressed accepted frame re-encodes to exactly the bytes received.
\<close>

theorem frame_decode_safe:
  assumes "decode_with_zstd deflate zstd input = Inr f"
  shows "frame_wf f
    \<and> f_flags f \<in> {0, MST5_FLAG_DEFLATE, MST5_FLAG_ZSTD}
    \<and> (f_flags f \<noteq> 0 \<longrightarrow> f_kind f \<in> {kind_RESULT, kind_EVENT_BATCH})
    \<and> (f_flags f \<noteq> 0 \<longrightarrow> MST5_HEADER_LEN < length input \<longrightarrow>
      length (f_payload f) \<le> MST5_MAX_COMPRESSION_RATIO * (length input - MST5_HEADER_LEN))
    \<and> (f_flags f = 0 \<longrightarrow> frame_encode f = Inr input)"
  using decode_with_zstd_InrD [OF assms] frame_encode_ok [of f]
  by (auto simp: MST5_MAX_COMPRESSION_RATIO_def)

theorem frame_decode_safe_witness:
  "decode_with_zstd (\<lambda>_ _. None) (\<lambda>_ _. None) (frame_header ping_frame @ [1, 2]) = Inr ping_frame
   \<and> frame_encode ping_frame = Inr (frame_header ping_frame @ [1, 2])"
proof -
  have pay: "f_payload ping_frame = [1, 2]" by (simp add: ping_frame_def)
  have dec: "decode_with_zstd (\<lambda>_ _. None) (\<lambda>_ _. None) (frame_header ping_frame @ [1, 2]) = Inr ping_frame"
    using decode_encoded_frame [OF ping_frame_wf] pay by simp
  show ?thesis using dec frame_decode_safe [OF dec] ping_frame_wf(2) by simp
qed

end
