(* ===== verification/Record_Layer.thy ===== *)
theory Record_Layer
  imports Prelude Frame
begin

unbundle bit_operations_syntax

text \<open>
  The encrypted record layer of \<open>src/lib.rs\<close> (\<open>CipherState\<close>, \<open>Session\<close>,
  \<open>transport_plaintext\<close>, \<open>parse_transport_plaintext\<close>, the AEAD and HKDF
  helpers) and the in-place sealing routine of \<open>src/connection.rs\<close>.  The
  primitives of the crates \<open>sha2\<close>, \<open>hkdf\<close>, \<open>chacha20poly1305\<close> and
  \<open>x25519-dalek\<close> are the fields of the record \<open>crypto\<close>, an argument of every
  definition that uses them; what the code relies on is stated as the named
  predicates \<open>aead_laws\<close>, \<open>aead_detached_law\<close>, \<open>aead_authentic\<close> and \<open>hash_laws\<close>.
\<close>

section \<open>Cryptographic primitives\<close>

record crypto =
  c_sha256 :: "bytes \<Rightarrow> bytes"
  c_hkdf :: "bytes \<Rightarrow> bytes \<Rightarrow> bytes \<Rightarrow> nat \<Rightarrow> bytes"
  c_encrypt :: "bytes \<Rightarrow> bytes \<Rightarrow> bytes \<Rightarrow> bytes \<Rightarrow> bytes option"
  c_encrypt_detached :: "bytes \<Rightarrow> bytes \<Rightarrow> bytes \<Rightarrow> bytes \<Rightarrow> (bytes \<times> bytes) option"
  c_decrypt :: "bytes \<Rightarrow> bytes \<Rightarrow> bytes \<Rightarrow> bytes \<Rightarrow> bytes option"
  c_public :: "bytes \<Rightarrow> bytes"
  c_dh :: "bytes \<Rightarrow> bytes \<Rightarrow> bytes"

text \<open>Decryption inverts encryption, and a ciphertext is 16 bytes longer than its plaintext.\<close>

definition aead_laws :: "'a crypto_scheme \<Rightarrow> bool" where
  "aead_laws C \<longleftrightarrow> (\<forall>k n a m. length k = 32 \<longrightarrow> length n = 12 \<longrightarrow> length m < 2 ^ 32 \<longrightarrow>
     (\<exists>c. c_encrypt C k n a m = Some c \<and> length c = length m + 16 \<and> c_decrypt C k n a c = Some m))"

text \<open>\<open>encrypt\<close> is the detached ciphertext followed by its 16-byte tag.\<close>

definition aead_detached_law :: "'a crypto_scheme \<Rightarrow> bool" where
  "aead_detached_law C \<longleftrightarrow> (\<forall>k n a m.
     c_encrypt C k n a m = map_option (\<lambda>(c, t). c @ t) (c_encrypt_detached C k n a m)
     \<and> (\<forall>c t. c_encrypt_detached C k n a m = Some (c, t) \<longrightarrow> length c = length m))"

text \<open>A tag only verifies on the ciphertext the key, nonce and associated data give.\<close>

definition aead_authentic :: "'a crypto_scheme \<Rightarrow> bool" where
  "aead_authentic C \<longleftrightarrow> (\<forall>k n a m c. c_decrypt C k n a c = Some m \<longrightarrow>
     c_encrypt C k n a m = Some c \<and> length c = length m + 16)"

definition hash_laws :: "'a crypto_scheme \<Rightarrow> bool" where
  "hash_laws C \<longleftrightarrow> (\<forall>d. length (c_sha256 C d) = 32)
     \<and> (\<forall>salt ikm info n. length (c_hkdf C salt ikm info n) = n)"

section \<open>Constants\<close>

definition TAG_LEN :: nat where [const_defs]: "TAG_LEN = 16"
definition MAX_TRANSPORT_PAYLOAD :: nat where [const_defs]: "MAX_TRANSPORT_PAYLOAD = 20 * 1024 * 1024"
definition PADDING_BLOCK :: nat where [const_defs]: "PADDING_BLOCK = 256"
definition LARGE_PADDING_BLOCK :: nat where [const_defs]: "LARGE_PADDING_BLOCK = 128"
definition LARGE_PADDING_THRESHOLD :: nat where [const_defs]: "LARGE_PADDING_THRESHOLD = 1024"
definition MAX_RECORDS :: u64 where [const_defs]: "MAX_RECORDS = 0x100000"
definition MAX_PLAINTEXT_BYTES :: u64 where [const_defs]: "MAX_PLAINTEXT_BYTES = 0x40000000"
definition REKEY_RECORDS :: u64 where [const_defs]: "REKEY_RECORDS = 0x40000"
definition REKEY_BYTES :: u64 where [const_defs]: "REKEY_BYTES = 0x10000000"
definition RECORD_LABEL :: bytes where "RECORD_LABEL = as_bytes ''MST5 record''"

section \<open>AEAD and key derivation helpers\<close>

definition aead_nonce :: "u64 \<Rightarrow> bytes" where
  "aead_nonce nonce = replicate 4 0 @ to_le_bytes nonce"

definition aead_encrypt :: "'a crypto_scheme \<Rightarrow> bytes \<Rightarrow> u64 \<Rightarrow> bytes \<Rightarrow> bytes \<Rightarrow> bytes result" where
  "aead_encrypt C key nonce aad plaintext =
    (if length key \<noteq> 32 then Inl (invalid_input ''invalid ChaCha20-Poly1305 key'')
     else ok_or (c_encrypt C key (aead_nonce nonce) aad plaintext)
       (invalid_data ''MST5 encryption failed''))"

definition aead_encrypt_in_place ::
    "'a crypto_scheme \<Rightarrow> bytes \<Rightarrow> u64 \<Rightarrow> bytes \<Rightarrow> bytes \<Rightarrow> (bytes \<times> bytes) result" where
  "aead_encrypt_in_place C key nonce aad plaintext =
    (if length key \<noteq> 32 then Inl (invalid_input ''invalid ChaCha20-Poly1305 key'')
     else ok_or (c_encrypt_detached C key (aead_nonce nonce) aad plaintext)
       (invalid_data ''MST5 encryption failed''))"

definition aead_decrypt :: "'a crypto_scheme \<Rightarrow> bytes \<Rightarrow> u64 \<Rightarrow> bytes \<Rightarrow> bytes \<Rightarrow> bytes result" where
  "aead_decrypt C key nonce aad ciphertext_and_tag =
    (if length ciphertext_and_tag < TAG_LEN then Inl (invalid_data ''MST5 ciphertext is too short'')
     else if length key \<noteq> 32 then Inl (invalid_input ''invalid ChaCha20-Poly1305 key'')
     else ok_or (c_decrypt C key (aead_nonce nonce) aad ciphertext_and_tag)
       (invalid_data ''MST5 authentication failed''))"

definition hkdf :: "'a crypto_scheme \<Rightarrow> bytes \<Rightarrow> bytes \<Rightarrow> bytes \<times> bytes" where
  "hkdf C chaining_key input_key_material =
    (let output = c_hkdf C chaining_key input_key_material [] 64 in (take 32 output, drop 32 output))"

definition record_aad :: "bytes \<Rightarrow> nat \<Rightarrow> u64 \<Rightarrow> bytes result" where
  "record_aad handshake_hash frame_length sequence =
    (if frame_length \<ge> 2 ^ 32 then Inl (invalid_data ''MST5 encrypted record is too large'')
     else Inr (RECORD_LABEL @ handshake_hash @ to_be_bytes (word_of_nat frame_length :: u32)
       @ to_be_bytes sequence))"

section \<open>Transport plaintext\<close>

datatype transport_record = Application bytes | Close

text \<open>
  \<open>checked_add\<close> cannot overflow here: the payload length has just been bounded
  by 20 MiB.
\<close>

definition padded_len :: "nat \<Rightarrow> nat" where
  "padded_len base =
    (let block = (if base \<le> LARGE_PADDING_THRESHOLD then PADDING_BLOCK else LARGE_PADDING_BLOCK)
     in (base + (block - 1)) div block * block)"

definition transport_plaintext :: "u8 \<Rightarrow> bytes \<Rightarrow> bytes result" where
  "transport_plaintext content_type payload =
    (if content_type > 1 \<or> (content_type = 1 \<and> payload \<noteq> []) then
       Inl (invalid_input ''invalid MST5 transport content type'')
     else if length payload > MAX_TRANSPORT_PAYLOAD then
       Inl (invalid_input ''MST5 transport payload is too large'')
     else let base = 5 + length payload in
       Inr (content_type # to_be_bytes (word_of_nat (length payload) :: u32) @ payload
         @ replicate (padded_len base - base) 0))"

definition parse_transport_plaintext :: "bytes \<Rightarrow> transport_record result" where
  "parse_transport_plaintext plaintext =
    (if length plaintext < 5 then Inl (invalid_data ''invalid MST5 transport padding length'')
     else let
       content_type = plaintext ! 0;
       payload_len = unat (from_be_bytes (take 4 (drop 1 plaintext)) :: u32)
     in
     if payload_len > MAX_TRANSPORT_PAYLOAD \<or> 5 + payload_len > length plaintext then
       Inl (invalid_data ''invalid MST5 transport payload length'')
     else if list_ex (\<lambda>b. b \<noteq> 0) (drop (5 + payload_len) plaintext) then
       Inl (invalid_data ''invalid MST5 transport padding'')
     else if content_type = 0 then Inr (Application (take payload_len (drop 5 plaintext)))
     else if content_type = 1 \<and> payload_len = 0 then Inr Close
     else Inl (invalid_data ''invalid MST5 transport content type''))"

definition max_record_len :: nat where
  "max_record_len =
    (let base = 5 + MAX_TRANSPORT_PAYLOAD;
         padded = div_ceil base LARGE_PADDING_BLOCK * LARGE_PADDING_BLOCK
     in 8 + padded + TAG_LEN)"

section \<open>Cipher states\<close>

record cipher_state =
  cs_key :: bytes
  cs_nonce :: u64
  cs_bytes :: u64
  cs_generation :: u64

definition cipher_new :: "bytes \<Rightarrow> cipher_state" where
  "cipher_new key = \<lparr>cs_key = key, cs_nonce = 0, cs_bytes = 0, cs_generation = 0\<rparr>"

definition check_limit :: "cipher_state \<Rightarrow> nat \<Rightarrow> unit result" where
  "check_limit c plaintext_len =
    (if cs_nonce c \<ge> MAX_RECORDS then
       Inl (invalid_data ''MST5 record limit reached; reconnect required'')
     else rbind (ok_or (checked_add (cs_bytes c) (word_of_nat plaintext_len))
         (invalid_data ''MST5 byte count overflow''))
       (\<lambda>total. if total > MAX_PLAINTEXT_BYTES then
          Inl (invalid_data ''MST5 byte limit reached; reconnect required'') else Inr ()))"

text \<open>
  \<open>commit\<close> updates the cipher state field by field; an early return leaves the
  fields already written, so the state is returned in every case.
\<close>

definition rekey :: "'a crypto_scheme \<Rightarrow> bytes \<Rightarrow> cipher_state \<Rightarrow> unit result \<times> cipher_state" where
  "rekey C handshake_hash c = (case checked_add (cs_generation c) 1 of
      None \<Rightarrow> (Inl (invalid_data ''MST5 key generation exhausted''), c)
    | Some g \<Rightarrow>
        (Inr (), c\<lparr>cs_generation := g,
           cs_key := fst (hkdf C (cs_key c) (handshake_hash @ to_be_bytes g)),
           cs_nonce := 0, cs_bytes := 0\<rparr>))"

definition commit ::
    "'a crypto_scheme \<Rightarrow> nat \<Rightarrow> bytes \<Rightarrow> cipher_state \<Rightarrow> unit result \<times> cipher_state" where
  "commit C plaintext_len handshake_hash c =
    (case checked_add (cs_bytes c) (word_of_nat plaintext_len) of
       None \<Rightarrow> (Inl (invalid_data ''MST5 byte count overflow''), c)
     | Some b \<Rightarrow> let c1 = c\<lparr>cs_bytes := b\<rparr> in
         (case checked_add (cs_nonce c1) 1 of
            None \<Rightarrow> (Inl (invalid_data ''MST5 nonce exhausted''), c1)
          | Some n \<Rightarrow> let c2 = c1\<lparr>cs_nonce := n\<rparr> in
              if cs_nonce c2 \<ge> REKEY_RECORDS \<or> cs_bytes c2 \<ge> REKEY_BYTES
              then rekey C handshake_hash c2 else (Inr (), c2)))"

section \<open>Sealing and opening records\<close>

text \<open>
  \<open>seal_cipher\<close> is the body of \<open>Session::seal_record\<close> on the sending cipher state
  and the handshake hash; \<open>open_cipher\<close> the one of \<open>Session::open_record\<close>.
\<close>

definition seal_cipher ::
    "'a crypto_scheme \<Rightarrow> bytes \<Rightarrow> u8 \<Rightarrow> bytes \<Rightarrow> cipher_state \<Rightarrow> bytes result \<times> cipher_state" where
  "seal_cipher C handshake_hash content_type payload c =
    (case transport_plaintext content_type payload of Inl e \<Rightarrow> (Inl e, c) | Inr plaintext \<Rightarrow>
    (case check_limit c (length plaintext) of Inl e \<Rightarrow> (Inl e, c) | Inr _ \<Rightarrow>
     let sequence = cs_nonce c; frame_length = 8 + length plaintext + TAG_LEN in
     if frame_length \<ge> 2 ^ 64 then (Inl (invalid_data ''MST5 record length overflow''), c) else
    (case record_aad handshake_hash frame_length sequence of Inl e \<Rightarrow> (Inl e, c) | Inr aad \<Rightarrow>
    (case aead_encrypt C (cs_key c) sequence aad plaintext of Inl e \<Rightarrow> (Inl e, c) | Inr ciphertext \<Rightarrow>
     let record = to_be_bytes sequence @ ciphertext in
    (case commit C (length plaintext) handshake_hash c of
       (Inl e, c') \<Rightarrow> (Inl e, c') | (Inr _, c') \<Rightarrow> (Inr record, c'))))))"

definition open_cipher ::
    "'a crypto_scheme \<Rightarrow> bytes \<Rightarrow> bytes \<Rightarrow> cipher_state \<Rightarrow> transport_record result \<times> cipher_state" where
  "open_cipher C handshake_hash record c =
    (if length record < 8 + TAG_LEN \<or> length record > max_record_len then
       (Inl (invalid_data ''invalid MST5 encrypted record length''), c)
     else let sequence = from_be_bytes (take 8 record) in
     if sequence \<noteq> cs_nonce c then
       (Inl (invalid_data ''MST5 encrypted record sequence mismatch''), c)
     else let plaintext_len = length record - 8 - TAG_LEN in
    (case check_limit c plaintext_len of Inl e \<Rightarrow> (Inl e, c) | Inr _ \<Rightarrow>
    (case record_aad handshake_hash (length record) sequence of Inl e \<Rightarrow> (Inl e, c) | Inr aad \<Rightarrow>
    (case aead_decrypt C (cs_key c) sequence aad (drop 8 record) of Inl e \<Rightarrow> (Inl e, c) | Inr plaintext \<Rightarrow>
    (case parse_transport_plaintext plaintext of Inl e \<Rightarrow> (Inl e, c) | Inr decoded \<Rightarrow>
    (case commit C (length plaintext) handshake_hash c of
       (Inl e, c') \<Rightarrow> (Inl e, c') | (Inr _, c') \<Rightarrow> (Inr decoded, c')))))))"

record session =
  s_seal :: cipher_state
  s_open :: cipher_state
  s_hash :: bytes

definition seal_record :: "'a crypto_scheme \<Rightarrow> u8 \<Rightarrow> bytes \<Rightarrow> session \<Rightarrow> bytes result \<times> session" where
  "seal_record C content_type payload s =
    (case seal_cipher C (s_hash s) content_type payload (s_seal s) of (r, c) \<Rightarrow> (r, s\<lparr>s_seal := c\<rparr>))"

definition open_record :: "'a crypto_scheme \<Rightarrow> bytes \<Rightarrow> session \<Rightarrow> transport_record result \<times> session" where
  "open_record C record s =
    (case open_cipher C (s_hash s) record (s_open s) of (r, c) \<Rightarrow> (r, s\<lparr>s_open := c\<rparr>))"

text \<open>
  \<open>seal_record_into\<close> of the connection's writer encrypts the padded plaintext in
  place and appends the detached tag.
\<close>

definition seal_record_into ::
    "'a crypto_scheme \<Rightarrow> bytes \<Rightarrow> u8 \<Rightarrow> bytes \<Rightarrow> cipher_state \<Rightarrow> bytes result \<times> cipher_state" where
  "seal_record_into C handshake_hash content_type payload c =
    (case transport_plaintext content_type payload of Inl e \<Rightarrow> (Inl e, c) | Inr plaintext \<Rightarrow>
    (case check_limit c (length plaintext) of Inl e \<Rightarrow> (Inl e, c) | Inr _ \<Rightarrow>
     let sequence = cs_nonce c; frame_length = 8 + length plaintext + TAG_LEN in
     if frame_length \<ge> 2 ^ 64 then (Inl (invalid_data ''MST5 record length overflow''), c) else
    (case record_aad handshake_hash frame_length sequence of Inl e \<Rightarrow> (Inl e, c) | Inr aad \<Rightarrow>
    (case aead_encrypt_in_place C (cs_key c) sequence aad plaintext of
       Inl e \<Rightarrow> (Inl e, c)
     | Inr (plaintext, tag) \<Rightarrow>
         let record = to_be_bytes sequence @ plaintext @ tag in
        (case commit C (length plaintext) handshake_hash c of
           (Inl e, c') \<Rightarrow> (Inl e, c') | (Inr _, c') \<Rightarrow> (Inr record, c'))))))"

section \<open>Length-prefixed records on a byte stream\<close>

definition read_exact :: "nat \<Rightarrow> bytes \<Rightarrow> (bytes \<times> bytes) result" where
  "read_exact n stream =
    (if length stream < n then Inl (IoError UnexpectedEof ''early eof'')
     else Inr (take n stream, drop n stream))"

text \<open>
  \<open>write_frame\<close> appends the length prefix and the record to what has been
  written; \<open>read_frame\<close> consumes the bytes that have arrived.
\<close>

definition session_write_frame ::
    "'a crypto_scheme \<Rightarrow> bytes \<Rightarrow> bytes \<Rightarrow> session \<Rightarrow> unit result \<times> bytes \<times> session" where
  "session_write_frame C payload out s =
    (case seal_record C 0 payload s of
       (Inl e, s') \<Rightarrow> (Inl e, out, s')
     | (Inr record, s') \<Rightarrow>
         (Inr (), out @ to_be_bytes (word_of_nat (length record) :: u32) @ record, s'))"

definition session_read_frame ::
    "'a crypto_scheme \<Rightarrow> bytes \<Rightarrow> session \<Rightarrow> bytes option result \<times> bytes \<times> session" where
  "session_read_frame C input s =
    (case read_exact 4 input of Inl e \<Rightarrow> (Inl e, [], s) | Inr (len_bytes, rest) \<Rightarrow>
     let len = unat (from_be_bytes len_bytes :: u32) in
     if len < 8 + TAG_LEN \<or> len > max_record_len then
       (Inl (invalid_data ''invalid MST5 encrypted record length''), rest, s)
     else (case read_exact len rest of Inl e \<Rightarrow> (Inl e, [], s) | Inr (record, rest') \<Rightarrow>
       (case open_record C record s of
          (Inl e, s') \<Rightarrow> (Inl e, rest', s')
        | (Inr (Application payload), s') \<Rightarrow> (Inr (Some payload), rest', s')
        | (Inr Close, s') \<Rightarrow> (Inr None, rest', s'))))"

section \<open>Specification vocabulary\<close>

text \<open>The largest padded plaintext, 20 MiB of payload with its header and padding.\<close>

definition max_plaintext :: nat where
  "max_plaintext = 20971648"

text \<open>
  What every cipher state of a running session has: the counters are below the
  rekey thresholds, and the byte counter is accounted for by the records sealed
  under the current key.
\<close>

definition cipher_inv :: "cipher_state \<Rightarrow> bool" where
  "cipher_inv c \<longleftrightarrow> length (cs_key c) = 32 \<and> unat (cs_nonce c) < 2 ^ 18
     \<and> unat (cs_bytes c) < 2 ^ 28 \<and> unat (cs_bytes c) \<le> unat (cs_nonce c) * max_plaintext"

definition sealable :: "u8 \<Rightarrow> bytes \<Rightarrow> bool" where
  "sealable content_type payload \<longleftrightarrow>
     (content_type = 0 \<and> length payload \<le> MAX_TRANSPORT_PAYLOAD) \<or> (content_type = 1 \<and> payload = [])"

definition record_of :: "u8 \<Rightarrow> bytes \<Rightarrow> transport_record" where
  "record_of content_type payload = (if content_type = 0 then Application payload else Close)"

text \<open>The state after a committed record, with the rekey decision in plain arithmetic.\<close>

definition commit_spec :: "'a crypto_scheme \<Rightarrow> nat \<Rightarrow> bytes \<Rightarrow> cipher_state \<Rightarrow> cipher_state" where
  "commit_spec C n h c =
    (let c2 = c\<lparr>cs_bytes := cs_bytes c + word_of_nat n, cs_nonce := cs_nonce c + 1\<rparr> in
     if unat (cs_nonce c) + 1 \<ge> 2 ^ 18 \<or> unat (cs_bytes c) + n \<ge> 2 ^ 28
     then c\<lparr>cs_generation := cs_generation c + 1,
            cs_key := fst (hkdf C (cs_key c) (h @ to_be_bytes (cs_generation c + 1))),
            cs_nonce := 0, cs_bytes := 0\<rparr>
     else c2)"

text \<open>
  Running an operation over a list, threading the state and stopping at the
  first error, and the records a sequence of seals produces together with the
  generation and nonce each was sealed under.
\<close>

primrec run_all :: "('m \<Rightarrow> 's \<Rightarrow> 'r result \<times> 's) \<Rightarrow> 'm list \<Rightarrow> 's \<Rightarrow> 'r list result \<times> 's" where
  "run_all f [] s = (Inr [], s)"
| "run_all f (m # ms) s = (case f m s of
      (Inl e, s') \<Rightarrow> (Inl e, s')
    | (Inr r, s') \<Rightarrow> (case run_all f ms s' of
          (Inl e, s'') \<Rightarrow> (Inl e, s'')
        | (Inr rs, s'') \<Rightarrow> (Inr (r # rs), s'')))"

primrec seal_positions ::
    "'a crypto_scheme \<Rightarrow> bytes \<Rightarrow> (u8 \<times> bytes) list \<Rightarrow> cipher_state \<Rightarrow> (u64 \<times> u64) list" where
  "seal_positions C h [] c = []"
| "seal_positions C h (m # ms) c = (case seal_cipher C h (fst m) (snd m) c of
      (Inl e, c') \<Rightarrow> seal_positions C h ms c'
    | (Inr r, c') \<Rightarrow> (cs_generation c, cs_nonce c) # seal_positions C h ms c')"

definition channel_ready :: "nat \<Rightarrow> cipher_state \<Rightarrow> bool" where
  "channel_ready n c \<longleftrightarrow> cipher_inv c \<and> unat (cs_generation c) + n < 2 ^ 64"

definition position :: "cipher_state \<Rightarrow> nat" where
  "position c = unat (cs_generation c) * 2 ^ 18 + unat (cs_nonce c)"

text \<open>A crypto instance for the witnesses: a fixed tag and no secrecy.\<close>

definition toy_crypto :: crypto where
  "toy_crypto = \<lparr>c_sha256 = (\<lambda>d. replicate 32 0), c_hkdf = (\<lambda>salt ikm info n. replicate n 0),
     c_encrypt = (\<lambda>k n a m. Some (m @ replicate 16 0)),
     c_encrypt_detached = (\<lambda>k n a m. Some (m, replicate 16 0)),
     c_decrypt = (\<lambda>k n a c. if 16 \<le> length c \<and> drop (length c - 16) c = replicate 16 0
        then Some (take (length c - 16) c) else None),
     c_public = (\<lambda>s. take 32 (s @ replicate 32 0)),
     c_dh = (\<lambda>a b. map2 (+) (take 32 (a @ replicate 32 0)) b)\<rparr>"

text \<open>Two ends of a direction agree: the writer's sealing state is the reader's opening state.\<close>

definition in_sync :: "session \<Rightarrow> session \<Rightarrow> bool" where
  "in_sync w r \<longleftrightarrow> s_seal w = s_open r \<and> s_hash w = s_hash r"

primrec write_frames ::
    "'a crypto_scheme \<Rightarrow> bytes list \<Rightarrow> bytes \<Rightarrow> session \<Rightarrow> unit result \<times> bytes \<times> session" where
  "write_frames C [] out s = (Inr (), out, s)"
| "write_frames C (p # ps) out s = (case session_write_frame C p out s of
      (Inl e, out', s') \<Rightarrow> (Inl e, out', s')
    | (Inr _, out', s') \<Rightarrow> write_frames C ps out' s')"

primrec read_frames ::
    "'a crypto_scheme \<Rightarrow> nat \<Rightarrow> bytes \<Rightarrow> session \<Rightarrow> bytes option list result \<times> bytes \<times> session" where
  "read_frames C 0 input s = (Inr [], input, s)"
| "read_frames C (Suc n) input s = (case session_read_frame C input s of
      (Inl e, rest, s') \<Rightarrow> (Inl e, rest, s')
    | (Inr f, rest, s') \<Rightarrow> (case read_frames C n rest s' of
          (Inl e, rest', s'') \<Rightarrow> (Inl e, rest', s'')
        | (Inr fs, rest', s'') \<Rightarrow> (Inr (f # fs), rest', s'')))"

section \<open>The contract of a record channel\<close>

text \<open>
  A sealing and an opening operation on one state: whatever is sealed in a
  state is opened in that state, both reach the same next state, and a state
  that is ready for n records is ready for n - 1 afterwards.
\<close>

locale record_channel =
  fixes laws :: "'k \<Rightarrow> bool"
    and seal :: "'k \<Rightarrow> 'm \<Rightarrow> 's \<Rightarrow> bytes result \<times> 's"
    and opener :: "'k \<Rightarrow> bytes \<Rightarrow> 's \<Rightarrow> 'd result \<times> 's"
    and valid :: "'m \<Rightarrow> bool"
    and view :: "'m \<Rightarrow> 'd"
    and ready :: "nat \<Rightarrow> 's \<Rightarrow> bool"
  assumes step: "laws k \<Longrightarrow> ready (Suc n) s \<Longrightarrow> valid m \<Longrightarrow>
    \<exists>r s'. seal k m s = (Inr r, s') \<and> opener k r s = (Inr (view m), s') \<and> ready n s'"
begin

lemma delivery:
  "laws k \<Longrightarrow> ready (length ms) s \<Longrightarrow> list_all valid ms \<Longrightarrow>
   \<exists>rs s'. run_all (seal k) ms s = (Inr rs, s') \<and> run_all (opener k) rs s = (Inr (map view ms), s')"
proof (induction ms arbitrary: s)
  case (Cons m ms)
  then obtain r s' where "seal k m s = (Inr r, s')" "opener k r s = (Inr (view m), s')"
    "ready (length ms) s'" using step [of k "length ms" s m] by auto
  moreover from this Cons obtain rs s'' where "run_all (seal k) ms s' = (Inr rs, s'')"
    "run_all (opener k) rs s' = (Inr (map view ms), s'')" by fastforce
  ultimately show ?case by (intro exI [of _ "r # rs"] exI [of _ s'']) simp
qed simp

end

section \<open>Padding\<close>

lemma padded_len_bounds:
  "base \<le> padded_len base" "padded_len base < base + 256" "128 dvd padded_len base"
  "0 < base \<Longrightarrow> 256 \<le> padded_len base"
proof -
  have div_up: "base \<le> (base + (b - 1)) div b * b \<and> (base + (b - 1)) div b * b < base + b"
    if "0 < b" for b :: nat
  proof -
    have "(base + (b - 1)) div b * b + (base + (b - 1)) mod b = base + (b - 1)"
      by (rule div_mult_mod_eq)
    moreover have "(base + (b - 1)) mod b < b" using that by simp
    ultimately show ?thesis using that by linarith
  qed
  show "base \<le> padded_len base" "padded_len base < base + 256"
    using div_up [of 256] div_up [of 128]
    by (auto simp: padded_len_def const_defs)
  show "128 dvd padded_len base"
    by (auto simp: padded_len_def const_defs intro: dvd_mult)
  show "256 \<le> padded_len base" if "0 < base"
  proof (cases "base \<le> 1024")
    case True
    have "1 \<le> (base + 255) div 256" using that by simp
    then show ?thesis using True by (simp add: padded_len_def const_defs)
  next
    case False
    then show ?thesis using \<open>base \<le> padded_len base\<close> by simp
  qed
qed

lemma transport_plaintext_ok:
  assumes "sealable ct payload"
  shows "transport_plaintext ct payload = Inr (ct # to_be_bytes (word_of_nat (length payload) :: u32)
    @ payload @ replicate (padded_len (5 + length payload) - (5 + length payload)) 0)"
  using assms by (auto simp: sealable_def transport_plaintext_def Let_def const_defs)

lemma transport_plaintext_iff: "is_ok (transport_plaintext ct payload) \<longleftrightarrow> sealable ct payload"
proof -
  have "ct = 0 \<or> ct = 1" if "\<not> ct > 1"
  proof -
    have "unat ct = 0 \<or> unat ct = 1" using that by (simp add: word_less_nat_alt) linarith
    then show ?thesis by (auto simp: word_unat_eq_iff)
  qed
  then show ?thesis by (auto simp: transport_plaintext_def Let_def sealable_def)
qed

lemma transport_plaintext_length:
  assumes "transport_plaintext ct payload = Inr p"
  shows "length p = padded_len (5 + length payload)" "length p \<le> max_plaintext" "256 \<le> length p"
proof -
  have ok: "sealable ct payload" using assms transport_plaintext_iff [of ct payload] by simp
  then show len: "length p = padded_len (5 + length payload)"
    using assms padded_len_bounds(1) [of "5 + length payload"] by (auto simp: transport_plaintext_ok)
  show "256 \<le> length p" unfolding len using padded_len_bounds(4) by simp
  have pl: "length payload \<le> 20971520" using ok by (auto simp: sealable_def const_defs)
  show "length p \<le> max_plaintext"
  proof (cases "5 + length payload \<le> 1024")
    case True
    then show ?thesis unfolding len using padded_len_bounds(2) [of "5 + length payload"]
      by (simp add: max_plaintext_def)
  next
    case False
    have "(5 + length payload + 127) div 128 \<le> (20971520 + 5 + 127) div 128"
      using pl by (intro div_le_mono) simp
    then show ?thesis unfolding len using False by (simp add: padded_len_def const_defs max_plaintext_def)
  qed
qed

lemma parse_transport_plaintext_ok:
  assumes "transport_plaintext ct payload = Inr p"
  shows "parse_transport_plaintext p = Inr (record_of ct payload)"
proof -
  have ok: "sealable ct payload" using assms transport_plaintext_iff [of ct payload] by simp
  then have len: "unat (word_of_nat (length payload) :: u32) = length payload"
    by (auto simp: sealable_def const_defs unat_of_nat take_bit_nat_eq_self)
  let ?pad = "replicate (padded_len (5 + length payload) - (5 + length payload)) (0 :: u8)"
  have p: "p = ct # to_be_bytes (word_of_nat (length payload) :: u32) @ payload @ ?pad"
    using assms transport_plaintext_ok [OF ok] by simp
  have drops: "take 4 (drop 1 p) = to_be_bytes (word_of_nat (length payload) :: u32)"
    "drop 5 p = payload @ ?pad" "p ! 0 = ct" "5 + length payload \<le> length p"
    by (simp_all add: p)
  have pad: "drop (5 + length payload) p = ?pad"
    unfolding add.commute [of 5] drop_drop [symmetric] drops(2) by simp
  show ?thesis
    unfolding parse_transport_plaintext_def Let_def drops be32.dec_enc len pad
    using ok drops(4) by (auto simp: sealable_def record_of_def const_defs list_ex_iff)
qed

section \<open>Counters and rekeying\<close>

lemma unat_word_of_nat_64: "n < 2 ^ 64 \<Longrightarrow> unat (word_of_nat n :: u64) = n"
  by (simp add: unat_of_nat take_bit_nat_eq_self)

lemma checked_add_Some:
  "unat a + unat b < 2 ^ LENGTH('a) \<Longrightarrow> checked_add a (b :: 'a::len word) = Some (a + b) \<and> unat (a + b) = unat a + unat b"
  by (simp add: checked_add_def unat_add_lem)

lemma check_limit_ok:
  assumes "cipher_inv c" "n \<le> max_plaintext"
  shows "check_limit c n = Inr ()"
proof -
  have n: "unat (word_of_nat n :: u64) = n"
    using assms(2) by (intro unat_word_of_nat_64) (simp add: max_plaintext_def)
  have "unat (cs_bytes c) + unat (word_of_nat n :: u64) < 2 ^ 64"
    using assms unfolding n by (simp add: cipher_inv_def max_plaintext_def)
  from checked_add_Some [of "cs_bytes c" "word_of_nat n"] this n
  have add: "checked_add (cs_bytes c) (word_of_nat n) = Some (cs_bytes c + word_of_nat n)"
    "unat (cs_bytes c + word_of_nat n) = unat (cs_bytes c) + n" by simp_all
  have "\<not> MAX_RECORDS \<le> cs_nonce c" using assms(1)
    by (simp add: cipher_inv_def const_defs word_le_nat_alt)
  moreover have "\<not> MAX_PLAINTEXT_BYTES < cs_bytes c + word_of_nat n" using assms
    by (simp add: cipher_inv_def const_defs word_less_nat_alt add(2) max_plaintext_def)
  ultimately show ?thesis by (simp add: check_limit_def add(1))
qed

lemma commit_ok:
  assumes inv: "cipher_inv c" and n: "n \<le> max_plaintext" and gen: "cs_generation c \<noteq> - 1"
  shows "commit C n h c = (Inr (), commit_spec C n h c)"
proof -
  have n64: "unat (word_of_nat n :: u64) = n"
    using n by (intro unat_word_of_nat_64) (simp add: max_plaintext_def)
  have "unat (cs_bytes c) + unat (word_of_nat n :: u64) < 2 ^ 64"
    using inv n unfolding n64 by (simp add: cipher_inv_def max_plaintext_def)
  from checked_add_Some [of "cs_bytes c" "word_of_nat n"] this n64
  have b: "checked_add (cs_bytes c) (word_of_nat n) = Some (cs_bytes c + word_of_nat n)"
    "unat (cs_bytes c + word_of_nat n) = unat (cs_bytes c) + n" by simp_all
  have m: "checked_add (cs_nonce c) 1 = Some (cs_nonce c + 1)" "unat (cs_nonce c + 1) = unat (cs_nonce c) + 1"
    using checked_add_Some [of "cs_nonce c" 1] inv by (simp_all add: cipher_inv_def)
  have "unat (cs_generation c) \<noteq> 2 ^ 64 - 1"
    using gen unat_max_word [where ?'a = 64] by (auto simp: word_unat_eq_iff)
  then have g: "checked_add (cs_generation c) 1 = Some (cs_generation c + 1)"
    using checked_add_Some [of "cs_generation c" 1] unsigned_less [of "cs_generation c", where ?'a = nat]
    by simp
  have "(REKEY_RECORDS \<le> cs_nonce c + 1) = (2 ^ 18 \<le> unat (cs_nonce c) + 1)"
    "(REKEY_BYTES \<le> cs_bytes c + word_of_nat n) = (2 ^ 28 \<le> unat (cs_bytes c) + n)"
    unfolding word_le_nat_alt m(2) b(2) by (simp_all add: const_defs)
  then show ?thesis
    by (simp add: commit_def b(1) m(1) rekey_def g Let_def commit_spec_def)
qed

lemma length_fst_hkdf: "hash_laws C \<Longrightarrow> length (fst (hkdf C k m)) = 32"
  by (simp add: hkdf_def hash_laws_def Let_def)

lemma commit_spec_inv:
  assumes "hash_laws C" "cipher_inv c" "n \<le> max_plaintext"
  shows "cipher_inv (commit_spec C n h c)"
proof (cases "2 ^ 18 \<le> unat (cs_nonce c) + 1 \<or> 2 ^ 28 \<le> unat (cs_bytes c) + n")
  case True
  then show ?thesis
    using assms(1) by (auto simp: commit_spec_def cipher_inv_def length_fst_hkdf)
next
  case False
  have n64: "unat (word_of_nat n :: u64) = n"
    using assms(3) by (intro unat_word_of_nat_64) (simp add: max_plaintext_def)
  have b: "unat (cs_bytes c + word_of_nat n) = unat (cs_bytes c) + n"
    using checked_add_Some [of "cs_bytes c" "word_of_nat n"] False unfolding n64 by simp
  have m: "unat (cs_nonce c + 1) = unat (cs_nonce c) + 1"
    using checked_add_Some [of "cs_nonce c" 1] False by simp
  show ?thesis
    using False assms by (simp add: commit_spec_def cipher_inv_def b m Let_def)
qed

section \<open>Sealing and opening\<close>

lemma length_aead_nonce: "length (aead_nonce n) = 12"
  by (simp add: aead_nonce_def)

lemma aead_round_trip:
  assumes "aead_laws C" "length k = 32" "length m < 2 ^ 32"
  obtains ct where "aead_encrypt C k n a m = Inr ct" "length ct = length m + 16"
    "aead_decrypt C k n a ct = Inr m"
  using assms unfolding aead_laws_def
  by (metis aead_encrypt_def aead_decrypt_def length_aead_nonce ok_or_simps(2) TAG_LEN_def le_add2 not_le)

lemma max_record_len_eq: "max_record_len = 8 + max_plaintext + TAG_LEN"
  by (simp add: max_record_len_def max_plaintext_def div_ceil_def const_defs)

lemma seal_open_cipher:
  assumes laws: "aead_laws C" and inv: "cipher_inv c" and ok: "sealable ct payload"
    and gen: "cs_generation c \<noteq> - 1"
  obtains r where
    "seal_cipher C h ct payload c = (Inr r, commit_spec C (padded_len (5 + length payload)) h c)"
    "open_cipher C h r c = (Inr (record_of ct payload), commit_spec C (padded_len (5 + length payload)) h c)"
    "length r = 8 + padded_len (5 + length payload) + TAG_LEN" "length r \<le> max_record_len"
    "take 8 r = to_be_bytes (cs_nonce c)"
proof -
  obtain p where p: "transport_plaintext ct payload = Inr p"
    using transport_plaintext_ok [OF ok] by blast
  note len = transport_plaintext_length [OF p]
  define fl where "fl = 8 + length p + TAG_LEN"
  have small: "fl < 2 ^ 32" "length p < 2 ^ 32"
    using len(2) by (simp_all add: fl_def max_plaintext_def const_defs)
  then obtain aad where aad: "record_aad h fl (cs_nonce c) = Inr aad" by (simp add: record_aad_def)
  have key: "length (cs_key c) = 32" using inv by (simp add: cipher_inv_def)
  obtain x where x: "aead_encrypt C (cs_key c) (cs_nonce c) aad p = Inr x" "length x = length p + 16"
    "aead_decrypt C (cs_key c) (cs_nonce c) aad x = Inr p"
    using aead_round_trip [OF laws key small(2)] by blast
  let ?r = "to_be_bytes (cs_nonce c) @ x"
  have lr: "length ?r = fl" using x(2) by (simp add: TAG_LEN_def fl_def)
  have bounds: "8 + TAG_LEN \<le> fl" "fl \<le> max_record_len" "fl - 8 - TAG_LEN = length p"
    using len(2) by (simp_all add: fl_def max_record_len_eq)
  note commits = check_limit_ok [OF inv len(2)] commit_ok [OF inv len(2) gen, of C h]
  have seal: "seal_cipher C h ct payload c = (Inr ?r, commit_spec C (length p) h c)"
    using small(1) unfolding seal_cipher_def Let_def p sum.case commits fl_def [symmetric] aad x(1) prod.case
    by simp
  have "open_cipher C h ?r c = (Inr (record_of ct payload), commit_spec C (length p) h c)"
    using bounds unfolding open_cipher_def Let_def lr bounds(3) sum.case commits
    by (simp add: aad x(3) parse_transport_plaintext_ok [OF p] commits)
  with seal lr len bounds show ?thesis
    by (intro that [of ?r]) (simp_all add: fl_def)
qed

lemma generation_not_max: "unat (g :: u64) + Suc n < 2 ^ 64 \<Longrightarrow> g \<noteq> - 1"
  using unat_max_word [where ?'a = 64] by auto

lemma commit_spec_ready:
  assumes "hash_laws C" "channel_ready (Suc n) c" "m \<le> max_plaintext"
  shows "channel_ready n (commit_spec C m h c)"
proof -
  have "unat (cs_generation c + 1) = unat (cs_generation c) + 1"
    using checked_add_Some [of "cs_generation c" 1] assms(2) by (simp add: channel_ready_def)
  then show ?thesis
    using assms commit_spec_inv [OF assms(1) _ assms(3), of c h]
    by (auto simp: channel_ready_def commit_spec_def Let_def)
qed

lemma commit_spec_position:
  assumes "cipher_inv c" "cs_generation c \<noteq> - 1"
  shows "position c < position (commit_spec C m h c)"
proof -
  have g: "unat (cs_generation c + 1) = unat (cs_generation c) + 1"
    using assms(2) unat_max_word [where ?'a = 64] unsigned_less [of "cs_generation c", where ?'a = nat]
      checked_add_Some [of "cs_generation c" 1] by (auto simp: word_unat_eq_iff)
  have n: "unat (cs_nonce c + 1) = unat (cs_nonce c) + 1"
    using checked_add_Some [of "cs_nonce c" 1] assms(1) by (simp add: cipher_inv_def)
  show ?thesis using assms(1) by (simp add: position_def commit_spec_def Let_def g n cipher_inv_def)
qed

interpretation session_channel: record_channel
  "\<lambda>k. aead_laws (fst k) \<and> hash_laws (fst k)"
  "\<lambda>k m. seal_cipher (fst k) (snd k) (fst m) (snd m)"
  "\<lambda>k. open_cipher (fst k) (snd k)"
  "\<lambda>m. sealable (fst m) (snd m)" "\<lambda>m. record_of (fst m) (snd m)" channel_ready
proof unfold_locales
  fix k :: "'a crypto_scheme \<times> bytes" and n s and m :: "u8 \<times> bytes"
  assume laws: "aead_laws (fst k) \<and> hash_laws (fst k)" and ready: "channel_ready (Suc n) s"
    and ok: "sealable (fst m) (snd m)"
  have inv: "cipher_inv s" "cs_generation s \<noteq> - 1"
    using ready generation_not_max by (auto simp: channel_ready_def)
  obtain p where p: "transport_plaintext (fst m) (snd m) = Inr p"
    using transport_plaintext_ok [OF ok] by blast
  then have "channel_ready n (commit_spec (fst k) (padded_len (5 + length (snd m))) (snd k) s)"
    using transport_plaintext_length [OF p] laws ready by (intro commit_spec_ready) simp_all
  then show "\<exists>r s'. seal_cipher (fst k) (snd k) (fst m) (snd m) s = (Inr r, s') \<and>
      open_cipher (fst k) (snd k) r s = (Inr (record_of (fst m) (snd m)), s') \<and> channel_ready n s'"
    using seal_open_cipher [OF conjunct1 [OF laws] inv(1) ok inv(2), of "snd k"] by metis
qed

lemma seal_record_into_eq: "aead_detached_law C \<Longrightarrow> seal_record_into C h ct p c = seal_cipher C h ct p c"
proof -
  assume law: "aead_detached_law C"
  have same: "c_encrypt C k n a m = map_option (\<lambda>(c, t). c @ t) (c_encrypt_detached C k n a m)"
    and len: "c_encrypt_detached C k n a m = Some (x, t) \<Longrightarrow> length x = length m" for k n a m x t
    using law unfolding aead_detached_law_def by blast+
  have "aead_encrypt C k n a m = rbind (aead_encrypt_in_place C k n a m) (\<lambda>(x, t). Inr (x @ t))"
    and "aead_encrypt_in_place C k n a m = Inr (x, t) \<Longrightarrow> length x = length m" for k n a m x t
    by (auto simp: same aead_encrypt_def aead_encrypt_in_place_def ok_or_def len
        split: option.splits if_splits)
  then show ?thesis
    by (auto simp: seal_record_into_def seal_cipher_def Let_def rbind_def split: sum.split prod.split)
qed

lemma seal_cipher_Inr:
  assumes "seal_cipher C h ct p c = (Inr r, c')" "cipher_inv c"
  shows "cs_generation c \<noteq> - 1 \<Longrightarrow> c' = commit_spec C (padded_len (5 + length p)) h c"
    and "padded_len (5 + length p) \<le> max_plaintext"
proof -
  obtain x where x: "transport_plaintext ct p = Inr x"
    using assms(1) by (cases "transport_plaintext ct p") (auto simp: seal_cipher_def)
  note len = transport_plaintext_length [OF x]
  show "padded_len (5 + length p) \<le> max_plaintext" using len by simp
  assume g: "cs_generation c \<noteq> - 1"
  show "c' = commit_spec C (padded_len (5 + length p)) h c"
    using assms(1) commit_ok [OF assms(2) len(2) g, of C h] len(1)
    by (auto simp: seal_cipher_def x Let_def split: sum.splits if_splits)
qed

lemma seal_cipher_Inl_unchanged:
  assumes "seal_cipher C h ct p c = (Inl e, c')" "cipher_inv c" "cs_generation c \<noteq> - 1"
  shows "c' = c"
proof (cases "transport_plaintext ct p")
  case (Inr x)
  note len = transport_plaintext_length [OF Inr]
  show ?thesis
    using assms(1) commit_ok [OF assms(2) len(2) assms(3), of C h]
    by (auto simp: seal_cipher_def Inr Let_def split: sum.splits if_splits)
qed (use assms(1) in \<open>simp add: seal_cipher_def\<close>)

lemma seal_positions_increase:
  assumes "hash_laws C" "channel_ready (length ms) c"
  shows "distinct (seal_positions C h ms c) \<and>
    (\<forall>(g, n) \<in> set (seal_positions C h ms c). position c \<le> unat g * 2 ^ 18 + unat n)"
  using assms(2)
proof (induction ms arbitrary: c)
  case (Cons m ms)
  then have inv: "cipher_inv c" and gen: "cs_generation c \<noteq> - 1"
    using generation_not_max by (auto simp: channel_ready_def)
  obtain r c' where run: "seal_cipher C h (fst m) (snd m) c = (r, c')" by force
  show ?case
  proof (cases r)
    case (Inl e)
    then have "c' = c" using run seal_cipher_Inl_unchanged inv gen by blast
    moreover have "channel_ready (length ms) c" using Cons.prems by (simp add: channel_ready_def)
    ultimately show ?thesis using Cons.IH [of c] run Inl by simp
  next
    case (Inr x)
    note next_state = seal_cipher_Inr [OF run [unfolded Inr] inv]
    have ready: "channel_ready (length ms) c'"
      unfolding next_state(1) [OF gen] using Cons.prems next_state(2)
      by (intro commit_spec_ready [OF assms(1)]) simp_all
    have less: "position c < position c'"
      unfolding next_state(1) [OF gen] by (rule commit_spec_position [OF inv gen])
    have "distinct (seal_positions C h ms c')"
      "\<forall>(g, n) \<in> set (seal_positions C h ms c'). position c' \<le> unat g * 2 ^ 18 + unat n"
      using Cons.IH [OF ready] by blast+
    then show ?thesis
      using less run Inr by (fastforce simp: position_def)
  qed
qed simp

section \<open>Opening accepts only authentic, fresh records\<close>

lemma open_cipher_Inr:
  assumes run: "open_cipher C h r c = (Inr d, c')" and auth: "aead_authentic C"
    and inv: "cipher_inv c" and gen: "cs_generation c \<noteq> - 1"
  obtains p x aad where "r = to_be_bytes (cs_nonce c) @ x" "record_aad h (length r) (cs_nonce c) = Inr aad"
    "aead_encrypt C (cs_key c) (cs_nonce c) aad p = Inr x" "parse_transport_plaintext p = Inr d"
    "c' = commit_spec C (length p) h c" "length p \<le> max_plaintext" "8 + TAG_LEN \<le> length r"
    "length r \<le> max_record_len"
proof -
  have len: "8 + TAG_LEN \<le> length r" "length r \<le> max_record_len"
    and seq: "from_be_bytes (take 8 r) = cs_nonce c"
    using run by (auto simp: open_cipher_def Let_def split: if_splits)
  obtain aad p where aad: "record_aad h (length r) (cs_nonce c) = Inr aad"
    and dec: "aead_decrypt C (cs_key c) (cs_nonce c) aad (drop 8 r) = Inr p"
    and parse: "parse_transport_plaintext p = Inr d" and com: "commit C (length p) h c = (Inr (), c')"
    using run len seq by (auto simp: open_cipher_def Let_def split: if_splits sum.splits prod.splits)
  have "length (cs_key c) = 32" using inv by (simp add: cipher_inv_def)
  then have "c_decrypt C (cs_key c) (aead_nonce (cs_nonce c)) aad (drop 8 r) = Some p"
    using dec by (auto simp: aead_decrypt_def ok_or_def split: if_splits option.splits)
  then have enc: "c_encrypt C (cs_key c) (aead_nonce (cs_nonce c)) aad p = Some (drop 8 r)"
    and plen: "length (drop 8 r) = length p + 16"
    using auth unfolding aead_authentic_def by blast+
  have small: "length p \<le> max_plaintext" using plen len by (simp add: max_record_len_eq TAG_LEN_def)
  have "take 8 r = to_be_bytes (cs_nonce c)"
    using seq be64.enc_dec [of "take 8 r"] len by (simp add: TAG_LEN_def)
  then have r: "r = to_be_bytes (cs_nonce c) @ drop 8 r" by (metis append_take_drop_id)
  show ?thesis
    using that [OF r aad _ parse _ small len] enc com commit_ok [OF inv small gen, of C h]
      \<open>length (cs_key c) = 32\<close> by (simp add: aead_encrypt_def)
qed

lemma commit_spec_nonce_changes:
  assumes "cipher_inv c" "n \<le> max_plaintext"
  shows "cs_nonce (commit_spec C n h c) \<noteq> cs_nonce c"
proof (cases "2 ^ 18 \<le> unat (cs_nonce c) + 1 \<or> 2 ^ 28 \<le> unat (cs_bytes c) + n")
  case True
  then have "unat (cs_nonce c) \<noteq> 0"
    using assms by (cases "unat (cs_nonce c)") (auto simp: cipher_inv_def max_plaintext_def)
  then have "cs_nonce c \<noteq> 0" by auto
  then show ?thesis using True by (auto simp: commit_spec_def)
qed (simp add: commit_spec_def Let_def)

lemma stale_record_rejected:
  assumes "8 + TAG_LEN \<le> length r" "length r \<le> max_record_len" "from_be_bytes (take 8 r) \<noteq> cs_nonce c"
  shows "open_cipher C h r c = (Inl (invalid_data ''MST5 encrypted record sequence mismatch''), c)"
  using assms by (simp add: open_cipher_def Let_def)

section \<open>The wire\<close>

lemma session_frame_step:
  assumes laws: "aead_laws C" and hash: "hash_laws C" and sync: "in_sync w r"
    and ready: "channel_ready (Suc n) (s_seal w)" and len: "length p \<le> MAX_TRANSPORT_PAYLOAD"
  obtains wire w' r' where "\<And>out. session_write_frame C p out w = (Inr (), out @ wire, w')"
    "\<And>rest. session_read_frame C (wire @ rest) r = (Inr (Some p), rest, r')"
    "in_sync w' r'" "channel_ready n (s_seal w')"
proof -
  have ok: "sealable 0 p" using len by (simp add: sealable_def)
  have inv: "cipher_inv (s_seal w)" "cs_generation (s_seal w) \<noteq> - 1"
    using ready generation_not_max by (auto simp: channel_ready_def)
  define c' where "c' = commit_spec C (padded_len (5 + length p)) (s_hash w) (s_seal w)"
  obtain x where x: "seal_cipher C (s_hash w) 0 p (s_seal w) = (Inr x, c')"
    "open_cipher C (s_hash w) x (s_seal w) = (Inr (Application p), c')"
    "length x = 8 + padded_len (5 + length p) + TAG_LEN" "length x \<le> max_record_len"
    by (rule seal_open_cipher [OF laws inv(1) ok inv(2), of "s_hash w"])
      (simp add: c'_def record_of_def that)
  have lx: "unat (word_of_nat (length x) :: u32) = length x"
    using x(4) by (simp add: max_record_len_eq max_plaintext_def const_defs unat_of_nat take_bit_nat_eq_self)
  obtain pt where pt: "transport_plaintext 0 p = Inr pt" using transport_plaintext_ok [OF ok] by blast
  have r: "channel_ready n c'"
    unfolding c'_def using transport_plaintext_length [OF pt] ready
    by (intro commit_spec_ready [OF hash]) simp_all
  let ?wire = "to_be_bytes (word_of_nat (length x) :: u32) @ x"
  have "session_write_frame C p out w = (Inr (), out @ ?wire, w\<lparr>s_seal := c'\<rparr>)" for out
    by (simp add: session_write_frame_def seal_record_def x(1))
  moreover have "session_read_frame C (?wire @ rest) r = (Inr (Some p), rest, r\<lparr>s_open := c'\<rparr>)" for rest
    using sync x lx by (simp add: session_read_frame_def read_exact_def in_sync_def open_record_def Let_def)
  ultimately show ?thesis
    using that [of ?wire "w\<lparr>s_seal := c'\<rparr>" "r\<lparr>s_open := c'\<rparr>"] r sync by (simp add: in_sync_def)
qed

lemma session_write_frame_keeps:
  "session_write_frame C p out s = (r, out', s') \<Longrightarrow> s_open s' = s_open s \<and> s_hash s' = s_hash s"
  by (auto simp: session_write_frame_def seal_record_def split: prod.splits sum.splits)

lemma session_read_frame_keeps:
  "session_read_frame C input s = (r, rest, s') \<Longrightarrow> s_seal s' = s_seal s \<and> s_hash s' = s_hash s"
  by (auto simp: session_read_frame_def open_record_def Let_def
      split: prod.splits sum.splits if_splits transport_record.splits)

lemma session_frames_delivered:
  assumes "aead_laws C" "hash_laws C" "in_sync w r" "channel_ready (length ps) (s_seal w)"
    "list_all (\<lambda>p. length p \<le> MAX_TRANSPORT_PAYLOAD) ps"
  shows "\<exists>wire w' r'. (\<forall>out. write_frames C ps out w = (Inr (), out @ wire, w'))
    \<and> (\<forall>rest. read_frames C (length ps) (wire @ rest) r = (Inr (map Some ps), rest, r')) \<and> in_sync w' r'"
  using assms(3-)
proof (induction ps arbitrary: w r)
  case (Cons p ps)
  have pre: "channel_ready (Suc (length ps)) (s_seal w)" "length p \<le> MAX_TRANSPORT_PAYLOAD"
    using Cons.prems by auto
  obtain wire w' r' where step: "\<And>out. session_write_frame C p out w = (Inr (), out @ wire, w')"
    "\<And>rest. session_read_frame C (wire @ rest) r = (Inr (Some p), rest, r')"
    "in_sync w' r'" "channel_ready (length ps) (s_seal w')"
    by (rule session_frame_step [OF assms(1,2) Cons.prems(1) pre]) (rule that)
  moreover obtain wire2 w2 r2 where "\<forall>out. write_frames C ps out w' = (Inr (), out @ wire2, w2)"
    "\<forall>rest. read_frames C (length ps) (wire2 @ rest) r' = (Inr (map Some ps), rest, r2)" "in_sync w2 r2"
    using Cons.IH [OF step(3,4)] Cons.prems by auto
  ultimately show ?case
    by (intro exI [of _ "wire @ wire2"] exI [of _ w2] exI [of _ r2]) simp
qed auto

section \<open>Facts of the sample instance\<close>

lemma toy_laws: "aead_laws toy_crypto" "hash_laws toy_crypto" "aead_detached_law toy_crypto"
  "aead_authentic toy_crypto"
proof -
  have "c = take (length c - 16) c @ replicate 16 0 \<and> length c = length (take (length c - 16) c) + 16"
    if "16 \<le> length c" "drop (length c - 16) c = replicate 16 (0 :: u8)" for c
    using that append_take_drop_id [of "length c - 16" c] by (metis (no_types) length_append length_replicate)
  then show "aead_authentic toy_crypto"
    by (auto simp: aead_authentic_def toy_crypto_def split: if_splits)
qed (simp_all add: aead_laws_def hash_laws_def aead_detached_law_def toy_crypto_def)

lemma fresh_channel_ready: "n < 2 ^ 64 \<Longrightarrow> length k = 32 \<Longrightarrow> channel_ready n (cipher_new k)"
  by (simp add: channel_ready_def cipher_inv_def cipher_new_def)

section \<open>Properties\<close>

text \<open>
  C1: any sequence of application payloads (at most 20 MiB each) and close markers
  sealed on one end is opened on the other end in the same order and with the
  same contents, and both cipher states stay equal, across every rekey on the
  way.
\<close>

theorem record_delivery:
  assumes "aead_laws C" "hash_laws C" "channel_ready (length ms) c"
    "list_all (\<lambda>m. sealable (fst m) (snd m)) ms"
  shows "\<exists>rs c'. run_all (\<lambda>m. seal_cipher C h (fst m) (snd m)) ms c = (Inr rs, c')
    \<and> run_all (open_cipher C h) rs c = (Inr (map (\<lambda>m. record_of (fst m) (snd m)) ms), c')"
  using session_channel.delivery [of "(C, h)" ms c] assms by simp

theorem record_delivery_witness:
  "\<exists>rs c'. run_all (\<lambda>m. seal_cipher toy_crypto [] (fst m) (snd m)) [(0, [1, 2, 3]), (1, [])]
        (cipher_new (replicate 32 0)) = (Inr rs, c')
    \<and> run_all (open_cipher toy_crypto []) rs (cipher_new (replicate 32 0))
        = (Inr [Application [1, 2, 3], Close], c')"
  using record_delivery [OF toy_laws(1,2), of "[(0, [1, 2, 3]), (1, [])]" "cipher_new (replicate 32 0)" "[]"]
    fresh_channel_ready [of "Suc (Suc 0)" "replicate 32 0"]
  by (simp add: sealable_def const_defs record_of_def)



text \<open>
  Rekeying always happens before the hard limits: from a cipher state with
  its invariant, the limit check passes for every transport plaintext, the
  commit succeeds, and the invariant holds again, so "reconnect required" can
  only come from exhausting 2^64 key generations.
\<close>

theorem record_limits_unreachable:
  assumes "hash_laws C" "cipher_inv c" "n \<le> max_plaintext" "cs_generation c \<noteq> - 1"
  shows "check_limit c n = Inr () \<and> fst (commit C n h c) = Inr () \<and> cipher_inv (snd (commit C n h c))"
  using check_limit_ok [OF assms(2,3)] commit_ok [OF assms(2-4), of C h] commit_spec_inv [OF assms(1-3), of h]
  by simp

theorem record_limits_unreachable_witness:
  "let c = \<lparr>cs_key = replicate 32 0, cs_nonce = 262143, cs_bytes = 5, cs_generation = 0\<rparr> in
   cipher_inv c \<and> check_limit c 256 = Inr () \<and> cipher_inv (snd (commit toy_crypto 256 [] c))"
proof -
  let ?c = "\<lparr>cs_key = replicate 32 0, cs_nonce = 262143, cs_bytes = 5, cs_generation = 0\<rparr> :: cipher_state"
  have "cipher_inv ?c" "(256 :: nat) \<le> max_plaintext" "cs_generation ?c \<noteq> - 1"
    by (simp_all add: cipher_inv_def max_plaintext_def)
  then show ?thesis
    using record_limits_unreachable [OF toy_laws(2), of ?c 256 "[]"] by (simp add: Let_def)
qed

text \<open>
  C19: the connection writer's in-place routine produces exactly the record, the
  error and the cipher state of \<open>Session::seal_record\<close>.
\<close>

theorem seal_record_into_refines:
  assumes "aead_detached_law C"
  shows "seal_record C ct payload s =
    (case seal_record_into C (s_hash s) ct payload (s_seal s) of (r, c) \<Rightarrow> (r, s\<lparr>s_seal := c\<rparr>))"
  using seal_record_into_eq [OF assms] by (simp add: seal_record_def)

theorem seal_record_into_refines_witness:
  "let s = \<lparr>s_seal = cipher_new (replicate 32 0), s_open = cipher_new [], s_hash = [1]\<rparr> in
   seal_record toy_crypto 0 [7] s =
     (case seal_record_into toy_crypto [1] 0 [7] (cipher_new (replicate 32 0)) of (r, c) \<Rightarrow> (r, s\<lparr>s_seal := c\<rparr>))"
  using seal_record_into_refines [OF toy_laws(3), of 0 "[7]"
      "\<lparr>s_seal = cipher_new (replicate 32 0), s_open = cipher_new [], s_hash = [1]\<rparr>"]
  by (simp add: Let_def)

text \<open>
  A padded plaintext is a multiple of 128 and at least 256 bytes long, with
  less than 256 bytes of padding, and parsing it gives back the content type
  and the payload.
\<close>

theorem transport_padding:
  assumes "transport_plaintext ct payload = Inr p"
  shows "parse_transport_plaintext p = Inr (record_of ct payload) \<and> 128 dvd length p
    \<and> 256 \<le> length p \<and> length p < 5 + length payload + 256"
  using parse_transport_plaintext_ok [OF assms] transport_plaintext_length [OF assms]
    padded_len_bounds [of "5 + length payload"] by simp

theorem transport_padding_witness:
  "\<exists>p. transport_plaintext 0 [1, 2] = Inr p \<and> parse_transport_plaintext p = Inr (Application [1, 2])"
proof -
  obtain p where p: "transport_plaintext 0 [1, 2] = Inr p"
    using transport_plaintext_ok [of 0 "[1, 2]"] by (auto simp: sealable_def const_defs)
  show ?thesis using p transport_padding [OF p] by (simp add: record_of_def)
qed



text \<open>
  C18: frames written with \<open>Session::write_frame\<close> are read by \<open>Session::read_frame\<close>
  on the other end, one by one and in order, whatever bytes follow, and the two
  sessions stay in step.
\<close>

theorem wire_frame_delivery:
  assumes "aead_laws C" "hash_laws C" "in_sync w r" "channel_ready (length ps) (s_seal w)"
    "list_all (\<lambda>p. length p \<le> MAX_TRANSPORT_PAYLOAD) ps"
  shows "\<exists>wire w' r'. write_frames C ps [] w = (Inr (), wire, w')
    \<and> read_frames C (length ps) (wire @ rest) r = (Inr (map Some ps), rest, r') \<and> in_sync w' r'"
  using session_frames_delivered [OF assms] by (metis append_Nil)

theorem wire_frame_delivery_witness:
  "let s = \<lparr>s_seal = cipher_new (replicate 32 0), s_open = cipher_new (replicate 32 0), s_hash = []\<rparr> in
   \<exists>wire w' r'. write_frames toy_crypto [[1], [2, 3]] [] s = (Inr (), wire, w')
    \<and> read_frames toy_crypto 2 (wire @ [255]) s = (Inr [Some [1], Some [2, 3]], [255], r') \<and> in_sync w' r'"
proof -
  let ?s = "\<lparr>s_seal = cipher_new (replicate 32 0), s_open = cipher_new (replicate 32 0), s_hash = []\<rparr> :: session"
  have two: "length [[1], [2, 3 :: u8]] = 2" by simp
  have "in_sync ?s ?s" "channel_ready (length [[1], [2, 3 :: u8]]) (s_seal ?s)"
    "list_all (\<lambda>p. length p \<le> MAX_TRANSPORT_PAYLOAD) [[1], [2, 3 :: u8]]"
    using fresh_channel_ready [of 2 "replicate 32 0"] unfolding two
    by (simp_all add: in_sync_def const_defs)
  from wire_frame_delivery [OF toy_laws(1,2) this, of "[255]"] show ?thesis
    unfolding two Let_def by simp
qed

end
