(* ===== verification/Handshake.thy ===== *)
theory Handshake
  imports Prelude Record_Layer
begin

text \<open>
  The Noise NK client handshake of \<open>src/lib.rs\<close>: \<open>SymmetricState\<close>, its
  operations and \<open>client_handshake\<close>.  The TCP stream is the bytes the server
  sends; the bytes the client writes are part of the result.  The client's
  ephemeral secret is an argument (the code draws it from the system's random
  generator).
\<close>

section \<open>Model\<close>

definition CLIENT_MAGIC :: bytes where "CLIENT_MAGIC = as_bytes ''RCP5''"
definition SERVER_MAGIC :: bytes where "SERVER_MAGIC = as_bytes ''RSP5''"
definition HANDSHAKE_MESSAGE_LEN :: nat where [const_defs]: "HANDSHAKE_MESSAGE_LEN = 48"
definition PROTOCOL_NAME :: bytes where
  "PROTOCOL_NAME = as_bytes ''Noise_NK_25519_ChaChaPoly_SHA256''"
definition PROLOGUE :: bytes where
  "PROLOGUE = as_bytes ''MicroMsg Secure Transport v5'' @ [0] @ as_bytes ''RCP5'' @ [0] @ as_bytes ''RSP5''"

record symmetric_state =
  ss_chaining_key :: bytes
  ss_hash :: bytes
  ss_cipher_key :: "bytes option"
  ss_nonce :: u64

definition mix_hash :: "'a crypto_scheme \<Rightarrow> bytes \<Rightarrow> symmetric_state \<Rightarrow> symmetric_state" where
  "mix_hash C data s = s\<lparr>ss_hash := c_sha256 C (ss_hash s @ data)\<rparr>"

definition mix_key :: "'a crypto_scheme \<Rightarrow> bytes \<Rightarrow> symmetric_state \<Rightarrow> symmetric_state" where
  "mix_key C ikm s = (case hkdf C (ss_chaining_key s) ikm of (ck, key) \<Rightarrow>
     s\<lparr>ss_chaining_key := ck, ss_cipher_key := Some key, ss_nonce := 0\<rparr>)"

definition symmetric_new :: "'a crypto_scheme \<Rightarrow> bytes \<Rightarrow> symmetric_state" where
  "symmetric_new C server_static_public =
    mix_hash C server_static_public (mix_hash C PROLOGUE
      \<lparr>ss_chaining_key = PROTOCOL_NAME, ss_hash = PROTOCOL_NAME, ss_cipher_key = None, ss_nonce = 0\<rparr>)"

definition encrypt_and_hash ::
    "'a crypto_scheme \<Rightarrow> bytes \<Rightarrow> symmetric_state \<Rightarrow> (bytes \<times> symmetric_state) result" where
  "encrypt_and_hash C plaintext s = (case ss_cipher_key s of
      Some key \<Rightarrow>
        rbind (aead_encrypt C key (ss_nonce s) (ss_hash s) plaintext) (\<lambda>output.
        rbind (ok_or (checked_add (ss_nonce s) 1) (invalid_data ''MST5 handshake nonce exhausted'')) (\<lambda>n.
          Inr (output, mix_hash C output (s\<lparr>ss_nonce := n\<rparr>))))
    | None \<Rightarrow> Inr (plaintext, mix_hash C plaintext s))"

definition decrypt_and_hash ::
    "'a crypto_scheme \<Rightarrow> bytes \<Rightarrow> symmetric_state \<Rightarrow> (bytes \<times> symmetric_state) result" where
  "decrypt_and_hash C ciphertext s = (case ss_cipher_key s of
      Some key \<Rightarrow>
        rbind (aead_decrypt C key (ss_nonce s) (ss_hash s) ciphertext) (\<lambda>output.
        rbind (ok_or (checked_add (ss_nonce s) 1) (invalid_data ''MST5 handshake nonce exhausted'')) (\<lambda>n.
          Inr (output, mix_hash C ciphertext (s\<lparr>ss_nonce := n\<rparr>))))
    | None \<Rightarrow> Inr (ciphertext, mix_hash C ciphertext s))"

definition split_keys :: "'a crypto_scheme \<Rightarrow> symmetric_state \<Rightarrow> cipher_state \<times> cipher_state" where
  "split_keys C s = (case hkdf C (ss_chaining_key s) [] of (first, second) \<Rightarrow>
     (cipher_new first, cipher_new second))"

definition require_nonzero_shared :: "bytes \<Rightarrow> unit result" where
  "require_nonzero_shared shared =
    (if list_all (\<lambda>b. b = 0) shared then Inl (invalid_data ''invalid MST5 X25519 shared secret'')
     else Inr ())"

text \<open>The first half of \<open>client_handshake\<close>: up to the client hello.\<close>

definition client_hello ::
    "'a crypto_scheme \<Rightarrow> bytes \<Rightarrow> bytes \<Rightarrow> (bytes \<times> symmetric_state) result" where
  "client_hello C client_private pinned_public =
    (let client_public = c_public C client_private;
         state = mix_hash C client_public (symmetric_new C pinned_public);
         es = c_dh C client_private pinned_public in
     rbind (require_nonzero_shared es) (\<lambda>_.
     rbind (encrypt_and_hash C [] (mix_key C es state)) (\<lambda>(tag, state).
       if length tag \<noteq> TAG_LEN then Inl (invalid_data ''invalid MST5 client handshake tag length'')
       else Inr (CLIENT_MAGIC @ to_be_bytes (word_of_nat HANDSHAKE_MESSAGE_LEN :: u16)
         @ client_public @ tag, state))))"

text \<open>The second half: reading the server hello and splitting the keys.\<close>

definition client_finish ::
    "'a crypto_scheme \<Rightarrow> bytes \<Rightarrow> symmetric_state \<Rightarrow> bytes \<Rightarrow> (session \<times> bytes) result" where
  "client_finish C client_private state input =
    rbind (read_exact 6 input) (\<lambda>(header, input).
    if take 4 header \<noteq> SERVER_MAGIC
      \<or> unat (from_be_bytes (drop 4 header) :: u16) \<noteq> HANDSHAKE_MESSAGE_LEN
    then Inl (invalid_data ''invalid MST5 server hello'')
    else rbind (read_exact HANDSHAKE_MESSAGE_LEN input) (\<lambda>(server_message, input).
      let server_ephemeral = take 32 server_message;
          state = mix_hash C server_ephemeral state;
          ee = c_dh C client_private server_ephemeral in
      rbind (require_nonzero_shared ee) (\<lambda>_.
      rbind (decrypt_and_hash C (drop 32 server_message) (mix_key C ee state)) (\<lambda>(payload, state).
        if payload \<noteq> [] then Inl (invalid_data ''invalid MST5 server handshake payload'')
        else case split_keys C state of (client_to_server, server_to_client) \<Rightarrow>
          Inr (\<lparr>s_seal = client_to_server, s_open = server_to_client, s_hash = ss_hash state\<rparr>, input)))))"

definition client_handshake ::
    "'a crypto_scheme \<Rightarrow> bytes \<Rightarrow> bytes \<Rightarrow> bytes \<Rightarrow> (bytes \<times> session \<times> bytes) result" where
  "client_handshake C client_private pinned_public input =
    rbind (client_hello C client_private pinned_public) (\<lambda>(hello, state).
    rbind (client_finish C client_private state input) (\<lambda>(s, rest). Inr (hello, s, rest)))"

section \<open>Specification of the responder\<close>

text \<open>
  What the pattern named by \<open>PROTOCOL_NAME\<close> prescribes for the responder, given
  the client hello, its static and its ephemeral secret: mix the same
  transcript, use the mirrored Diffie-Hellman values, check the client's tag,
  answer with the ephemeral key and a tag, and split the keys.
\<close>

definition nk_respond ::
    "'a crypto_scheme \<Rightarrow> bytes \<Rightarrow> bytes \<Rightarrow> bytes \<Rightarrow> (bytes \<times> session) result" where
  "nk_respond C static_private ephemeral_private hello =
    (let client_public = take 32 (drop 6 hello);
         ephemeral = c_public C ephemeral_private;
         state = mix_hash C client_public (symmetric_new C (c_public C static_private)) in
     rbind (decrypt_and_hash C (drop 38 hello) (mix_key C (c_dh C static_private client_public) state))
       (\<lambda>(_, state).
     rbind (encrypt_and_hash C []
         (mix_key C (c_dh C ephemeral_private client_public) (mix_hash C ephemeral state))) (\<lambda>(tag, state).
       case split_keys C state of (client_to_server, server_to_client) \<Rightarrow>
       Inr (SERVER_MAGIC @ to_be_bytes (word_of_nat HANDSHAKE_MESSAGE_LEN :: u16) @ ephemeral @ tag,
         \<lparr>s_seal = server_to_client, s_open = client_to_server, s_hash = ss_hash state\<rparr>))))"

text \<open>X25519: public keys have 32 bytes and both sides compute the same shared secret.\<close>

definition dh_laws :: "'a crypto_scheme \<Rightarrow> bool" where
  "dh_laws C \<longleftrightarrow> (\<forall>a. length (c_public C a) = 32) \<and> (\<forall>a b. c_dh C a (c_public C b) = c_dh C b (c_public C a))"

section \<open>Lemmas\<close>

lemma mix_hash_fields [simp]:
  "ss_cipher_key (mix_hash C d s) = ss_cipher_key s" "ss_nonce (mix_hash C d s) = ss_nonce s"
  "ss_chaining_key (mix_hash C d s) = ss_chaining_key s"
  by (simp_all add: mix_hash_def)

lemma encrypt_decrypt_and_hash:
  assumes "aead_laws C" "ss_cipher_key s = Some key" "length key = 32" "ss_nonce s = 0" "length m < 2 ^ 32"
  obtains x where "encrypt_and_hash C m s = Inr (x, mix_hash C x (s\<lparr>ss_nonce := 1\<rparr>))"
    "decrypt_and_hash C x s = Inr (m, mix_hash C x (s\<lparr>ss_nonce := 1\<rparr>))" "length x = length m + 16"
proof -
  obtain x where "aead_encrypt C key 0 (ss_hash s) m = Inr x" "length x = length m + 16"
    "aead_decrypt C key 0 (ss_hash s) x = Inr m"
    by (rule aead_round_trip [OF assms(1,3,5)])
  then show ?thesis
    using assms(2,4) by (intro that [of x]) (simp_all add: encrypt_and_hash_def decrypt_and_hash_def checked_add_def)
qed

lemma mix_key_fields:
  "hash_laws C \<Longrightarrow> \<exists>key. ss_cipher_key (mix_key C ikm s) = Some key \<and> length key = 32"
  "ss_nonce (mix_key C ikm s) = 0"
  by (auto simp: mix_key_def hkdf_def Let_def hash_laws_def)

lemma magic_lengths: "length CLIENT_MAGIC = 4" "length SERVER_MAGIC = 4"
  by (simp_all add: CLIENT_MAGIC_def SERVER_MAGIC_def)

lemma handshake_len_u16: "unat (word_of_nat HANDSHAKE_MESSAGE_LEN :: u16) = HANDSHAKE_MESSAGE_LEN"
  by (simp add: const_defs)

lemma encrypt_hash_mix_key:
  assumes "aead_laws C" "hash_laws C"
  obtains x s' where "encrypt_and_hash C [] (mix_key C ikm s) = Inr (x, s')"
    "decrypt_and_hash C x (mix_key C ikm s) = Inr ([], s')" "length x = 16"
proof -
  obtain key where key: "ss_cipher_key (mix_key C ikm s) = Some key" "length key = 32"
    using mix_key_fields(1) [OF assms(2)] by blast
  obtain x where "encrypt_and_hash C [] (mix_key C ikm s) = Inr (x, mix_hash C x (mix_key C ikm s\<lparr>ss_nonce := 1\<rparr>))"
    "decrypt_and_hash C x (mix_key C ikm s) = Inr ([], mix_hash C x (mix_key C ikm s\<lparr>ss_nonce := 1\<rparr>))"
    "length x = length ([] :: bytes) + 16"
    by (rule encrypt_decrypt_and_hash [OF assms(1) key mix_key_fields(2), where m = "[]"]) simp_all
  then show ?thesis by (intro that) simp_all
qed

lemma client_finish_reply:
  assumes "length e = 32" "length tag = 16" "require_nonzero_shared (c_dh C c e) = Inr ()"
    "decrypt_and_hash C tag (mix_key C (c_dh C c e) (mix_hash C e st)) = Inr ([], st')"
  shows "client_finish C c st
      ((SERVER_MAGIC @ to_be_bytes (word_of_nat HANDSHAKE_MESSAGE_LEN :: u16) @ e @ tag) @ rest)
    = Inr (\<lparr>s_seal = fst (split_keys C st'), s_open = snd (split_keys C st'), s_hash = ss_hash st'\<rparr>, rest)"
  using assms handshake_len_u16
  by (simp add: client_finish_def read_exact_def magic_lengths Let_def split: prod.split)
    (simp add: HANDSHAKE_MESSAGE_LEN_def split: prod.split)

lemma handshake_with_responder:
  assumes laws: "aead_laws C" "hash_laws C" "dh_laws C"
    and nonzero: "\<not> list_all (\<lambda>b. b = 0) (c_dh C c (c_public C sk))"
      "\<not> list_all (\<lambda>b. b = 0) (c_dh C c (c_public C ek))"
  obtains hello reply peer s where "\<And>rest. client_handshake C c (c_public C sk) (reply @ rest) = Inr (hello, s, rest)"
    "nk_respond C sk ek hello = Inr (reply, peer)" "in_sync s peer" "in_sync peer s"
    "s_seal s = cipher_new (cs_key (s_seal s))" "s_open s = cipher_new (cs_key (s_open s))"
    "length hello = 54" "length reply = 54"
proof -
  let ?cp = "c_public C c" and ?ep = "c_public C ek"
  let ?st0 = "mix_hash C ?cp (symmetric_new C (c_public C sk))"
  have lens: "length ?cp = 32" "length ?ep = 32" using laws(3) by (simp_all add: dh_laws_def)
  have dh: "c_dh C sk ?cp = c_dh C c (c_public C sk)" "c_dh C ek ?cp = c_dh C c ?ep"
    using laws(3) by (simp_all add: dh_laws_def)
  obtain tag1 st1 where t1: "encrypt_and_hash C [] (mix_key C (c_dh C c (c_public C sk)) ?st0) = Inr (tag1, st1)"
    "decrypt_and_hash C tag1 (mix_key C (c_dh C c (c_public C sk)) ?st0) = Inr ([], st1)" "length tag1 = 16"
    by (rule encrypt_hash_mix_key [OF laws(1,2)])
  obtain tag2 st2 where t2: "encrypt_and_hash C [] (mix_key C (c_dh C c ?ep) (mix_hash C ?ep st1)) = Inr (tag2, st2)"
    "decrypt_and_hash C tag2 (mix_key C (c_dh C c ?ep) (mix_hash C ?ep st1)) = Inr ([], st2)" "length tag2 = 16"
    by (rule encrypt_hash_mix_key [OF laws(1,2)])
  let ?len = "to_be_bytes (word_of_nat HANDSHAKE_MESSAGE_LEN :: u16)"
  let ?hello = "CLIENT_MAGIC @ ?len @ ?cp @ tag1" and ?reply = "SERVER_MAGIC @ ?len @ ?ep @ tag2"
  have hello: "client_hello C c (c_public C sk) = Inr (?hello, st1)"
    using nonzero(1) t1 by (simp add: client_hello_def Let_def require_nonzero_shared_def TAG_LEN_def)
  have nz: "require_nonzero_shared (c_dh C c ?ep) = Inr ()"
    using nonzero(2) by (simp add: require_nonzero_shared_def)
  note fin = client_finish_reply [OF lens(2) t2(3) nz t2(2)]
  have hello_parts: "take 32 (drop 6 ?hello) = ?cp" "drop 38 ?hello = tag1"
    using lens by (simp_all add: magic_lengths)
  have resp: "nk_respond C sk ek ?hello = Inr (?reply,
      \<lparr>s_seal = snd (split_keys C st2), s_open = fst (split_keys C st2), s_hash = ss_hash st2\<rparr>)"
    unfolding nk_respond_def Let_def hello_parts dh t1(2) rbind_Inr prod.case t2(1)
    by (simp split: prod.split)
  have fresh: "fst (split_keys C st2) = cipher_new (cs_key (fst (split_keys C st2)))"
    "snd (split_keys C st2) = cipher_new (cs_key (snd (split_keys C st2)))"
    by (simp_all add: split_keys_def cipher_new_def split: prod.split)
  show ?thesis
    using that [of ?reply ?hello
        "\<lparr>s_seal = fst (split_keys C st2), s_open = snd (split_keys C st2), s_hash = ss_hash st2\<rparr>"
        "\<lparr>s_seal = snd (split_keys C st2), s_open = fst (split_keys C st2), s_hash = ss_hash st2\<rparr>"]
      hello fin resp fresh lens t1(3) t2(3)
    by (simp add: client_handshake_def in_sync_def magic_lengths)
qed

lemma aead_decrypt_InrD:
  assumes "aead_decrypt C k n a x = Inr m" "aead_authentic C"
  shows "aead_encrypt C k n a m = Inr x" "length x = length m + 16"
proof -
  have k: "length k = 32" and "c_decrypt C k (aead_nonce n) a x = Some m"
    using assms(1) by (auto simp: aead_decrypt_def ok_or_def split: if_splits option.splits)
  then have "c_encrypt C k (aead_nonce n) a m = Some x" and len: "length x = length m + 16"
    using assms(2) unfolding aead_authentic_def by blast+
  then show "aead_encrypt C k n a m = Inr x" "length x = length m + 16"
    using k by (simp_all add: aead_encrypt_def)
qed

lemma decrypt_and_hash_authentic:
  assumes "decrypt_and_hash C x s = Inr (m, s')" "aead_authentic C" "ss_cipher_key s = Some key"
  shows "encrypt_and_hash C m s = Inr (x, s')"
  using assms aead_decrypt_InrD
  by (auto simp: decrypt_and_hash_def encrypt_and_hash_def result_simps)

lemma client_finish_InrD:
  assumes "client_finish C c st input = Inr (s, rest)"
  obtains e tag st' where
    "input = SERVER_MAGIC @ to_be_bytes (word_of_nat HANDSHAKE_MESSAGE_LEN :: u16) @ e @ tag @ rest"
    "length e = 32" "length tag = 16"
    "decrypt_and_hash C tag (mix_key C (c_dh C c e) (mix_hash C e st)) = Inr ([], st')"
    "s = \<lparr>s_seal = fst (split_keys C st'), s_open = snd (split_keys C st'), s_hash = ss_hash st'\<rparr>"
    "\<not> list_all (\<lambda>b. b = 0) (c_dh C c e)"
proof -
  define msg where "msg = take 48 (drop 6 input)"
  obtain st' where r: "6 \<le> length input" "take 4 (take 6 input) = SERVER_MAGIC"
      "unat (from_be_bytes (drop 4 (take 6 input)) :: u16) = 48" "48 \<le> length (drop 6 input)"
      "\<not> list_all (\<lambda>b. b = 0) (c_dh C c (take 32 msg))"
      "decrypt_and_hash C (drop 32 msg) (mix_key C (c_dh C c (take 32 msg)) (mix_hash C (take 32 msg) st)) = Inr ([], st')"
      "s = \<lparr>s_seal = fst (split_keys C st'), s_open = snd (split_keys C st'), s_hash = ss_hash st'\<rparr>"
      "rest = drop 48 (drop 6 input)"
    using assms unfolding client_finish_def read_exact_def require_nonzero_shared_def msg_def Let_def
      HANDSHAKE_MESSAGE_LEN_def
    by (auto simp: result_simps case_prod_unfold split: if_splits)
  have two: "to_be_bytes (from_be_bytes (drop 4 (take 6 input)) :: u16) = drop 4 (take 6 input)"
    using r(1) by (intro be16.enc_dec) simp
  have "(from_be_bytes (drop 4 (take 6 input)) :: u16) = word_of_nat HANDSHAKE_MESSAGE_LEN"
    using r(3) by (simp add: word_unat_eq_iff const_defs)
  then have "take 6 input = SERVER_MAGIC @ to_be_bytes (word_of_nat HANDSHAKE_MESSAGE_LEN :: u16)"
    using r(2) two append_take_drop_id [of 4 "take 6 input"] by simp
  moreover have "drop 6 input = take 32 msg @ drop 32 msg @ rest"
    using r(8) append_take_drop_id [of 48 "drop 6 input"] append_take_drop_id [of 32 msg]
    unfolding msg_def [symmetric] by (metis append.assoc)
  ultimately have "input = SERVER_MAGIC @ to_be_bytes (word_of_nat HANDSHAKE_MESSAGE_LEN :: u16)
      @ take 32 msg @ drop 32 msg @ rest"
    by (metis append_take_drop_id append.assoc)
  moreover have "length (take 32 msg) = 32" "length (drop 32 msg) = 16" using r(4) by (simp_all add: msg_def)
  ultimately show ?thesis using that r(5-7) by blast
qed

lemma split_keys_lengths:
  "hash_laws C \<Longrightarrow> length (cs_key (fst (split_keys C st))) = 32 \<and> length (cs_key (snd (split_keys C st))) = 32"
  by (auto simp: split_keys_def hkdf_def Let_def hash_laws_def cipher_new_def split: prod.split)

lemma client_handshake_keys:
  assumes "client_handshake C c pinned input = Inr (hello, s, rest)" "hash_laws C"
  shows "length (cs_key (s_seal s)) = 32" "length (cs_key (s_open s)) = 32"
proof -
  obtain st where "client_finish C c st input = Inr (s, rest)"
    using assms(1) by (auto simp: client_handshake_def result_simps)
  then obtain st' where "s = \<lparr>s_seal = fst (split_keys C st'), s_open = snd (split_keys C st'), s_hash = ss_hash st'\<rparr>"
    by (elim client_finish_InrD)
  then show "length (cs_key (s_seal s)) = 32" "length (cs_key (s_open s)) = 32"
    using split_keys_lengths [OF assms(2)] by simp_all
qed

lemma map2_add_commute: "map2 (+) a b = map2 (+) b (a :: bytes)"
proof (induction a arbitrary: b)
  case (Cons x a)
  then show ?case by (cases b) (simp_all add: add.commute)
qed simp

lemma toy_dh_laws: "dh_laws toy_crypto"
  unfolding dh_laws_def toy_crypto_def by (auto simp: map2_add_commute min_def)

section \<open>Properties\<close>

text \<open>
  C7: with a responder that follows the Noise NK pattern for the pinned static
  key, the handshake succeeds, consumes exactly the responder's 54 bytes, and
  both sides hold the same handshake hash and mirrored, fresh cipher states.
\<close>

theorem handshake_agreement:
  assumes "aead_laws C" "hash_laws C" "dh_laws C"
    "\<not> list_all (\<lambda>b. b = 0) (c_dh C c (c_public C sk))" "\<not> list_all (\<lambda>b. b = 0) (c_dh C c (c_public C ek))"
  shows "\<exists>hello reply peer s. nk_respond C sk ek hello = Inr (reply, peer)
    \<and> client_handshake C c (c_public C sk) (reply @ rest) = Inr (hello, s, rest)
    \<and> in_sync s peer \<and> in_sync peer s \<and> length hello = 54 \<and> length reply = 54
    \<and> s_seal s = cipher_new (cs_key (s_seal s)) \<and> s_open s = cipher_new (cs_key (s_open s))"
proof (rule handshake_with_responder [OF assms])
  fix reply hello s peer
  assume "\<And>rest. client_handshake C c (c_public C sk) (reply @ rest) = Inr (hello, s, rest)"
    "nk_respond C sk ek hello = Inr (reply, peer)" "in_sync s peer" "in_sync peer s"
    "s_seal s = cipher_new (cs_key (s_seal s))" "s_open s = cipher_new (cs_key (s_open s))"
    "length hello = 54" "length reply = 54"
  then show ?thesis by blast
qed

theorem handshake_agreement_witness:
  "\<exists>hello reply peer s. nk_respond toy_crypto [2] [3] hello = Inr (reply, peer)
    \<and> client_handshake toy_crypto [1] (c_public toy_crypto [2]) (reply @ [9]) = Inr (hello, s, [9])
    \<and> in_sync s peer"
proof -
  have "\<not> list_all (\<lambda>b. b = 0) (c_dh toy_crypto [1] (c_public toy_crypto [2]))"
    "\<not> list_all (\<lambda>b. b = 0) (c_dh toy_crypto [1] (c_public toy_crypto [3]))"
    by (simp_all add: toy_crypto_def)
  from handshake_agreement [OF toy_laws(1,2) toy_dh_laws this, of "[9]"] show ?thesis by blast
qed

text \<open>
  C20: the client only accepts a server hello whose tag is the encryption of the
  empty string under the key that the pinned static key, the server's ephemeral
  key and the whole transcript give, so a peer without the static private key
  cannot complete the handshake; and the session keys are the split of exactly
  that state.
\<close>

theorem handshake_authentic:
  assumes "client_handshake C c pinned input = Inr (hello, s, rest)" "aead_authentic C"
  shows "\<exists>e tag st1 st2. client_hello C c pinned = Inr (hello, st1)
    \<and> input = SERVER_MAGIC @ to_be_bytes (word_of_nat HANDSHAKE_MESSAGE_LEN :: u16) @ e @ tag @ rest
    \<and> encrypt_and_hash C [] (mix_key C (c_dh C c e) (mix_hash C e st1)) = Inr (tag, st2)
    \<and> (s_seal s, s_open s) = split_keys C st2 \<and> s_hash s = ss_hash st2"
proof -
  obtain st1 where h: "client_hello C c pinned = Inr (hello, st1)"
    and f: "client_finish C c st1 input = Inr (s, rest)"
    using assms(1) by (auto simp: client_handshake_def result_simps)
  obtain e tag st2 where e: "input = SERVER_MAGIC @ to_be_bytes (word_of_nat HANDSHAKE_MESSAGE_LEN :: u16) @ e @ tag @ rest"
    "decrypt_and_hash C tag (mix_key C (c_dh C c e) (mix_hash C e st1)) = Inr ([], st2)"
    "s = \<lparr>s_seal = fst (split_keys C st2), s_open = snd (split_keys C st2), s_hash = ss_hash st2\<rparr>"
    by (rule client_finish_InrD [OF f])
  have "\<exists>key. ss_cipher_key (mix_key C (c_dh C c e) (mix_hash C e st1)) = Some key"
    by (simp add: mix_key_def split: prod.split)
  then have "encrypt_and_hash C [] (mix_key C (c_dh C c e) (mix_hash C e st1)) = Inr (tag, st2)"
    using decrypt_and_hash_authentic [OF e(2) assms(2)] by blast
  with h e(1,3) show ?thesis by (auto simp: prod_eq_iff)
qed

theorem handshake_authentic_witness:
  "\<exists>input hello s. client_handshake toy_crypto [1] (c_public toy_crypto [2]) input = Inr (hello, s, [])
    \<and> (\<exists>e tag. input = SERVER_MAGIC @ to_be_bytes (word_of_nat HANDSHAKE_MESSAGE_LEN :: u16) @ e @ tag @ [])"
proof -
  have nz: "\<not> list_all (\<lambda>b. b = 0) (c_dh toy_crypto [1] (c_public toy_crypto [2]))"
    "\<not> list_all (\<lambda>b. b = 0) (c_dh toy_crypto [1] (c_public toy_crypto [3]))"
    by (simp_all add: toy_crypto_def)
  show ?thesis
  proof (rule handshake_with_responder [OF toy_laws(1,2) toy_dh_laws nz])
    fix hello reply s
    assume "\<And>rest. client_handshake toy_crypto [1] (c_public toy_crypto [2]) (reply @ rest) = Inr (hello, s, rest)"
    then have run: "client_handshake toy_crypto [1] (c_public toy_crypto [2]) (reply @ []) = Inr (hello, s, [])" .
    from handshake_authentic [OF run toy_laws(4)] run show ?thesis by blast
  qed
qed

end
