(* ===== verification/Text.thy ===== *)
theory Text
  imports Prelude
begin

unbundle bit_operations_syntax

text \<open>
  Text encodings: \<open>decode_base64\<close>, \<open>percent_encode\<close> and \<open>QueryBuilder\<close> of
  \<open>src/lib.rs\<close>, \<open>base64url_no_pad\<close> of \<open>src/m5oh.rs\<close>, the key check
  \<open>decoded_base64_len\<close> of \<open>build.rs\<close>, and the standard library's string and
  number conversions they rely on.
\<close>

section \<open>ASCII classes and numbers\<close>

definition byte_of :: "char \<Rightarrow> byte" where
  "byte_of c = word_of_nat (of_char c)"

definition is_ascii_whitespace :: "byte \<Rightarrow> bool" where
  "is_ascii_whitespace b = (b = 0x20 \<or> b = 0x09 \<or> b = 0x0a \<or> b = 0x0c \<or> b = 0x0d)"

definition is_ascii_uppercase :: "byte \<Rightarrow> bool" where
  "is_ascii_uppercase b = (0x41 \<le> b \<and> b \<le> 0x5a)"

definition is_ascii_lowercase :: "byte \<Rightarrow> bool" where
  "is_ascii_lowercase b = (0x61 \<le> b \<and> b \<le> 0x7a)"

definition is_ascii_digit :: "byte \<Rightarrow> bool" where
  "is_ascii_digit b = (0x30 \<le> b \<and> b \<le> 0x39)"

definition is_ascii_alphanumeric :: "byte \<Rightarrow> bool" where
  "is_ascii_alphanumeric b = (is_ascii_uppercase b \<or> is_ascii_lowercase b \<or> is_ascii_digit b)"

text \<open>\<open>u64::to_string\<close> and \<open>i64::to_string\<close>.\<close>

fun decimal :: "nat \<Rightarrow> string" where
  "decimal n = (if n < 10 then [char_of (48 + n)] else decimal (n div 10) @ [char_of (48 + n mod 10)])"

declare decimal.simps [simp del]

definition u64_to_string :: "u64 \<Rightarrow> string" where
  "u64_to_string v = decimal (unat v)"

definition i64_to_string :: "i64 \<Rightarrow> string" where
  "i64_to_string v = (if sint v < 0 then CHR ''-'' # decimal (nat (- sint v)) else decimal (nat (sint v)))"

section \<open>Base64\<close>

definition ALPHABET :: bytes where
  "ALPHABET = as_bytes ''ABCDEFGHIJKLMNOPQRSTUVWXYZabcdefghijklmnopqrstuvwxyz0123456789-_''"

definition sextet0 :: "byte \<Rightarrow> byte" where "sextet0 first = drop_bit 2 first"
definition sextet1 :: "byte \<Rightarrow> byte \<Rightarrow> byte" where
  "sextet1 first second = push_bit 4 (first AND 0x03) OR drop_bit 4 second"
definition sextet2 :: "byte \<Rightarrow> byte \<Rightarrow> byte" where
  "sextet2 second third = push_bit 2 (second AND 0x0f) OR drop_bit 6 third"
definition sextet3 :: "byte \<Rightarrow> byte" where "sextet3 third = third AND 0x3f"

fun base64url_chunks :: "bytes \<Rightarrow> bytes" where
  "base64url_chunks [] = []"
| "base64url_chunks [first] = [ALPHABET ! unat (sextet0 first), ALPHABET ! unat (sextet1 first 0)]"
| "base64url_chunks [first, second] =
     [ALPHABET ! unat (sextet0 first), ALPHABET ! unat (sextet1 first second),
      ALPHABET ! unat (sextet2 second 0)]"
| "base64url_chunks (first # second # third # rest) =
     [ALPHABET ! unat (sextet0 first), ALPHABET ! unat (sextet1 first second),
      ALPHABET ! unat (sextet2 second third), ALPHABET ! unat (sextet3 third)] @ base64url_chunks rest"

definition base64url_no_pad :: "bytes \<Rightarrow> string" where
  "base64url_no_pad input = string_of_bytes (base64url_chunks input)"

definition base64_value :: "byte \<Rightarrow> byte result" where
  "base64_value b =
    (if is_ascii_uppercase b then Inr (b - 0x41)
     else if is_ascii_lowercase b then Inr (b - 0x61 + 26)
     else if is_ascii_digit b then Inr (b - 0x30 + 52)
     else if b = 0x2b \<or> b = 0x2d then Inr 62
     else if b = 0x2f \<or> b = 0x5f then Inr 63
     else Inl (invalid_input ''invalid base64 character''))"

fun base64_decode_chunks :: "bytes \<Rightarrow> bytes result" where
  "base64_decode_chunks (c0 # c1 # c2 # c3 # rest) =
    rbind (base64_value c0) (\<lambda>a.
    rbind (base64_value c1) (\<lambda>b.
    let c_pad = (c2 = 0x3d); d_pad = (c3 = 0x3d) in
    if c_pad \<and> \<not> d_pad then Inl (invalid_input ''invalid base64 padding'')
    else rbind (if c_pad then Inr 0 else base64_value c2) (\<lambda>c.
    rbind (if d_pad then Inr 0 else base64_value c3) (\<lambda>d.
    rbind (base64_decode_chunks rest) (\<lambda>out.
      Inr ([push_bit 2 a OR drop_bit 4 b]
        @ (if c_pad then [] else [push_bit 4 b OR drop_bit 2 c])
        @ (if d_pad then [] else [push_bit 6 c OR d]) @ out))))))"
| "base64_decode_chunks _ = Inr []"

definition pad4 :: "bytes \<Rightarrow> bytes" where
  "pad4 clean = clean @ replicate ((4 - length clean mod 4) mod 4) 0x3d"

definition decode_base64 :: "string \<Rightarrow> bytes result" where
  "decode_base64 input =
    (let clean = filter (\<lambda>b. \<not> is_ascii_whitespace b) (as_bytes input) in
     if clean = [] then Inl (invalid_input ''empty base64 value'')
     else if length clean mod 4 = 1 then Inl (invalid_input ''invalid base64 length'')
     else base64_decode_chunks (pad4 clean))"

text \<open>The build script's check of the pinned key.\<close>

definition is_base64 :: "byte \<Rightarrow> bool" where
  "is_base64 b = (is_ascii_alphanumeric b \<or> b = 0x2b \<or> b = 0x2f \<or> b = 0x2d \<or> b = 0x5f)"

fun decoded_len_chunks :: "bytes \<Rightarrow> nat option" where
  "decoded_len_chunks (c0 # c1 # c2 # c3 # rest) =
    (if \<not> is_base64 c0 \<or> \<not> is_base64 c1 then None
     else if c2 = 0x3d \<and> c3 \<noteq> 0x3d \<or> c2 \<noteq> 0x3d \<and> \<not> is_base64 c2 \<or> c3 \<noteq> 0x3d \<and> \<not> is_base64 c3
       \<or> length rest \<ge> 4 \<and> (c2 = 0x3d \<or> c3 = 0x3d) then None
     else map_option (\<lambda>n. 1 + (if c2 = 0x3d then 0 else 1) + (if c3 = 0x3d then 0 else 1) + n)
       (decoded_len_chunks rest))"
| "decoded_len_chunks _ = Some 0"

definition decoded_base64_len :: "string \<Rightarrow> nat option" where
  "decoded_base64_len v =
    (let bs = filter (\<lambda>b. \<not> is_ascii_whitespace b) (as_bytes v) in
     if bs = [] \<or> length bs mod 4 = 1 then None else decoded_len_chunks (pad4 bs))"

section \<open>Percent encoding and query strings\<close>

definition HEX :: bytes where
  "HEX = as_bytes ''0123456789ABCDEF''"

definition unreserved :: "byte \<Rightarrow> bool" where
  "unreserved b = (is_ascii_alphanumeric b \<or> b = 0x2d \<or> b = 0x2e \<or> b = 0x5f \<or> b = 0x7e)"

definition percent_byte :: "byte \<Rightarrow> bytes" where
  "percent_byte b = (if unreserved b then [b]
     else [0x25, HEX ! unat (drop_bit 4 b), HEX ! unat (b AND 0x0f)])"

definition percent_encode :: "string \<Rightarrow> string" where
  "percent_encode v = string_of_bytes (concat (map percent_byte (as_bytes v)))"

type_synonym query_builder = string

definition query_push :: "string \<Rightarrow> string \<Rightarrow> query_builder \<Rightarrow> query_builder" where
  "query_push key v q = q @ (if q = [] then [] else ''&'') @ percent_encode key @ ''='' @ percent_encode v"

definition query_push_i64 :: "string \<Rightarrow> i64 \<Rightarrow> query_builder \<Rightarrow> query_builder" where
  "query_push_i64 key v = query_push key (i64_to_string v)"

definition query_push_u64 :: "string \<Rightarrow> u64 \<Rightarrow> query_builder \<Rightarrow> query_builder" where
  "query_push_u64 key v = query_push key (u64_to_string v)"

definition media_hex :: "bytes \<Rightarrow> string" where
  "media_hex bs = string_of_bytes (concat (map (\<lambda>b.
     [as_bytes ''0123456789abcdef'' ! unat (drop_bit 4 b), as_bytes ''0123456789abcdef'' ! unat (b AND 0x0f)]) bs))"

section \<open>Specification: reading a query string back\<close>

fun hex_value :: "byte \<Rightarrow> nat" where
  "hex_value b = (if is_ascii_digit b then unat b - 48 else unat b - 55)"

fun percent_decode :: "bytes \<Rightarrow> bytes" where
  "percent_decode [] = []"
| "percent_decode (b # bs) = (if b = 0x25 then (case bs of
       h # l # rest \<Rightarrow> word_of_nat (16 * hex_value h + hex_value l) # percent_decode rest
     | _ \<Rightarrow> []) else b # percent_decode bs)"

fun split_on :: "'a \<Rightarrow> 'a list \<Rightarrow> 'a list list" where
  "split_on x [] = [[]]"
| "split_on x (y # ys) = (if x = y then [] # split_on x ys
     else (case split_on x ys of z # zs \<Rightarrow> (y # z) # zs | [] \<Rightarrow> [[y]]))"

definition decode_pair :: "bytes \<Rightarrow> string \<times> string" where
  "decode_pair p = (case split_on 0x3d p of
      k # v # _ \<Rightarrow> (string_of_bytes (percent_decode k), string_of_bytes (percent_decode v))
    | _ \<Rightarrow> ([], []))"

definition parse_query :: "string \<Rightarrow> (string \<times> string) list" where
  "parse_query q = (if q = [] then [] else map decode_pair (split_on 0x26 (as_bytes q)))"

definition alpha_ok :: "nat \<Rightarrow> bool" where
  "alpha_ok i = (base64_value (ALPHABET ! i) = Inr (word_of_nat i) \<and> ALPHABET ! i \<noteq> 0x3d
     \<and> \<not> is_ascii_whitespace (ALPHABET ! i))"

definition query_of :: "(string \<times> string) list \<Rightarrow> string" where
  "query_of pairs = foldl (\<lambda>q (k, v). query_push k v q) [] pairs"

lemmas ascii_defs = is_ascii_uppercase_def is_ascii_lowercase_def is_ascii_digit_def
  is_ascii_alphanumeric_def is_ascii_whitespace_def

section \<open>Base64 lemmas\<close>

lemma byte_eqI: "(\<And>n. n \<in> {0, 1, 2, 3, 4, 5, 6, 7} \<Longrightarrow> bit a n = bit b n) \<Longrightarrow> a = (b :: byte)"
proof (rule bit_eqI)
  fix n
  assume h: "\<And>n. n \<in> {0, 1, 2, 3, 4, 5, 6, 7} \<Longrightarrow> bit a n = bit b n" and "possible_bit TYPE(byte) n"
  then have "n < 8" by simp
  then have "n \<in> {0, 1, 2, 3, 4, 5, 6, 7}" by auto
  then show "bit a n = bit b n" by (rule h)
qed

lemma masks: "(3 :: byte) = mask 2" "(15 :: byte) = mask 4" "(63 :: byte) = mask 6"
  by (simp_all add: mask_eq_exp_minus_1)

lemma take_bit6_less: "take_bit 6 w = w \<Longrightarrow> unat (w :: byte) < 64"
  using unsigned_take_bit_eq [of 6 w, where ?'a = nat] take_bit_nat_less_exp [of 6 "unat w"] by simp

lemma sextet_less: "unat (sextet0 a) < 64" "unat (sextet1 a b) < 64" "unat (sextet2 a b) < 64"
  "unat (sextet3 a) < 64"
  unfolding sextet0_def sextet1_def sextet2_def sextet3_def masks
  by (rule take_bit6_less, rule bit_eqI, auto simp: bit_simps dest: bit_imp_le_length)+

lemma regroup:
  "push_bit 2 (sextet0 a) OR drop_bit 4 (sextet1 a b) = a"
  "push_bit 4 (sextet1 a b) OR drop_bit 2 (sextet2 b c) = b"
  "push_bit 6 (sextet2 b c) OR sextet3 c = c"
  unfolding sextet0_def sextet1_def sextet2_def sextet3_def masks
  by (rule byte_eqI, auto simp: bit_simps simp flip: numeral_2_eq_2 numeral_3_eq_3)+

lemma alphabet_ok_all: "list_all alpha_ok [0..<64]" by (simp add: upt_conv_Cons alpha_ok_def ALPHABET_def as_bytes_def base64_value_def is_ascii_uppercase_def is_ascii_lowercase_def is_ascii_digit_def is_ascii_whitespace_def)

lemma alphabet_ok:
  "i < 64 \<Longrightarrow> base64_value (ALPHABET ! i) = Inr (word_of_nat i)" "i < 64 \<Longrightarrow> ALPHABET ! i \<noteq> 0x3d"
  "i < 64 \<Longrightarrow> \<not> is_ascii_whitespace (ALPHABET ! i)"
  using alphabet_ok_all by (auto simp: list_all_iff alpha_ok_def)

lemma pad4_append4: "pad4 (a # b # c # d # rest) = a # b # c # d # pad4 rest"
  by (simp add: pad4_def)

lemma pad4_short: "pad4 [] = []" "pad4 [a, b] = [a, b, 0x3d, 0x3d]" "pad4 [a, b, c] = [a, b, c, 0x3d]"
  by (simp_all add: pad4_def numeral_2_eq_2)

lemma length_base64url_chunks: "length (base64url_chunks xs) = (length xs * 4 + 2) div 3"
  by (induction xs rule: base64url_chunks.induct) auto

lemma base64url_chunks_clean: "list_all (\<lambda>b. \<not> is_ascii_whitespace b) (base64url_chunks xs)"
  by (induction xs rule: base64url_chunks.induct) (auto simp: alphabet_ok sextet_less)

lemma base64_decode_encode: "base64_decode_chunks (pad4 (base64url_chunks xs)) = Inr xs"
proof (induction xs rule: base64url_chunks.induct)
  case (4 a b c rest)
  then show ?case by (simp add: pad4_append4 alphabet_ok sextet_less regroup)
qed (simp_all add: pad4_short alphabet_ok sextet_less regroup)

lemma decode_base64url:
  assumes "xs \<noteq> []"
  shows "decode_base64 (base64url_no_pad xs) = Inr xs"
proof -
  let ?c = "base64url_chunks xs"
  have clean: "filter (\<lambda>b. \<not> is_ascii_whitespace b) ?c = ?c"
    using base64url_chunks_clean [of xs] by (simp add: list_all_iff filter_id_conv)
  have "(length xs * 4 + 2) div 3 mod 4 \<noteq> 1" by presburger
  then have "length ?c mod 4 \<noteq> 1" by (simp add: length_base64url_chunks)
  moreover have "?c \<noteq> []" using assms length_base64url_chunks [of xs] by (cases xs) auto
  ultimately show ?thesis
    by (simp add: decode_base64_def base64url_no_pad_def Let_def clean base64_decode_encode)
qed

lemma is_base64_value: "is_base64 b \<Longrightarrow> \<exists>v. base64_value b = Inr v"
  by (auto simp: is_base64_def base64_value_def is_ascii_alphanumeric_def)

lemma decoded_len_chunks_sound:
  "decoded_len_chunks bs = Some n \<Longrightarrow> \<exists>out. base64_decode_chunks bs = Inr out \<and> length out = n"
proof (induction bs arbitrary: n rule: decoded_len_chunks.induct)
  case (1 c0 c1 c2 c3 rest)
  then obtain a b m where v: "base64_value c0 = Inr a" "base64_value c1 = Inr b"
    "decoded_len_chunks rest = Some m" "\<not> (c2 = 0x3d \<and> c3 \<noteq> 0x3d)"
    "c2 \<noteq> 0x3d \<Longrightarrow> is_base64 c2" "c3 \<noteq> 0x3d \<Longrightarrow> is_base64 c3"
    "n = 1 + (if c2 = 0x3d then 0 else 1) + (if c3 = 0x3d then 0 else 1) + m"
    using is_base64_value by (auto split: if_splits) metis+
  then obtain out where "base64_decode_chunks rest = Inr out" "length out = m"
    using 1 by (auto split: if_splits)
  moreover obtain c where "c2 \<noteq> 0x3d \<Longrightarrow> base64_value c2 = Inr c" using v(5) is_base64_value by blast
  moreover obtain d where "c3 \<noteq> 0x3d \<Longrightarrow> base64_value c3 = Inr d" using v(6) is_base64_value by blast
  ultimately show ?case using v by (auto simp: Let_def)
qed auto

section \<open>Percent encoding lemmas\<close>

lemma hex_all: "list_all (\<lambda>i. hex_value (HEX ! i) = i \<and> unreserved (HEX ! i)) [0..<16]"
  by (simp add: upt_conv_Cons HEX_def as_bytes_def ascii_defs unreserved_def)

lemma hex_ok: "i < 16 \<Longrightarrow> hex_value (HEX ! i) = i" "i < 16 \<Longrightarrow> unreserved (HEX ! i)"
  using hex_all by (auto simp: list_all_iff)

lemma nibbles:
  "unat (drop_bit 4 (b :: byte)) < 16" "unat (b AND 0x0f) < 16"
  "16 * unat (drop_bit 4 b) + unat (b AND 0x0f) = unat b"
proof -
  have hi: "unat (drop_bit 4 b) = unat b div 16" by (simp add: drop_bit_eq_div unat_div)
  have lo: "unat (b AND 0x0f) = unat b mod 16"
    using unsigned_take_bit_eq [of 4 b, where ?'a = nat] by (simp add: masks(2) take_bit_eq_mask [symmetric] take_bit_eq_mod)
  show "unat (drop_bit 4 b) < 16" unfolding hi using unat_byte_less [of b] by (simp add: div_less_iff_less_mult)
  show "unat (b AND 0x0f) < 16" unfolding lo by simp
  show "16 * unat (drop_bit 4 b) + unat (b AND 0x0f) = unat b" unfolding hi lo by simp
qed

lemma nibble_word: "16 * drop_bit 4 b + (b AND 0x0f) = (b :: byte)"
proof -
  have "word_of_nat (16 * unat (drop_bit 4 b) + unat (b AND 0x0f)) = (word_of_nat (unat b) :: byte)"
    by (simp only: nibbles(3))
  then show ?thesis by simp
qed

lemma percent_decode_byte: "percent_decode (percent_byte b @ rest) = b # percent_decode rest"
proof (cases "unreserved b")
  case True
  then have "b \<noteq> 0x25" by (auto simp: unreserved_def ascii_defs)
  with True show ?thesis by (simp add: percent_byte_def)
next
  case False
  then show ?thesis
    by (simp add: percent_byte_def hex_ok nibbles nibble_word del: hex_value.simps)
qed

lemma percent_decode_encode: "percent_decode (concat (map percent_byte bs)) = bs"
  by (induction bs) (simp_all add: percent_decode_byte)

lemma percent_byte_chars: "x \<in> set (percent_byte b) \<Longrightarrow> x = 0x25 \<or> unreserved x"
  by (auto simp: percent_byte_def hex_ok nibbles split: if_splits)

lemma percent_encode_safe: "x \<in> set (as_bytes (percent_encode v)) \<Longrightarrow> x = 0x25 \<or> unreserved x"
  by (auto simp: percent_encode_def dest: percent_byte_chars)

lemma percent_encode_no_delims:
  "0x26 \<notin> set (as_bytes (percent_encode v))" "0x3d \<notin> set (as_bytes (percent_encode v))"
  using percent_encode_safe [of "0x26" v] percent_encode_safe [of "0x3d" v]
  by (auto simp: unreserved_def ascii_defs)

lemma split_on_none: "x \<notin> set ys \<Longrightarrow> split_on x ys = [ys]"
  by (induction ys) auto

lemma split_on_nonempty [simp]: "split_on x ys \<noteq> []"
  by (induction ys) (auto split: list.splits)

lemma split_on_append: "split_on x (ys @ x # zs) = split_on x ys @ split_on x zs"
  by (induction ys) (auto split: list.splits)

lemma query_push_bytes:
  "as_bytes (query_push k v q) = as_bytes q @ (if q = [] then [] else [0x26])
     @ as_bytes (percent_encode k) @ [0x3d] @ as_bytes (percent_encode v)"
  by (simp add: query_push_def) (simp add: as_bytes_def)

lemma decode_pair_encoded:
  "decode_pair (as_bytes (percent_encode k) @ [0x3d] @ as_bytes (percent_encode v)) = (k, v)"
  using split_on_append [of "0x3d" "as_bytes (percent_encode k)" "as_bytes (percent_encode v)"]
  by (simp add: decode_pair_def split_on_none percent_encode_no_delims)
    (simp add: percent_encode_def percent_decode_encode)

lemma query_of_snoc: "query_of (ps @ [(k, v)]) = query_push k v (query_of ps)"
  by (simp add: query_of_def)

lemma query_of_Nil_iff: "query_of ps = [] \<longleftrightarrow> ps = []"
proof (cases ps rule: rev_cases)
  case (snoc qs p)
  obtain k v where p: "p = (k, v)" by force
  have "length (as_bytes (query_push k v (query_of qs))) \<noteq> 0"
    unfolding query_push_bytes by simp
  then show ?thesis using snoc p by (simp add: query_of_snoc)
qed (simp add: query_of_def)

lemma parse_query_of: "parse_query (query_of ps) = ps"
proof (induction ps rule: rev_induct)
  case Nil
  then show ?case by (simp add: query_of_def parse_query_def)
next
  case (snoc p ps)
  obtain k v where p: "p = (k, v)" by force
  let ?e = "as_bytes (percent_encode k) @ [0x3d] @ as_bytes (percent_encode v)"
  have e: "0x26 \<notin> set ?e" using percent_encode_no_delims(1) by simp
  have ne: "query_of (ps @ [p]) \<noteq> []" by (simp add: query_of_Nil_iff)
  show ?case
  proof (cases "ps = []")
    case True
    then have "as_bytes (query_of (ps @ [p])) = ?e"
      unfolding p query_of_snoc query_push_bytes by (simp add: query_of_def)
    then show ?thesis using ne True p decode_pair_encoded
      by (simp add: parse_query_def split_on_none [OF e, simplified])
  next
    case False
    then have q: "query_of ps \<noteq> []" by (simp add: query_of_Nil_iff)
    have b: "as_bytes (query_of (ps @ [p])) = as_bytes (query_of ps) @ 0x26 # ?e"
      unfolding p query_of_snoc query_push_bytes using q by simp
    have "map decode_pair (split_on 0x26 (as_bytes (query_of ps))) = ps"
      using snoc q by (simp add: parse_query_def)
    then show ?thesis
      using ne p decode_pair_encoded unfolding parse_query_def b split_on_append
      by (simp add: split_on_none [OF e, simplified])
  qed
qed

section \<open>Properties\<close>

text \<open>
  The Base64 text of the HTTP transport decodes to the original bytes with the
  client's own decoder, and its length is four thirds of the input, rounded up.
\<close>

theorem base64_round_trip:
  "(xs \<noteq> [] \<longrightarrow> decode_base64 (base64url_no_pad xs) = Inr xs)
   \<and> length (base64url_no_pad xs) = (length xs * 4 + 2) div 3"
  using decode_base64url length_base64url_chunks by (simp add: base64url_no_pad_def)

theorem base64_round_trip_witness:
  "decode_base64 (base64url_no_pad [1, 2]) = Inr [1, 2] \<and> length (base64url_no_pad [1, 2]) = 3"
  using base64_round_trip [of "[1, 2]"] by simp

text \<open>
  A server key that the build script accepts with some decoded length is
  decoded at run time, to exactly that many bytes; so a compiled-in pin is
  always a 32-byte key.
\<close>

theorem build_pin_decodes:
  assumes "decoded_base64_len v = Some n"
  shows "\<exists>key. decode_base64 v = Inr key \<and> length key = n"
  using assms decoded_len_chunks_sound
  by (auto simp: decoded_base64_len_def decode_base64_def Let_def split: if_splits)

theorem build_pin_decodes_witness:
  "decoded_base64_len ''AQID'' = Some 3 \<and> (\<exists>key. decode_base64 ''AQID'' = Inr key \<and> length key = 3)"
proof -
  have len: "decoded_base64_len ''AQID'' = Some 3"
    by (simp add: decoded_base64_len_def as_bytes_def ascii_defs pad4_def is_base64_def)
  show ?thesis using len build_pin_decodes [OF len] by simp
qed

text \<open>
  Whatever keys and values are pushed, the query string that \<open>QueryBuilder\<close>
  builds contains only unreserved characters, percent escapes and the two
  delimiters, and splitting and percent-decoding it gives the pairs back in
  order: no value can inject another parameter.
\<close>

lemma query_round_trip:
  "parse_query (query_of pairs) = pairs
   \<and> (\<forall>x. x \<in> set (as_bytes (percent_encode v)) \<longrightarrow> x = 0x25 \<or> unreserved x)"
  using parse_query_of percent_encode_safe by blast

end
