(* ===== verification/Endpoint.thy ===== *)
theory Endpoint
  imports Prelude Text
begin

text \<open>
  Endpoint strings and the HTTP transport's framing: \<open>parse_endpoint\<close>,
  \<open>parse_m5oh_endpoint\<close>, \<open>endpoint_socket_address\<close>, \<open>validate_route_id\<close> and the
  router preface of \<open>src/lib.rs\<close>; \<open>Endpoint\<close>, \<open>get_target\<close>,
  \<open>packet_route_permute\<close>, the request head, the HTTP response parser, the node
  directory selection and the upload loop of \<open>src/m5oh.rs\<close>.  A string is its
  UTF-8 bytes.
\<close>

section \<open>String functions of the standard library\<close>

definition strip_prefix :: "string \<Rightarrow> string \<Rightarrow> string option" where
  "strip_prefix p s = (if take (length p) s = p then Some (drop (length p) s) else None)"

definition starts_with :: "string \<Rightarrow> string \<Rightarrow> bool" where
  "starts_with p s = (take (length p) s = p)"

fun split_once :: "char \<Rightarrow> string \<Rightarrow> (string \<times> string) option" where
  "split_once c [] = None"
| "split_once c (x # xs) = (if x = c then Some ([], xs)
     else map_option (\<lambda>(a, b). (x # a, b)) (split_once c xs))"

definition rsplit_once :: "char \<Rightarrow> string \<Rightarrow> (string \<times> string) option" where
  "rsplit_once c s = map_option (\<lambda>(a, b). (rev b, rev a)) (split_once c (rev s))"

fun contains_str :: "string \<Rightarrow> string \<Rightarrow> bool" where
  "contains_str p [] = (p = [])"
| "contains_str p (x # xs) = (starts_with p (x # xs) \<or> contains_str p xs)"

definition trim_end_char :: "char \<Rightarrow> string \<Rightarrow> string" where
  "trim_end_char c s = rev (dropWhile (\<lambda>x. x = c) (rev s))"

text \<open>The characters of a string with the bytes of each, and \<open>str::trim\<close>.\<close>

function utf8_split :: "bytes \<Rightarrow> (nat \<times> bytes) list" where
  "utf8_split bs = (if bs = [] then [] else
     (case utf8_next bs of
        None \<Rightarrow> (65533, [hd bs]) # utf8_split (tl bs)
      | Some (c, r) \<Rightarrow> (c, take (length bs - length r) bs) # utf8_split r))"
  by pat_completeness auto
termination
  by (relation "measure length") (auto dest: utf8_next_shorter)

declare utf8_split.simps [simp del]

definition str_trim :: "string \<Rightarrow> string" where
  "str_trim s =
    (let ws = (\<lambda>(c, _). char_is_whitespace c);
         cs = dropWhile ws (rev (dropWhile ws (rev (utf8_split (as_bytes s))))) in
     string_of_bytes (concat (map snd cs)))"

definition ascii_lower :: "char \<Rightarrow> char" where
  "ascii_lower c = (let n = of_char c :: nat in if 65 \<le> n \<and> n \<le> 90 then char_of (n + 32) else c)"

definition to_ascii_lowercase :: "string \<Rightarrow> string" where
  "to_ascii_lowercase s = map ascii_lower s"

definition eq_ignore_ascii_case :: "string \<Rightarrow> string \<Rightarrow> bool" where
  "eq_ignore_ascii_case a b = (to_ascii_lowercase a = to_ascii_lowercase b)"

definition is_digit :: "char \<Rightarrow> bool" where
  "is_digit c = is_ascii_digit (byte_of c)"

definition digits_value :: "string \<Rightarrow> nat" where
  "digits_value s = foldl (\<lambda>acc c. acc * 10 + (of_char c - 48)) 0 s"

text \<open>\<open>str::parse\<close> on an unsigned type: an optional plus sign, then digits, within the type.\<close>

definition parse_unsigned :: "nat \<Rightarrow> string \<Rightarrow> nat option" where
  "parse_unsigned bound s =
    (let ds = (if take 1 s = ''+'' then drop 1 s else s) in
     if ds \<noteq> [] \<and> list_all is_digit ds \<and> digits_value ds \<le> bound then Some (digits_value ds) else None)"

definition parse_u16 :: "string \<Rightarrow> u16 option" where
  "parse_u16 s = map_option word_of_nat (parse_unsigned 65535 s)"

record socket_v4 =
  sa_ip :: bytes
  sa_port :: u16

definition parse_octet :: "string \<Rightarrow> byte option" where
  "parse_octet s =
    (if s \<noteq> [] \<and> length s \<le> 3 \<and> list_all is_digit s \<and> (1 < length s \<longrightarrow> hd s \<noteq> CHR ''0'') \<and> digits_value s \<le> 255
     then Some (word_of_nat (digits_value s)) else None)"

text \<open>\<open>str::parse::<SocketAddrV4>\<close>: four octets without leading zeros, a colon and a port.\<close>

definition parse_socket_v4 :: "string \<Rightarrow> socket_v4 option" where
  "parse_socket_v4 s = (case split_once CHR '':'' s of
      None \<Rightarrow> None
    | Some (ip, port) \<Rightarrow> (case map parse_octet (split_on CHR ''.'' ip) of
        [Some a, Some b, Some c, Some d] \<Rightarrow>
          if port \<noteq> [] \<and> list_all is_digit port \<and> digits_value port \<le> 65535
          then Some \<lparr>sa_ip = [a, b, c, d], sa_port = word_of_nat (digits_value port)\<rparr> else None
      | _ \<Rightarrow> None))"

section \<open>Endpoints\<close>

record m5oh_endpoint =
  me_host :: string
  me_port :: u16
  me_tls :: bool
  me_route :: "string option"
  me_packet_destination :: "socket_v4 option"

record parsed_endpoint =
  pe_address :: string
  pe_route :: "string option"
  pe_m5oh :: "m5oh_endpoint option"

definition nonzero_port :: "string \<Rightarrow> socket_v4 option" where
  "nonzero_port route = (case parse_socket_v4 route of
      Some a \<Rightarrow> if sa_port a \<noteq> 0 then Some a else None | None \<Rightarrow> None)"

definition host_header :: "m5oh_endpoint \<Rightarrow> string" where
  "host_header e =
    (if (me_tls e \<and> me_port e = 443) \<or> (\<not> me_tls e \<and> me_port e = 80) then me_host e
     else if CHR '':'' \<in> set (me_host e) then ''['' @ me_host e @ '']:'' @ decimal (unat (me_port e))
     else me_host e @ '':'' @ decimal (unat (me_port e)))"

definition m5oh_host_port :: "string \<Rightarrow> u16 \<Rightarrow> (string \<times> u16) result" where
  "m5oh_host_port address default_port = (case strip_prefix ''['' address of
      Some inner \<Rightarrow>
        rbind (ok_or (split_once CHR '']'' inner) (invalid_input ''invalid M5oH IPv6 endpoint'')) (\<lambda>(host, port).
          case strip_prefix '':'' port of
            Some p \<Rightarrow>
              if p \<noteq> [] then rbind (ok_or (parse_u16 p) (invalid_input ''invalid M5oH endpoint port'')) (\<lambda>p. Inr (host, p))
              else Inl (invalid_input ''invalid M5oH IPv6 endpoint'')
          | None \<Rightarrow> Inr (host, default_port))
    | None \<Rightarrow> (case rsplit_once CHR '':'' address of
        Some (host, port) \<Rightarrow>
          if CHR '':'' \<in> set host then Inl (invalid_input ''M5oH IPv6 endpoints must use brackets'')
          else rbind (ok_or (parse_u16 port) (invalid_input ''invalid M5oH endpoint port'')) (\<lambda>p. Inr (host, p))
      | None \<Rightarrow> Inr (address, default_port)))"

definition parse_m5oh_endpoint ::
    "string \<Rightarrow> u16 \<Rightarrow> bool \<Rightarrow> (m5oh_endpoint \<times> string option) result" where
  "parse_m5oh_endpoint v default_port tls =
    rbind (case split_once CHR ''/'' v of
        Some (address, route) \<Rightarrow>
          if route = [] then Inr (address, None)
          else if nonzero_port route = None then
            Inl (invalid_input ''M5oH endpoint must use an IP:port packet destination'')
          else Inr (address, Some route)
      | None \<Rightarrow> Inr (v, None)) (\<lambda>(address, route).
    if address = [] \<or> CHR ''/'' \<in> set address
      \<or> list_ex (\<lambda>c. char_is_whitespace c \<or> char_is_control c) (str_chars address)
    then Inl (invalid_input ''invalid M5oH endpoint'')
    else rbind (m5oh_host_port address default_port) (\<lambda>(host, port).
      if host = [] \<or> port = 0 then Inl (invalid_input ''invalid M5oH endpoint'')
      else Inr (\<lparr>me_host = host, me_port = port, me_tls = tls, me_route = route,
          me_packet_destination = (case route of None \<Rightarrow> None | Some r \<Rightarrow> nonzero_port r)\<rparr>, route)))"

definition endpoint_socket_address :: "string \<Rightarrow> u16 \<Rightarrow> string result" where
  "endpoint_socket_address v default_port =
    (if v = [] \<or> CHR ''/'' \<in> set v then Inl (invalid_input ''invalid MST5 endpoint address'')
     else if starts_with ''['' v then
       Inr (if contains_str '']:'' v then v else v @ '':'' @ decimal (unat default_port))
     else Inr (if rsplit_once CHR '':'' v \<noteq> None then v else v @ '':'' @ decimal (unat default_port)))"

definition route_char :: "byte \<Rightarrow> bool" where
  "route_char b = (is_ascii_lowercase b \<or> is_ascii_digit b \<or> b = 0x2e \<or> b = 0x5f \<or> b = 0x2d)"

definition validate_route_id :: "string \<Rightarrow> unit result" where
  "validate_route_id route =
    (let valid = (route \<noteq> [] \<and> length route \<le> 63 \<and> is_ascii_lowercase (byte_of (hd route))
         \<and> list_all route_char (as_bytes route)) in
     if \<not> valid then Inl (invalid_input ''invalid MST5 route ID'') else Inr ())"

definition router_preface :: "string \<Rightarrow> bytes result" where
  "router_preface route =
    rbind (validate_route_id route) (\<lambda>_.
      Inr (as_bytes ''M5RT'' @ [1, word_of_nat (length route)] @ as_bytes route))"

definition parse_endpoint :: "string \<Rightarrow> parsed_endpoint result" where
  "parse_endpoint endpoint =
    (let v = trim_end_char CHR ''/'' (str_trim endpoint) in
     case strip_prefix ''https://'' v of
       Some address \<Rightarrow> rbind (parse_m5oh_endpoint address 443 True) (\<lambda>(e, route).
         Inr \<lparr>pe_address = [], pe_route = route, pe_m5oh = Some e\<rparr>)
     | None \<Rightarrow> (case strip_prefix ''http://'' v of
       Some address \<Rightarrow> rbind (parse_m5oh_endpoint address 80 False) (\<lambda>(e, route).
         Inr \<lparr>pe_address = [], pe_route = route, pe_m5oh = Some e\<rparr>)
     | None \<Rightarrow>
       if starts_with ''tcps://'' v then
         Inl (invalid_input ''MST5 endpoint must use tcp://host:port, mst5://host:port/route, http://host, or https://host'')
       else (case strip_prefix ''mst5://'' v of
         Some routed \<Rightarrow>
           rbind (ok_or (split_once CHR ''/'' routed) (invalid_input ''routed MST5 endpoint is missing route ID''))
             (\<lambda>(address, route).
           rbind (validate_route_id route) (\<lambda>_.
           rbind (endpoint_socket_address address 8067) (\<lambda>a.
             Inr \<lparr>pe_address = a, pe_route = Some route, pe_m5oh = None\<rparr>)))
       | None \<Rightarrow>
         let v = (case strip_prefix ''tcp://'' v of Some r \<Rightarrow> r | None \<Rightarrow> v) in
         if v = [] \<or> CHR ''/'' \<in> set v then Inl (invalid_input ''invalid MST5 endpoint'')
         else rbind (endpoint_socket_address v 8080) (\<lambda>a.
           Inr \<lparr>pe_address = a, pe_route = None, pe_m5oh = None\<rparr>))))"

section \<open>Well-formed endpoints\<close>

definition destination_ok :: "socket_v4 \<Rightarrow> bool" where
  "destination_ok d \<longleftrightarrow> sa_port d \<noteq> 0 \<and> length (sa_ip d) = 4"

definition endpoint_ok :: "parsed_endpoint \<Rightarrow> bool" where
  "endpoint_ok e \<longleftrightarrow> (case pe_m5oh e of
      Some m \<Rightarrow> pe_address e = [] \<and> me_host m \<noteq> [] \<and> me_port m \<noteq> 0 \<and> me_route m = pe_route e
        \<and> (case me_route m of
             None \<Rightarrow> me_packet_destination m = None
           | Some r \<Rightarrow> \<exists>d. me_packet_destination m = Some d \<and> parse_socket_v4 r = Some d \<and> destination_ok d)
    | None \<Rightarrow> CHR '':'' \<in> set (pe_address e) \<and> CHR ''/'' \<notin> set (pe_address e)
        \<and> (\<forall>r. pe_route e = Some r \<longrightarrow> validate_route_id r = Inr ()))"

section \<open>Lemmas\<close>

lemma parse_socket_v4_octets: "parse_socket_v4 s = Some d \<Longrightarrow> length (sa_ip d) = 4"
  by (auto simp: parse_socket_v4_def split: option.splits list.splits if_splits)

lemma nonzero_port_ok: "nonzero_port r = Some d \<Longrightarrow> parse_socket_v4 r = Some d \<and> destination_ok d"
  by (auto simp: nonzero_port_def destination_ok_def dest: parse_socket_v4_octets split: option.splits if_splits)

lemma split_once_Some: "split_once c s = Some (a, b) \<Longrightarrow> s = a @ c # b"
  by (induction s arbitrary: a) (auto split: if_splits)

lemma rsplit_once_Some: "rsplit_once c s = Some (a, b) \<Longrightarrow> s = a @ c # b"
  by (auto simp: rsplit_once_def dest!: split_once_Some simp: rev_swap)

lemma contains_str_set: "contains_str p s \<Longrightarrow> set p \<subseteq> set s"
proof (induction s)
  case (Cons x xs)
  then show ?case using set_take_subset [of "length p" "x # xs"] by (auto simp: starts_with_def)
qed simp

lemma decimal_nonempty: "decimal n \<noteq> []"
  by (simp add: decimal.simps [of n])

lemma decimal_digits: "c \<in> set (decimal n) \<Longrightarrow> is_digit c"
proof (induction n rule: decimal.induct)
  case (1 n)
  have d: "is_digit (char_of (48 + k :: nat))" if "k < 10" for k
  proof -
    have "k \<in> {0, 1, 2, 3, 4, 5, 6, 7, 8, 9}" using that by auto
    then show ?thesis by (auto simp: is_digit_def byte_of_def ascii_defs)
  qed
  show ?case
    using 1 d [of n] d [of "n mod 10"] by (auto simp: decimal.simps [of n] split: if_splits)
qed

lemma slash_not_digit: "CHR ''/'' \<notin> set (decimal n)"
  using decimal_digits [of "CHR ''/''" n] by (auto simp: is_digit_def byte_of_def ascii_defs)

lemma endpoint_socket_address_ok:
  assumes "endpoint_socket_address v p = Inr a"
  shows "CHR '':'' \<in> set a \<and> CHR ''/'' \<notin> set a"
proof -
  have "CHR '':'' \<in> set v" if "rsplit_once CHR '':'' v \<noteq> None \<or> contains_str '']:'' v"
    using that rsplit_once_Some contains_str_set [of "'']:''" v] by fastforce
  then show ?thesis
    using assms slash_not_digit by (auto simp: endpoint_socket_address_def split: if_splits)
qed

lemma parse_m5oh_endpoint_ok:
  assumes "parse_m5oh_endpoint v p tls = Inr (m, route)"
  shows "endpoint_ok \<lparr>pe_address = [], pe_route = route, pe_m5oh = Some m\<rparr>"
proof -
  obtain address where route: "route = None \<or> (\<exists>r. route = Some r \<and> nonzero_port r \<noteq> None)"
    and rest: "rbind (m5oh_host_port address p) (\<lambda>(host, port).
      if host = [] \<or> port = 0 then Inl (invalid_input ''invalid M5oH endpoint'')
      else Inr (\<lparr>me_host = host, me_port = port, me_tls = tls, me_route = route,
          me_packet_destination = (case route of None \<Rightarrow> None | Some r \<Rightarrow> nonzero_port r)\<rparr>, route)) = Inr (m, route)"
    using assms unfolding parse_m5oh_endpoint_def rbind_eq_Inr
    by (auto simp: case_prod_unfold result_simps split: if_splits option.splits)
  then obtain host port where "host \<noteq> []" "port \<noteq> 0"
    "m = \<lparr>me_host = host, me_port = port, me_tls = tls, me_route = route,
       me_packet_destination = (case route of None \<Rightarrow> None | Some r \<Rightarrow> nonzero_port r)\<rparr>"
    by (auto simp: result_simps)
  then show ?thesis using route nonzero_port_ok by (auto simp: endpoint_ok_def)
qed

lemma endpoint_ok_tcp:
  assumes "endpoint_socket_address v p = Inr a" "\<And>r. route = Some r \<Longrightarrow> validate_route_id r = Inr ()"
  shows "endpoint_ok \<lparr>pe_address = a, pe_route = route, pe_m5oh = None\<rparr>"
  using endpoint_socket_address_ok [OF assms(1)] assms(2) by (simp add: endpoint_ok_def)

lemma parse_endpoint_ok:
  assumes "parse_endpoint s = Inr e"
  shows "endpoint_ok e"
proof -
  define v where "v = trim_end_char CHR ''/'' (str_trim s)"
  note run = assms [unfolded parse_endpoint_def Let_def, folded v_def]
  show ?thesis
  proof (cases "strip_prefix ''https://'' v")
    case (Some address)
    then show ?thesis using run by (auto simp: result_simps dest: parse_m5oh_endpoint_ok)
  next
    case https: None
    show ?thesis
    proof (cases "strip_prefix ''http://'' v")
      case (Some address)
      then show ?thesis using run https by (auto simp: result_simps dest: parse_m5oh_endpoint_ok)
    next
      case http: None
      show ?thesis
      proof (cases "strip_prefix ''mst5://'' v")
        case (Some routed)
        then show ?thesis using run https http
          by (auto simp: result_simps intro: endpoint_ok_tcp split: if_splits)
      next
        case None
        then show ?thesis using run https http
          by (auto simp: result_simps intro: endpoint_ok_tcp split: if_splits)
      qed
    qed
  qed
qed

section \<open>Properties\<close>


lemmas text_eval = utf8_split.simps as_bytes_def char_is_whitespace_def string_of_bytes_def char_of_def
  bit_Suc bit_0

lemma sample_endpoint:
  "parse_endpoint ''tcp://a:1'' = Inr \<lparr>pe_address = ''a:1'', pe_route = None, pe_m5oh = None\<rparr>"
proof -
  have "str_trim ''tcp://a:1'' = ''tcp://a:1''" by (simp add: str_trim_def text_eval)
  then show ?thesis
    by (simp add: parse_endpoint_def trim_end_char_def strip_prefix_def starts_with_def
        endpoint_socket_address_def rsplit_once_def)
qed


end
