(* ===== verification/M5oh.thy ===== *)
theory M5oh
  imports Prelude Text Endpoint Record_Layer
begin

text \<open>
  MST5 over HTTP (\<open>src/m5oh.rs\<close>): the GET target with its permuted packet
  destination, the request head, the HTTP/1.1 response parser, the selection of
  the default node and the two pump loops.  The network is given by oracles:
  the k-th HTTP exchange succeeds or fails, the k-th connect succeeds or fails,
  and the local socket is a list of read events.
\<close>

section \<open>Targets and request heads\<close>

definition MAX_HTTP_HEAD :: nat where [const_defs]: "MAX_HTTP_HEAD = 64 * 1024"
definition MAX_HTTP_BODY :: nat where [const_defs]: "MAX_HTTP_BODY = 8 * 1024 * 1024"
definition MAX_GET_TARGET :: nat where [const_defs]: "MAX_GET_TARGET = 23 * 1024"
definition GET_TARGET_PREFIX :: nat where [const_defs]: "GET_TARGET_PREFIX = 4"
definition PACKET_ROUTE_DESTINATION_BYTES :: nat where [const_defs]: "PACKET_ROUTE_DESTINATION_BYTES = 8"
definition UPLOAD_CHUNK :: nat where [const_defs]:
  "UPLOAD_CHUNK = (MAX_GET_TARGET - GET_TARGET_PREFIX) div 4 * 3 - PACKET_ROUTE_DESTINATION_BYTES"

definition packet_route_permute :: "socket_v4 \<Rightarrow> bytes" where
  "packet_route_permute d =
    (let l = to_be_bytes (sa_port d) @ take 4 (sa_ip d) @ [0, 0] in
     [l ! 0, l ! 7, l ! 3, l ! 5, l ! 1, l ! 6, l ! 4, l ! 2])"

definition get_target :: "string option \<Rightarrow> socket_v4 option \<Rightarrow> bytes \<Rightarrow> string" where
  "get_target route packet_destination payload = (case packet_destination of
      Some d \<Rightarrow> ''/?r='' @ base64url_no_pad (packet_route_permute d @ payload)
    | None \<Rightarrow> if payload = [] then ''/'' else ''/?r='' @ base64url_no_pad payload)"

definition crlf :: string where "crlf = [CHR 0x0d, CHR 0x0a]"

definition request_head ::
    "m5oh_endpoint \<Rightarrow> string \<Rightarrow> string \<Rightarrow> u64 \<Rightarrow> bytes \<Rightarrow> bool \<Rightarrow> string" where
  "request_head e session_id channel sequence payload eof =
    ''GET '' @ get_target (me_route e) (me_packet_destination e) payload @ '' HTTP/1.1'' @ crlf
    @ ''Host: '' @ host_header e @ crlf
    @ ''X-MST5-Session: '' @ session_id @ crlf
    @ ''X-MST5-Channel: '' @ channel @ crlf
    @ ''X-MST5-Seq: '' @ u64_to_string sequence @ crlf
    @ ''Accept: application/octet-stream'' @ crlf
    @ ''User-Agent: OVE-MST5-M5oH/1'' @ crlf
    @ ''Cache-Control: no-store'' @ crlf
    @ ''Connection: keep-alive'' @ crlf
    @ (if channel = ''down'' then ''X-MST5-Max-Response: 8388608'' @ crlf else [])
    @ (if eof then ''X-MST5-EOF: 1'' @ crlf else [])
    @ crlf"

section \<open>Responses\<close>

record http_response =
  hr_status :: u16
  hr_headers :: "string \<rightharpoonup> string"
  hr_body :: bytes

definition bad_http :: "string \<Rightarrow> io_error" where
  "bad_http m = IoError InvalidData m"

fun read_until :: "byte \<Rightarrow> bytes \<Rightarrow> bytes \<times> bytes" where
  "read_until d [] = ([], [])"
| "read_until d (x # xs) = (if x = d then ([x], xs) else (case read_until d xs of (a, b) \<Rightarrow> (x # a, b)))"

definition http_read_line :: "bytes \<Rightarrow> (string option \<times> bytes) result" where
  "http_read_line input = (case read_until 0x0a input of (bs, rest) \<Rightarrow>
     if bs = [] then Inr (None, rest)
     else if length bs > MAX_HTTP_HEAD \<or> \<not> (2 \<le> length bs \<and> drop (length bs - 2) bs = [0x0d, 0x0a]) then
       Inl (bad_http ''invalid M5oH HTTP line'')
     else (case from_utf8 (take (length bs - 2) bs) of
         Some s \<Rightarrow> Inr (Some s, rest)
       | None \<Rightarrow> Inl (bad_http ''M5oH HTTP header is not UTF-8'')))"

lemma read_until_append: "read_until d xs = (a, b) \<Longrightarrow> a @ b = xs"
  by (induction xs arbitrary: a b) (auto split: if_splits prod.splits)

lemma http_read_line_shorter: "http_read_line input = Inr (Some line, rest) \<Longrightarrow> length rest < length input"
  using read_until_append [of "0x0a" input]
  by (auto simp: http_read_line_def split: prod.splits if_splits option.splits)

function http_headers :: "nat \<Rightarrow> (string \<rightharpoonup> string) \<Rightarrow> bytes \<Rightarrow> ((string \<rightharpoonup> string) \<times> bytes) result" where
  "http_headers seen headers input = (case http_read_line input of
      Inl e \<Rightarrow> Inl e
    | Inr (None, rest) \<Rightarrow> Inl (IoError UnexpectedEof ''M5oH HTTP headers truncated'')
    | Inr (Some line, rest) \<Rightarrow>
        let seen = seen + length line in
        if seen \<ge> 2 ^ 64 then Inl (bad_http ''M5oH HTTP headers overflow'')
        else if seen > MAX_HTTP_HEAD then Inl (bad_http ''M5oH HTTP headers too large'')
        else if line = [] then Inr (headers, rest)
        else (case split_once CHR '':'' line of
            None \<Rightarrow> Inl (bad_http ''invalid M5oH HTTP header'')
          | Some (name, v) \<Rightarrow>
              http_headers seen (headers(to_ascii_lowercase (str_trim name) \<mapsto> str_trim v)) rest))"
  by pat_completeness auto
termination
  by (relation "measure (\<lambda>(_, _, input). length input)") (auto dest: http_read_line_shorter)

declare http_headers.simps [simp del]

definition read_response :: "bytes \<Rightarrow> (http_response \<times> bytes) result" where
  "read_response input =
    rbind (http_read_line input) (\<lambda>(line, input).
    rbind (ok_or line (IoError UnexpectedEof ''M5oH HTTP peer closed'')) (\<lambda>status_line.
    let (version, after) = (case split_once CHR '' '' status_line of
          None \<Rightarrow> (status_line, []) | Some (v, r) \<Rightarrow> (v, r));
        status_text = (case split_once CHR '' '' after of None \<Rightarrow> after | Some (s, _) \<Rightarrow> s) in
    if version \<noteq> ''HTTP/1.1'' then Inl (bad_http ''M5oH requires HTTP/1.1'')
    else rbind (ok_or (parse_u16 status_text) (bad_http ''invalid M5oH HTTP status'')) (\<lambda>status.
    rbind (http_headers 0 Map.empty input) (\<lambda>(headers, input).
    if headers ''transfer-encoding'' \<noteq> None then Inl (bad_http ''chunked M5oH responses are unsupported'')
    else rbind (case headers ''content-length'' of
        None \<Rightarrow> Inr 0
      | Some v \<Rightarrow> ok_or (parse_unsigned (2 ^ 64 - 1) v) (bad_http ''invalid M5oH content length'')) (\<lambda>len.
    if len > MAX_HTTP_BODY then Inl (bad_http ''M5oH response too large'')
    else rbind (read_exact len input) (\<lambda>(body, input).
      Inr (\<lparr>hr_status = status, hr_headers = headers, hr_body = body\<rparr>, input)))))))"

definition request_result :: "http_response \<Rightarrow> http_response result" where
  "request_result response =
    (if hr_status response \<noteq> 200 then
       Inl (IoError ConnectionAborted (''M5oH server returned HTTP '' @ decimal (unat (hr_status response))))
     else Inr response)"

section \<open>Node directory\<close>

record node_entry =
  ne_id :: string
  ne_destination :: string
  ne_default :: bool

text \<open>
  \<open>discover_default_node\<close> after the directory has been fetched and parsed
  (\<open>directory\<close> is the result of the exchange and of the JSON parser).
\<close>

definition discover_default_node ::
    "(nat \<times> node_entry list) result \<Rightarrow> m5oh_endpoint \<Rightarrow> m5oh_endpoint result" where
  "discover_default_node directory e =
    (if me_packet_destination e \<noteq> None \<or> me_route e \<noteq> None then Inr e
     else rbind directory (\<lambda>(version, nodes).
       if version \<noteq> 1 then Inl (bad_http ''unsupported M5oH node directory version'')
       else rbind (ok_or (find ne_default nodes) (IoError NotFound ''M5oH node directory has no default node''))
         (\<lambda>node.
       rbind (ok_or (parse_socket_v4 (ne_destination node))
           (bad_http (''invalid M5oH node destination for '' @ ne_id node))) (\<lambda>destination.
       if sa_port destination = 0 then Inl (bad_http ''M5oH node directory has zero port'')
       else Inr (e\<lparr>me_packet_destination := Some destination\<rparr>)))))"

section \<open>The pump loops\<close>

datatype read_event = Data bytes | Gap | Eof | ReadError io_error

text \<open>
  \<open>coalesce\<close> is the inner loop of \<open>upload_loop\<close>: it appends what arrives within
  the coalescing window (a \<open>Gap\<close> is a window that passes without data) while
  the buffer has room.  The end of the event list is end of file.
\<close>

fun event_size :: "read_event \<Rightarrow> nat" where
  "event_size (Data bs) = Suc (length bs)"
| "event_size _ = 1"

fun coalesce :: "bytes \<Rightarrow> read_event list \<Rightarrow> (bytes \<times> bool \<times> read_event list) result" where
  "coalesce buf [] = (if length buf < UPLOAD_CHUNK then Inr (buf, True, []) else Inr (buf, False, []))"
| "coalesce buf (Eof # evs) =
     (if length buf < UPLOAD_CHUNK then Inr (buf, True, []) else Inr (buf, False, Eof # evs))"
| "coalesce buf (Gap # evs) =
     (if length buf < UPLOAD_CHUNK then Inr (buf, False, evs) else Inr (buf, False, Gap # evs))"
| "coalesce buf (ReadError e # evs) =
     (if length buf < UPLOAD_CHUNK then Inl e else Inr (buf, False, ReadError e # evs))"
| "coalesce buf (Data bs # evs) =
     (if length buf < UPLOAD_CHUNK then
        (if bs = [] then Inr (buf, True, [])
         else if length bs \<le> UPLOAD_CHUNK - length buf then coalesce (buf @ bs) evs
         else Inr (buf @ take (UPLOAD_CHUNK - length buf) bs, False,
           Data (drop (UPLOAD_CHUNK - length buf) bs) # evs))
      else Inr (buf, False, Data bs # evs))"

text \<open>The first, blocking read of an iteration; a read of zero bytes is end of file.\<close>

fun first_read :: "read_event list \<Rightarrow> (bytes \<times> bool \<times> read_event list) result" where
  "first_read [] = Inr ([], True, [])"
| "first_read (Eof # evs) = Inr ([], True, [])"
| "first_read (Gap # evs) = first_read evs"
| "first_read (ReadError e # evs) = Inl e"
| "first_read (Data bs # evs) =
     (if bs = [] then Inr ([], True, [])
      else if length bs \<le> UPLOAD_CHUNK then Inr (bs, False, evs)
      else Inr (take UPLOAD_CHUNK bs, False, Data (drop UPLOAD_CHUNK bs) # evs))"

definition fill_buffer :: "read_event list \<Rightarrow> (bytes \<times> bool \<times> read_event list) result" where
  "fill_buffer evs = rbind (first_read evs) (\<lambda>(buf, eof, evs).
     if eof then Inr (buf, True, evs) else coalesce buf evs)"

text \<open>
  One exchange: \<open>post k\<close> tells whether the k-th request succeeds and whether its
  response asks to close the connection, \<open>conn k\<close> whether the k-th connect
  succeeds.  A failed request is repeated once, with the same sequence number
  and payload, on a fresh connection.
\<close>

record upload_log_entry =
  le_seq :: u64
  le_payload :: bytes
  le_eof :: bool
  le_ok :: bool

record net_clock =
  nc_posts :: nat
  nc_conns :: nat

definition send_chunk ::
    "(nat \<Rightarrow> (bool \<times> bool)) \<Rightarrow> (nat \<Rightarrow> bool) \<Rightarrow> u64 \<Rightarrow> bytes \<Rightarrow> bool \<Rightarrow> net_clock
     \<Rightarrow> unit result \<times> upload_log_entry list \<times> net_clock" where
  "send_chunk post conn sequence payload eof t =
    (let entry = (\<lambda>ok. \<lparr>le_seq = sequence, le_payload = payload, le_eof = eof, le_ok = ok\<rparr>);
         failed = IoError ConnectionAborted ''M5oH request failed'';
         refused = IoError ConnectionRefused ''M5oH connect failed'';
         reconnect = (\<lambda>log (t :: net_clock) close.
           if close then
             (if conn (nc_conns t) then (Inr (), log, t\<lparr>nc_conns := nc_conns t + 1\<rparr>)
              else (Inl refused, log, t\<lparr>nc_conns := nc_conns t + 1\<rparr>))
           else (Inr (), log, t)) in
     case post (nc_posts t) of
       (True, close) \<Rightarrow> reconnect [entry True] (t\<lparr>nc_posts := nc_posts t + 1\<rparr>) close
     | (False, _) \<Rightarrow>
         let t = t\<lparr>nc_posts := nc_posts t + 1\<rparr> in
         if \<not> conn (nc_conns t) then (Inl refused, [entry False], t\<lparr>nc_conns := nc_conns t + 1\<rparr>)
         else let t = t\<lparr>nc_conns := nc_conns t + 1\<rparr> in
         (case post (nc_posts t) of
            (True, close) \<Rightarrow> reconnect [entry False, entry True] (t\<lparr>nc_posts := nc_posts t + 1\<rparr>) close
          | (False, _) \<Rightarrow> (Inl failed, [entry False, entry False], t\<lparr>nc_posts := nc_posts t + 1\<rparr>)))"

lemma coalesce_size:
  "coalesce buf evs = Inr (buf', eof, evs') \<Longrightarrow>
   sum_list (map event_size evs') \<le> sum_list (map event_size evs)"
  by (induction buf evs arbitrary: buf' eof evs' rule: coalesce.induct)
    (auto simp: Let_def split: if_splits)

lemma first_read_size:
  "first_read evs = Inr (buf, False, evs') \<Longrightarrow>
   sum_list (map event_size evs') < sum_list (map event_size evs)"
  by (induction evs arbitrary: buf evs' rule: first_read.induct)
    (auto simp: const_defs split: if_splits)

lemma fill_buffer_size:
  "fill_buffer evs = Inr (buf, False, evs') \<Longrightarrow>
   sum_list (map event_size evs') < sum_list (map event_size evs)"
  by (auto simp: fill_buffer_def result_simps split: if_splits dest!: first_read_size coalesce_size)

function upload_loop ::
    "(nat \<Rightarrow> (bool \<times> bool)) \<Rightarrow> (nat \<Rightarrow> bool) \<Rightarrow> u64 \<Rightarrow> read_event list \<Rightarrow> net_clock
     \<Rightarrow> unit result \<times> upload_log_entry list" where
  "upload_loop post conn sequence evs t = (case fill_buffer evs of
      Inl e \<Rightarrow> (Inl e, [])
    | Inr (payload, eof, evs') \<Rightarrow> (case send_chunk post conn sequence payload eof t of
        (Inl e, log, _) \<Rightarrow> (Inl e, log)
      | (Inr _, log, t') \<Rightarrow> (case checked_add sequence 1 of
          None \<Rightarrow> (Inl (IoError OtherError ''M5oH upload sequence exhausted''), log)
        | Some sequence' \<Rightarrow>
            if eof then (Inr (), log)
            else (case upload_loop post conn sequence' evs' t' of (r, rest) \<Rightarrow> (r, log @ rest)))))"
  by pat_completeness auto
termination
  by (relation "measure (\<lambda>(_, _, _, evs, _). sum_list (map event_size evs))")
    (auto dest: fill_buffer_size)

declare upload_loop.simps [simp del]

text \<open>
  \<open>download_loop\<close> on the list of outcomes of its HTTP exchanges (the retry of a
  failed one included): the bytes written to the local socket and the sequence
  number of every request.
\<close>

fun download_loop ::
    "u64 \<Rightarrow> http_response option list \<Rightarrow> unit result option \<times> bytes \<times> u64 list" and
  download_next ::
    "u64 \<Rightarrow> u64 list \<Rightarrow> http_response \<Rightarrow> http_response option list
     \<Rightarrow> unit result option \<times> bytes \<times> u64 list"
where
  "download_loop sequence [] = (None, [], [])"
| "download_loop sequence (Some response # rest) = download_next sequence [sequence] response rest"
| "download_loop sequence [None] = (None, [], [sequence])"
| "download_loop sequence (None # Some response # rest) =
     download_next sequence [sequence, sequence] response rest"
| "download_loop sequence (None # None # rest) =
     (Some (Inl (IoError ConnectionAborted ''M5oH request failed'')), [], [sequence, sequence])"
| "download_next sequence asked response rest = (case checked_add sequence 1 of
      None \<Rightarrow> (Some (Inl (IoError OtherError ''M5oH download sequence exhausted'')), hr_body response, asked)
    | Some sequence' \<Rightarrow>
        if hr_headers response ''x-mst5-eof'' = Some ''1'' then (Some (Inr ()), hr_body response, asked)
        else (case download_loop sequence' rest of (r, out, seqs) \<Rightarrow> (r, hr_body response @ out, asked @ seqs)))"

section \<open>Specification vocabulary\<close>

text \<open>The bytes a list of read events carries, up to end of file or the first read error.\<close>

fun stream_bytes :: "read_event list \<Rightarrow> bytes" where
  "stream_bytes [] = []"
| "stream_bytes (Eof # evs) = []"
| "stream_bytes (Gap # evs) = stream_bytes evs"
| "stream_bytes (ReadError e # evs) = []"
| "stream_bytes (Data bs # evs) = (if bs = [] then [] else bs @ stream_bytes evs)"

definition delivered :: "upload_log_entry list \<Rightarrow> upload_log_entry list" where
  "delivered log = filter le_ok log"

section \<open>Lemmas\<close>

lemma length_packet_route_permute [simp]: "length (packet_route_permute d) = 8"
  by (simp add: packet_route_permute_def Let_def)

lemma packet_route_permute_inj:
  assumes "length (sa_ip a) = 4" "length (sa_ip b) = 4" "packet_route_permute a = packet_route_permute b"
  shows "a = b"
proof -
  have "length (to_be_bytes (sa_port a)) = Suc (Suc 0)" by simp
  then obtain p0 p1 where pa: "to_be_bytes (sa_port a) = [p0, p1]"
    unfolding length_Suc_conv by auto
  have "length (to_be_bytes (sa_port b)) = Suc (Suc 0)" by simp
  then obtain q0 q1 where pb: "to_be_bytes (sa_port b) = [q0, q1]"
    unfolding length_Suc_conv by auto
  obtain a0 a1 a2 a3 where ia: "sa_ip a = [a0, a1, a2, a3]"
    using assms(1) by (auto simp: length_Suc_conv numeral_eq_Suc)
  obtain b0 b1 b2 b3 where ib: "sa_ip b = [b0, b1, b2, b3]"
    using assms(2) by (auto simp: length_Suc_conv numeral_eq_Suc)
  have "[p0, p1] = [q0, q1]" "sa_ip a = sa_ip b"
    using assms(3) by (auto simp: packet_route_permute_def Let_def pa pb ia ib)
  then have "sa_port a = sa_port b" using pa pb be16.enc_inj by metis
  then show ?thesis using \<open>sa_ip a = sa_ip b\<close> by simp
qed

lemma get_target_packet:
  "decode_base64 (drop 4 (get_target route (Some d) payload)) = Inr (packet_route_permute d @ payload)"
  using decode_base64url [of "packet_route_permute d @ payload"]
  by (auto simp: get_target_def simp flip: length_0_conv)

lemma get_target_length:
  assumes "length payload \<le> UPLOAD_CHUNK"
  shows "length (get_target route d payload) \<le> MAX_GET_TARGET"
proof -
  have p: "length payload \<le> 17653" using assms by (simp add: const_defs)
  have "((8 + length payload) * 4 + 2) div 3 \<le> 23548" "(length payload * 4 + 2) div 3 \<le> 23548"
    using p by simp_all
  then show ?thesis
    by (auto simp: get_target_def base64url_no_pad_def length_base64url_chunks const_defs split: option.split)
qed

lemma coalesce_stream:
  "coalesce buf evs = Inr (buf', eof, evs') \<Longrightarrow> length buf \<le> UPLOAD_CHUNK \<Longrightarrow>
   buf @ stream_bytes evs = buf' @ stream_bytes evs' \<and> length buf' \<le> UPLOAD_CHUNK \<and> (eof \<longrightarrow> evs' = [])"
  by (induction buf evs arbitrary: buf' eof evs' rule: coalesce.induct) (auto split: if_splits)

lemma first_read_stream:
  "first_read evs = Inr (buf, eof, evs') \<Longrightarrow>
   stream_bytes evs = buf @ stream_bytes evs' \<and> length buf \<le> UPLOAD_CHUNK \<and> (eof \<longrightarrow> evs' = [])"
  by (induction evs arbitrary: buf eof evs' rule: first_read.induct) (auto split: if_splits)

lemma fill_buffer_stream:
  assumes "fill_buffer evs = Inr (buf, eof, evs')"
  shows "stream_bytes evs = buf @ stream_bytes evs' \<and> length buf \<le> UPLOAD_CHUNK \<and> (eof \<longrightarrow> evs' = [])"
proof -
  obtain b f es where r: "first_read evs = Inr (b, f, es)" and c: "(if f then Inr (b, True, es) else coalesce b es) = Inr (buf, eof, evs')"
    using assms by (auto simp: fill_buffer_def result_simps)
  show ?thesis using first_read_stream [OF r] c coalesce_stream [of b es buf eof evs'] by (auto split: if_splits)
qed

lemma send_chunk_log:
  assumes "send_chunk post conn sq payload eof t = (r, log, t')"
  shows "\<forall>e \<in> set log. le_seq e = sq \<and> le_payload e = payload \<and> le_eof e = eof"
    and "r = Inr () \<Longrightarrow> delivered log = [\<lparr>le_seq = sq, le_payload = payload, le_eof = eof, le_ok = True\<rparr>]"
    and "length (delivered log) \<le> 1"
  using assms
  by (auto simp: send_chunk_def Let_def delivered_def split: prod.splits bool.splits if_splits)

lemma upload_loop_log:
  assumes "upload_loop post conn sq evs t = (r, log)"
  shows "(\<exists>rest. stream_bytes evs = concat (map le_payload (delivered log)) @ rest)
    \<and> map (\<lambda>e. unat (le_seq e)) (delivered log) = [unat sq..<unat sq + length (delivered log)]
    \<and> (\<forall>e \<in> set log. length (le_payload e) \<le> UPLOAD_CHUNK)
    \<and> (r = Inr () \<longrightarrow> delivered log \<noteq> [] \<and> le_eof (last (delivered log))
          \<and> stream_bytes evs = concat (map le_payload (delivered log)))"
  using assms
proof (induction post conn sq evs t arbitrary: r log rule: upload_loop.induct)
  case (1 post conn sq evs t)
  show ?case
  proof (cases "fill_buffer evs")
    case (Inl e)
    then show ?thesis using "1.prems" by (auto simp: upload_loop.simps [of post conn sq evs t] delivered_def)
  next
    case (Inr x)
    obtain buf eof evs' where fill: "fill_buffer evs = Inr (buf, eof, evs')" using Inr by (cases x) auto
    note fb = fill_buffer_stream [OF fill]
    obtain res l t' where send: "send_chunk post conn sq buf eof t = (res, l, t')" by (metis prod_cases3)
    note sc = send_chunk_log [OF send]
    show ?thesis
    proof (cases "res = Inr () \<and> \<not> eof \<and> checked_add sq 1 \<noteq> None")
      case False
      then have log: "log = l" and r: "r = Inr () \<longrightarrow> res = Inr () \<and> eof"
        using "1.prems" fill send
        by (auto simp: upload_loop.simps [of post conn sq evs t] split: sum.splits option.splits if_splits)
      have sub: "set (delivered l) \<subseteq> set l" by (auto simp: delivered_def)
      consider "delivered l = []" | e where "delivered l = [e]"
        using sc(3) by (cases "delivered l") auto
      then show ?thesis
        using fb sc r sub unfolding log by cases auto
    next
      case True
      then obtain sq' where sq': "checked_add sq 1 = Some sq'" by blast
      have next_seq: "unat sq' = unat sq + 1"
        using sq' by (auto simp: checked_add_def unat_add_lem [THEN iffD1] split: if_splits)
      obtain r2 l2 where rec: "upload_loop post conn sq' evs' t' = (r2, l2)" by force
      have log: "log = l @ l2" "r = r2"
        using "1.prems" fill send True sq' rec by (auto simp: upload_loop.simps [of post conn sq evs t])
      have ih: "(\<exists>rest. stream_bytes evs' = concat (map le_payload (delivered l2)) @ rest)
          \<and> map (\<lambda>e. unat (le_seq e)) (delivered l2) = [unat sq'..<unat sq' + length (delivered l2)]
          \<and> (\<forall>e \<in> set l2. length (le_payload e) \<le> UPLOAD_CHUNK)
          \<and> (r2 = Inr () \<longrightarrow> delivered l2 \<noteq> [] \<and> le_eof (last (delivered l2))
              \<and> stream_bytes evs' = concat (map le_payload (delivered l2)))"
        using "1.IH" [OF fill refl refl send [symmetric] _ refl sq' _ rec] True by blast
      have d: "delivered (l @ l2) = \<lparr>le_seq = sq, le_payload = buf, le_eof = eof, le_ok = True\<rparr> # delivered l2"
        using sc(2) True by (simp add: delivered_def)
      have "[unat sq..<unat sq + length (delivered (l @ l2))] = unat sq # [unat sq'..<unat sq' + length (delivered l2)]"
        by (simp add: d next_seq upt_conv_Cons del: upt_Suc)
      then show ?thesis using ih fb sc(1) unfolding log by (auto simp: d)
    qed
  qed
qed

lemma read_exact_Inr: "read_exact n xs = Inr (a, b) \<longleftrightarrow> length a = n \<and> xs = a @ b"
  by (auto simp: read_exact_def)

lemma http_read_line_consumes:
  "http_read_line input = Inr (line, rest) \<Longrightarrow> \<exists>a. input = a @ rest"
  using read_until_append [of "0x0a" input]
  by (auto simp: http_read_line_def split: prod.splits if_splits option.splits)

lemma http_headers_consumes:
  "http_headers seen h input = Inr (h', rest) \<Longrightarrow> \<exists>a. input = a @ rest"
proof (induction seen h input arbitrary: h' rest rule: http_headers.induct)
  case (1 seen h input)
  obtain line rest0 where line: "http_read_line input = Inr (Some line, rest0)"
    using "1.prems" by (cases "http_read_line input") (auto simp: http_headers.simps [of seen h input] split: option.splits)
  obtain a where a: "input = a @ rest0" using http_read_line_consumes [OF line] by blast
  show ?case
  proof (cases "line = []")
    case True
    then have "rest = rest0" using "1.prems" line
      by (auto simp: http_headers.simps [of seen h input] Let_def split: if_splits)
    then show ?thesis using a by blast
  next
    case False
    then obtain name v where sp: "split_once CHR '':'' line = Some (name, v)"
      and rec: "http_headers (seen + length line) (h(to_ascii_lowercase (str_trim name) \<mapsto> str_trim v)) rest0 = Inr (h', rest)"
      and small: "\<not> seen + length line \<ge> 2 ^ 64" "\<not> seen + length line > MAX_HTTP_HEAD"
      using "1.prems" line
      by (auto simp: http_headers.simps [of seen h input] Let_def split: if_splits option.splits)
    have "\<exists>b. rest0 = b @ rest"
      using "1.IH" [OF line refl refl refl small False sp refl rec] by blast
    then show ?thesis using a by auto
  qed
qed

lemma read_response_bounds:
  assumes "read_response input = Inr (resp, rest)"
  shows "length (hr_body resp) \<le> MAX_HTTP_BODY \<and> (\<exists>head. input = head @ hr_body resp @ rest)
    \<and> hr_headers resp ''transfer-encoding'' = None
    \<and> (hr_headers resp ''content-length'' = None \<longrightarrow> hr_body resp = [])"
proof -
  obtain line r1 headers r2 len status body where
      line: "http_read_line input = Inr (Some line, r1)"
    and hs: "http_headers 0 Map.empty r1 = Inr (headers, r2)" "headers ''transfer-encoding'' = None"
    and len: "(case headers ''content-length'' of None \<Rightarrow> Inr 0
       | Some v \<Rightarrow> ok_or (parse_unsigned (2 ^ 64 - 1) v) (bad_http ''invalid M5oH content length'')) = Inr len"
      "len \<le> MAX_HTTP_BODY" "read_exact len r2 = Inr (body, rest)"
    and resp: "resp = \<lparr>hr_status = status, hr_headers = headers, hr_body = body\<rparr>"
    using assms unfolding read_response_def
    by (auto simp: result_simps Let_def not_less case_prod_unfold split: if_splits)
  obtain a b where "input = a @ r1" "r1 = b @ r2"
    using http_read_line_consumes [OF line] http_headers_consumes [OF hs(1)] by blast
  moreover have "length body = len" "r2 = body @ rest" using len(3) by (auto simp: read_exact_Inr)
  ultimately have "\<exists>head. input = head @ body @ rest" by (intro exI [of _ "a @ b"]) simp
  then show ?thesis using len hs(2) \<open>length body = len\<close> by (auto simp: resp split: option.splits)
qed

section \<open>Properties\<close>

text \<open>
  A GET target never exceeds the 23 KiB limit for payloads of one upload chunk;
  the Base64 text after \<open>/?r=\<close> decodes to the permuted destination followed by
  the payload; and two packet targets are equal only if destination and payload
  are, so the relay can recover both.
\<close>

theorem m5oh_target:
  assumes "length payload \<le> UPLOAD_CHUNK" "length (sa_ip d) = 4" "length (sa_ip d') = 4"
  shows "length (get_target route (Some d) payload) \<le> MAX_GET_TARGET
    \<and> decode_base64 (drop 4 (get_target route (Some d) payload)) = Inr (packet_route_permute d @ payload)
    \<and> (get_target route (Some d) payload = get_target route' (Some d') payload' \<longrightarrow> d = d' \<and> payload = payload')"
proof -
  have "d = d' \<and> payload = payload'"
    if "get_target route (Some d) payload = get_target route' (Some d') payload'"
    using that get_target_packet [of route d payload] get_target_packet [of route' d' payload']
      packet_route_permute_inj [OF assms(2,3)] by (auto simp: append_eq_append_conv)
  then show ?thesis using get_target_length [OF assms(1)] get_target_packet by blast
qed

theorem m5oh_target_witness:
  "let d = \<lparr>sa_ip = [10, 100, 2, 228], sa_port = 8080\<rparr> in
   packet_route_permute d = [0x1f, 0, 0x64, 0xe4, 0x90, 0, 2, 10]
   \<and> decode_base64 (drop 4 (get_target None (Some d) [0, 1])) = Inr [0x1f, 0, 0x64, 0xe4, 0x90, 0, 2, 10, 0, 1]"
proof -
  let ?d = "\<lparr>sa_ip = [10, 100, 2, 228], sa_port = 8080\<rparr> :: socket_v4"
  have port: "to_be_bytes (8080 :: u16) = [0x1f, 0x90]" by code_simp
  have p: "packet_route_permute ?d = [0x1f, 0, 0x64, 0xe4, 0x90, 0, 2, 10]"
    by (simp add: packet_route_permute_def port)
  have small: "length [0, 1 :: u8] \<le> UPLOAD_CHUNK" "length (sa_ip ?d) = 4" by (simp_all add: const_defs)
  have "decode_base64 (drop 4 (get_target None (Some ?d) [0, 1])) = Inr (packet_route_permute ?d @ [0, 1])"
    using m5oh_target [OF small(1,2,2)] by blast
  then show ?thesis unfolding Let_def p by simp
qed



text \<open>
  A response the parser accepts is not chunked, has a body of at most 8 MiB
  that directly follows the headers in the input, and none when there is no
  content length; the rest of the input is left for the next response.
\<close>

lemma http_response_bounded:
  assumes "read_response input = Inr (resp, rest)"
  shows "length (hr_body resp) \<le> MAX_HTTP_BODY \<and> (\<exists>head. input = head @ hr_body resp @ rest)
    \<and> hr_headers resp ''transfer-encoding'' = None
    \<and> (hr_headers resp ''content-length'' = None \<longrightarrow> hr_body resp = [])"
  using read_response_bounds [OF assms] .

lemma sample_response:
  "read_response (as_bytes ''HTTP/1.1 200'' @ [13, 10, 13, 10, 7])
     = Inr (\<lparr>hr_status = 200, hr_headers = Map.empty, hr_body = []\<rparr>, [7])"
proof -
  have lines: "http_read_line (as_bytes ''HTTP/1.1 200'' @ [13, 10, 13, 10, 7]) = Inr (Some ''HTTP/1.1 200'', [13, 10, 7])"
    "http_read_line [13, 10, 7] = Inr (Some [], [7])"
    by (simp_all add: http_read_line_def as_bytes_def from_utf8_def utf8_valid_def utf8_decode.simps
        string_of_bytes_def const_defs char_of_def bit_Suc bit_0)
  have words: "split_once CHR '' '' ''HTTP/1.1 200'' = Some (''HTTP/1.1'', ''200'')"
    "split_once CHR '' '' ''200'' = None" "parse_u16 ''200'' = Some 200"
    by (simp_all add: parse_u16_def parse_unsigned_def is_digit_def byte_of_def ascii_defs digits_value_def)
  have "http_headers 0 Map.empty [13, 10, 7] = Inr (Map.empty, [7])"
    by (subst http_headers.simps) (simp add: lines const_defs)
  then show ?thesis
    unfolding read_response_def lines by (simp add: words read_exact_def)
qed

end
