(* ===== verification/Connection.thy ===== *)
theory Connection
  imports Prelude Frame Record_Layer
begin

text \<open>
  The multiplexed connection of \<open>src/connection.rs\<close> as a transition system.
  The state holds what \<open>Mst5Connection\<close> holds (the request counter and its
  lock, the pending map, the closed flag, the two semaphores, the two writer
  queues and the event channel), the response channels of the requests, and
  what the writer task has put on the wire.  Every await point at which other
  tasks may run is a boundary between two steps: a request is reserved,
  registered and completed in three steps, and every other operation is one
  step.  Deadlines and the outcomes of waiting (a timeout, a write error) are
  arguments.
\<close>

section \<open>State\<close>

definition MAX_IN_FLIGHT :: nat where [const_defs]: "MAX_IN_FLIGHT = 64"
definition WRITER_BUDGET_BYTES :: nat where [const_defs]: "WRITER_BUDGET_BYTES = 16 * 1024 * 1024"
definition WRITER_BUDGET_UNIT :: nat where [const_defs]: "WRITER_BUDGET_UNIT = 16 * 1024"

text \<open>What a response channel carries: a frame or the message of a failed connection.\<close>

datatype reply = Reply frame | Failure string

text \<open>
  A writer command with the budget units it holds.  The frames that open a
  request or a stream are told apart from the other frames.
\<close>

datatype writer_command =
    WriteRequest frame nat
  | WriteFrame frame nat
  | WriteClose

text \<open>
  What the holder of the \<open>request_order\<close> lock is doing: it has taken an
  identifier but not yet registered its sender, or its frame is in the writer.
\<close>

datatype order =
    ReservedRequest frame
  | ReservedStream u64 "frame result"
  | QueuedRequest frame
  | QueuedStream frame

text \<open>
  \<open>cn_live\<close> are the handles that hold an in-flight permit, \<open>cn_active\<close> those
  whose \<open>active\<close> flag is set.  \<open>cn_inbox\<close> has everything sent on a response
  channel and \<open>cn_read\<close> how much of it was received.
\<close>

record connection =
  cn_next_id :: u64
  cn_order :: "order option"
  cn_pending :: "u64 set"
  cn_inbox :: "u64 \<Rightarrow> reply list"
  cn_read :: "u64 \<Rightarrow> nat"
  cn_live :: "u64 set"
  cn_active :: "u64 set"
  cn_closed :: bool
  cn_closing :: bool
  cn_budget :: nat
  cn_writer :: bool
  cn_control :: "writer_command list"
  cn_media :: "writer_command list"
  cn_wire :: "writer_command list"
  cn_events :: "frame list"

definition connection_start :: connection where
  "connection_start = \<lparr>cn_next_id = 1, cn_order = None, cn_pending = {}, cn_inbox = (\<lambda>_. []),
     cn_read = (\<lambda>_. 0), cn_live = {}, cn_active = {}, cn_closed = False, cn_closing = False,
     cn_budget = WRITER_BUDGET_BYTES div WRITER_BUDGET_UNIT, cn_writer = True,
     cn_control = [], cn_media = [], cn_wire = [], cn_events = []\<rparr>"

definition closed_error :: io_error where
  "closed_error = IoError BrokenPipe ''MST5 connection is closed''"

definition timed_out :: "string \<Rightarrow> io_error" where
  "timed_out m = IoError TimedOut m"

section \<open>Deadlines\<close>

definition deadline_timeout :: "u64 \<Rightarrow> u64 \<Rightarrow> u64 \<Rightarrow> u64 result" where
  "deadline_timeout now deadline_ms fallback =
    (if deadline_ms = 0 then Inr fallback
     else let remaining = saturating_sub deadline_ms now in
       if remaining = 0 then Inl (timed_out ''MST5 request deadline has expired'')
       else Inr (min fallback remaining))"

section \<open>Frame kinds\<close>

definition is_terminal_response :: "u8 \<Rightarrow> bool" where
  "is_terminal_response k = (k = kind_RESULT \<or> k = kind_EVENT_BATCH \<or> k = kind_ERROR \<or> k = kind_PONG
     \<or> k = kind_STREAM_END \<or> k = kind_STREAM_ABORT)"

definition expected_server_kind :: "u8 \<Rightarrow> bool" where
  "expected_server_kind k = (k = kind_RESULT \<or> k = kind_EVENT_BATCH \<or> k = kind_ACK \<or> k = kind_ERROR
     \<or> k = kind_PONG \<or> k = kind_STREAM_DATA \<or> k = kind_STREAM_END \<or> k = kind_STREAM_ABORT)"

section \<open>Operations\<close>

definition writer_units :: "frame \<Rightarrow> nat" where
  "writer_units f = max 1 (div_ceil (length (f_payload f) + 40) WRITER_BUDGET_UNIT)"

text \<open>
  The first half of \<open>enqueue_frame\<close>: take the budget and put the command on the
  queue of its kind.  When the budget does not suffice the wait times out, and
  once the writer task is gone the queues are closed.
\<close>

definition enqueue_command ::
    "(frame \<Rightarrow> nat \<Rightarrow> writer_command) \<Rightarrow> frame \<Rightarrow> connection \<Rightarrow> unit result \<times> connection" where
  "enqueue_command mk f s =
    (if writer_units f > cn_budget s then (Inl (timed_out ''MST5 writer queue is full''), s)
     else if \<not> cn_writer s then (Inl closed_error, s)
     else if f_kind f = kind_STREAM_DATA then
       (Inr (), s\<lparr>cn_budget := cn_budget s - writer_units f,
                  cn_media := cn_media s @ [mk f (writer_units f)]\<rparr>)
     else
       (Inr (), s\<lparr>cn_budget := cn_budget s - writer_units f,
                  cn_control := cn_control s @ [mk f (writer_units f)]\<rparr>))"

definition write_control :: "frame \<Rightarrow> connection \<Rightarrow> unit result \<times> connection" where
  "write_control f s = (if cn_closed s then (Inl closed_error, s) else enqueue_command WriteFrame f s)"

definition remove_pending :: "u64 \<Rightarrow> connection \<Rightarrow> connection" where
  "remove_pending i s = s\<lparr>cn_pending := cn_pending s - {i}\<rparr>"

definition cancel :: "u64 \<Rightarrow> connection \<Rightarrow> connection" where
  "cancel i s = (case frame_new kind_CANCEL 0 i [] of
      Inr f \<Rightarrow> snd (write_control f (remove_pending i s)) | Inl _ \<Rightarrow> remove_pending i s)"

definition fail_pending :: "string \<Rightarrow> connection \<Rightarrow> connection" where
  "fail_pending m s = s\<lparr>cn_pending := {},
     cn_inbox := (\<lambda>i. if i \<in> cn_pending s then cn_inbox s i @ [Failure m] else cn_inbox s i)\<rparr>"

definition fail :: "string \<Rightarrow> connection \<Rightarrow> connection" where
  "fail m s = (if cn_closed s then s else fail_pending m (s\<lparr>cn_closed := True\<rparr>))"

text \<open>\<open>close\<close> up to and after waiting for the writer to send the close record.\<close>

definition close_start :: "connection \<Rightarrow> connection" where
  "close_start s = (if cn_closed s then s
     else if cn_writer s then s\<lparr>cn_closed := True, cn_closing := True, cn_control := cn_control s @ [WriteClose]\<rparr>
     else s\<lparr>cn_closed := True, cn_closing := True\<rparr>)"

definition close_finish :: "connection \<Rightarrow> connection" where
  "close_finish s = (if cn_closing s
     then fail_pending ''MST5 client closed the connection'' (s\<lparr>cn_closing := False\<rparr>) else s)"

subsection \<open>Starting a request\<close>

text \<open>
  What \<open>begin\<close> and \<open>begin_stream\<close> do before they take an identifier: the
  deadline, the in-flight permit, the closed flag and the order lock, in the
  order of the code.  \<open>now1\<close> and \<open>now2\<close> are the clock at the two deadline
  checks; \<open>slot\<close> and \<open>lock\<close> the two messages.
\<close>

definition admit :: "string \<Rightarrow> string \<Rightarrow> u64 \<Rightarrow> u64 \<Rightarrow> u64 \<Rightarrow> u64 \<Rightarrow> connection \<Rightarrow> u64 result" where
  "admit slot lock write_timeout now1 now2 deadline_ms s =
    rbind (deadline_timeout now1 deadline_ms write_timeout) (\<lambda>_.
    if card (cn_live s) \<ge> MAX_IN_FLIGHT then Inl (timed_out slot)
    else if cn_closed s then Inl closed_error
    else rbind (deadline_timeout now2 deadline_ms write_timeout) (\<lambda>_.
      if cn_order s \<noteq> None then Inl (timed_out lock)
      else if cn_next_id s = 0 \<or> cn_next_id s = - 1 then
        Inl (invalid_data ''MST5 request ID space exhausted; reconnect required'')
      else Inr (cn_next_id s)))"

text \<open>\<open>begin\<close> up to the construction of the frame.\<close>

definition begin_reserve ::
    "u64 \<Rightarrow> u64 \<Rightarrow> u64 \<Rightarrow> u8 \<Rightarrow> u16 \<Rightarrow> bytes \<Rightarrow> u64 \<Rightarrow> bytes \<Rightarrow> connection \<Rightarrow> u64 result \<times> connection" where
  "begin_reserve write_timeout now1 now2 knd code request_nonce deadline_ms payload s =
    (case admit ''MST5 request timed out waiting for an in-flight slot''
        ''MST5 request timed out waiting for the record writer'' write_timeout now1 now2 deadline_ms s of
       Inl e \<Rightarrow> (Inl e, s)
     | Inr i \<Rightarrow> (case frame_request knd code i request_nonce deadline_ms payload of
         Inl e \<Rightarrow> (Inl e, s\<lparr>cn_next_id := i + 1\<rparr>)
       | Inr f \<Rightarrow> (Inr i, s\<lparr>cn_next_id := i + 1, cn_order := Some (ReservedRequest f),
                            cn_live := insert i (cn_live s)\<rparr>)))"

text \<open>
  Registering the sender and queueing the frame.  If the deadline has passed in
  between, the dropped guard cancels the request.
\<close>

definition begin_register :: "u64 \<Rightarrow> u64 \<Rightarrow> connection \<Rightarrow> unit result \<times> connection" where
  "begin_register write_timeout now s = (case cn_order s of
      Some (ReservedRequest f) \<Rightarrow>
        (case deadline_timeout now (f_deadline_ms f) write_timeout of
           Inl e \<Rightarrow> (Inl e, cancel (f_id f)
             (s\<lparr>cn_pending := insert (f_id f) (cn_pending s), cn_order := None, cn_live := cn_live s - {f_id f}\<rparr>))
         | Inr _ \<Rightarrow> (case enqueue_command WriteRequest f
               (s\<lparr>cn_pending := insert (f_id f) (cn_pending s), cn_order := Some (QueuedRequest f),
                  cn_active := insert (f_id f) (cn_active s)\<rparr>) of
             (Inl e, s) \<Rightarrow>
               (Inl e, fail (''MST5 write failed: '' @ err_msg e) (remove_pending (f_id f)
                  (s\<lparr>cn_order := None, cn_live := cn_live s - {f_id f}, cn_active := cn_active s - {f_id f}\<rparr>)))
           | (Inr _, s) \<Rightarrow> (Inr (), s)))
    | _ \<Rightarrow> (Inr (), s))"

text \<open>The end of \<open>begin\<close>: the writer's answer (or the timeout of waiting for it).\<close>

definition begin_finish :: "unit result \<Rightarrow> connection \<Rightarrow> unit result \<times> connection" where
  "begin_finish written s = (case cn_order s of
      Some (QueuedRequest f) \<Rightarrow> (case written of
        Inr _ \<Rightarrow> (Inr (), s\<lparr>cn_order := None\<rparr>)
      | Inl e \<Rightarrow> (Inl e, fail (''MST5 write failed: '' @ err_msg e) (remove_pending (f_id f)
          (s\<lparr>cn_order := None, cn_live := cn_live s - {f_id f}, cn_active := cn_active s - {f_id f}\<rparr>))))
    | _ \<Rightarrow> (Inr (), s))"

text \<open>
  \<open>begin_stream\<close>: the sender is registered before the result of building the
  frame is looked at, and a failed write does not close the connection.
\<close>

definition begin_stream_reserve ::
    "u64 \<Rightarrow> u64 \<Rightarrow> u64 \<Rightarrow> u16 \<Rightarrow> bytes \<Rightarrow> u64 \<Rightarrow> connection \<Rightarrow> u64 result \<times> connection" where
  "begin_stream_reserve write_timeout now1 now2 code payload deadline_ms s =
    (case admit ''MST5 stream slot timed out''
        ''MST5 stream timed out waiting for the record writer'' write_timeout now1 now2 deadline_ms s of
       Inl e \<Rightarrow> (Inl e, s)
     | Inr i \<Rightarrow> (Inr i, s\<lparr>cn_next_id := i + 1, cn_order := Some (ReservedStream i
           (frame_request kind_STREAM_OPEN code i (replicate 16 0) deadline_ms payload)),
         cn_live := insert i (cn_live s)\<rparr>))"

definition begin_stream_register :: "connection \<Rightarrow> unit result \<times> connection" where
  "begin_stream_register s = (case cn_order s of
      Some (ReservedStream i (Inl e)) \<Rightarrow>
        (Inl e, s\<lparr>cn_pending := insert i (cn_pending s), cn_order := None, cn_live := cn_live s - {i}\<rparr>)
    | Some (ReservedStream i (Inr f)) \<Rightarrow>
        (case enqueue_command WriteRequest f
            (s\<lparr>cn_pending := insert i (cn_pending s), cn_order := Some (QueuedStream f)\<rparr>) of
           (Inl e, s) \<Rightarrow> (Inl e, remove_pending i (s\<lparr>cn_order := None, cn_live := cn_live s - {i}\<rparr>))
         | (Inr _, s) \<Rightarrow> (Inr (), s))
    | _ \<Rightarrow> (Inr (), s))"

definition begin_stream_finish :: "unit result \<Rightarrow> connection \<Rightarrow> unit result \<times> connection" where
  "begin_stream_finish written s = (case cn_order s of
      Some (QueuedStream f) \<Rightarrow> (case written of
        Inr _ \<Rightarrow> (Inr (), s\<lparr>cn_order := None, cn_active := insert (f_id f) (cn_active s)\<rparr>)
      | Inl e \<Rightarrow> (Inl e, remove_pending (f_id f)
          (s\<lparr>cn_order := None, cn_live := cn_live s - {f_id f}\<rparr>)))
    | _ \<Rightarrow> (Inr (), s))"

subsection \<open>Receiving\<close>

definition deliver :: "u64 \<Rightarrow> reply \<Rightarrow> connection \<Rightarrow> connection" where
  "deliver i r s = s\<lparr>cn_inbox := (cn_inbox s)(i := cn_inbox s i @ [r])\<rparr>"

definition dispatch :: "frame \<Rightarrow> connection \<Rightarrow> unit result \<times> connection" where
  "dispatch f s =
    (if f_kind f = kind_PING then
       (case frame_new kind_PONG 0 (f_id f) [] of Inl e \<Rightarrow> (Inl e, s) | Inr pong \<Rightarrow> write_control pong s)
     else if \<not> expected_server_kind (f_kind f) then (Inl (invalid_data ''unexpected MST5 server frame''), s)
     else if f_id f \<in> cn_pending s then
       (Inr (), deliver (f_id f) (Reply f)
          (if is_terminal_response (f_kind f) then remove_pending (f_id f) s else s))
     else if f_kind f = kind_EVENT_BATCH then (Inr (), s\<lparr>cn_events := cn_events s @ [f]\<rparr>)
     else (Inr (), s))"

text \<open>One iteration of \<open>reader_loop\<close> on what \<open>read_frame\<close> returned.\<close>

definition reader_step :: "frame option result \<Rightarrow> connection \<Rightarrow> connection" where
  "reader_step r s = (case r of
      Inr (Some f) \<Rightarrow> (case dispatch f s of
          (Inl e, s) \<Rightarrow> fail (''MST5 protocol error: '' @ err_msg e) s | (Inr _, s) \<Rightarrow> s)
    | Inr None \<Rightarrow> fail ''MST5 server closed the connection'' s
    | Inl e \<Rightarrow> fail (''MST5 read failed: '' @ err_msg e) s)"

subsection \<open>Writing\<close>

fun command_units :: "writer_command \<Rightarrow> nat" where
  "command_units (WriteRequest f n) = n"
| "command_units (WriteFrame f n) = n"
| "command_units WriteClose = 0"

definition queued_units :: "writer_command list \<Rightarrow> nat" where
  "queued_units cs = sum_list (map command_units cs)"

text \<open>
  One iteration of \<open>writer_loop\<close>: the control queue first (\<open>biased\<close>), then the
  media queue.  The budget of a command is released when it is done; after an
  error the task returns and drops both queues.
\<close>

definition writer_take :: "connection \<Rightarrow> (writer_command \<times> connection) option" where
  "writer_take s = (case cn_control s of
      c # cs \<Rightarrow> Some (c, s\<lparr>cn_control := cs\<rparr>)
    | [] \<Rightarrow> (case cn_media s of c # cs \<Rightarrow> Some (c, s\<lparr>cn_media := cs\<rparr>) | [] \<Rightarrow> None))"

definition writer_return :: "connection \<Rightarrow> connection" where
  "writer_return s = s\<lparr>cn_writer := False, cn_control := [], cn_media := [],
     cn_budget := cn_budget s + queued_units (cn_control s @ cn_media s)\<rparr>"

definition writer_step :: "unit result \<Rightarrow> connection \<Rightarrow> connection" where
  "writer_step written s = (case writer_take s of
      None \<Rightarrow> s
    | Some (c, s) \<Rightarrow> (case written of
        Inr _ \<Rightarrow> s\<lparr>cn_budget := cn_budget s + command_units c, cn_wire := cn_wire s @ [c]\<rparr>
      | Inl e \<Rightarrow> writer_return (fail (''MST5 write failed: '' @ err_msg e)
          (s\<lparr>cn_budget := cn_budget s + command_units c\<rparr>))))"

definition keepalive_step :: "connection \<Rightarrow> connection" where
  "keepalive_step s = (if cn_closed s then s else
     (case frame_new kind_PING 0 0 [] of
        Inl _ \<Rightarrow> s
      | Inr ping \<Rightarrow> (case write_control ping s of
          (Inl e, s) \<Rightarrow> fail (''MST5 keepalive failed: '' @ err_msg e) s | (Inr _, s) \<Rightarrow> s)))"

subsection \<open>The handles of a caller\<close>

text \<open>
  \<open>PendingRequest::recv\<close> and \<open>StreamHandle::recv\<close>: the next message of the
  channel, the end of a channel whose sender is gone, or the timeout.
\<close>

definition next_reply :: "u64 \<Rightarrow> connection \<Rightarrow> reply option" where
  "next_reply i s = (if cn_read s i < length (cn_inbox s i) then Some (cn_inbox s i ! cn_read s i) else None)"

definition consume :: "u64 \<Rightarrow> connection \<Rightarrow> connection" where
  "consume i s = s\<lparr>cn_read := (cn_read s)(i := cn_read s i + 1)\<rparr>"

definition deactivate :: "u64 \<Rightarrow> connection \<Rightarrow> connection" where
  "deactivate i s = s\<lparr>cn_active := cn_active s - {i}\<rparr>"

definition pending_recv :: "u64 \<Rightarrow> connection \<Rightarrow> frame result \<times> connection" where
  "pending_recv i s = (case next_reply i s of
      Some (Reply f) \<Rightarrow> (Inr f, if is_terminal_response (f_kind f) then deactivate i (consume i s) else consume i s)
    | Some (Failure m) \<Rightarrow> (Inl (IoError ConnectionReset m), deactivate i (consume i s))
    | None \<Rightarrow> (if i \<in> cn_pending s then (Inl (timed_out ''MST5 request timed out''), s)
        else (Inl (IoError BrokenPipe ''MST5 response channel closed''), deactivate i s)))"

definition stream_recv :: "u64 \<Rightarrow> connection \<Rightarrow> frame result \<times> connection" where
  "stream_recv i s = (case next_reply i s of
      Some (Reply f) \<Rightarrow> (Inr f, consume i s)
    | Some (Failure m) \<Rightarrow> (Inl (IoError ConnectionReset m), consume i s)
    | None \<Rightarrow> (if i \<in> cn_pending s then (Inl (timed_out ''MST5 stream read timed out''), s)
        else (Inl (IoError BrokenPipe ''MST5 stream closed''), s)))"

definition pending_send :: "u8 \<Rightarrow> u16 \<Rightarrow> u64 \<Rightarrow> bytes \<Rightarrow> connection \<Rightarrow> unit result \<times> connection" where
  "pending_send knd code i payload s = (case frame_new knd code i payload of
      Inl e \<Rightarrow> (Inl e, s) | Inr f \<Rightarrow> write_control f s)"

definition pending_abort :: "u16 \<Rightarrow> u64 \<Rightarrow> connection \<Rightarrow> connection" where
  "pending_abort status i s = (if i \<notin> cn_active s then s
     else deactivate i (remove_pending i (snd (pending_send kind_STREAM_ABORT status i [] s))))"

definition pending_cancel :: "u64 \<Rightarrow> connection \<Rightarrow> connection" where
  "pending_cancel i s = (if i \<notin> cn_active s then s else deactivate i (cancel i s))"

definition pending_remove :: "u64 \<Rightarrow> connection \<Rightarrow> connection" where
  "pending_remove i s = (if i \<notin> cn_active s then s else deactivate i (remove_pending i s))"

definition pending_drop :: "u64 \<Rightarrow> connection \<Rightarrow> connection" where
  "pending_drop i s = (let s' = pending_cancel i s in s'\<lparr>cn_live := cn_live s' - {i}\<rparr>)"

definition stream_send :: "u64 \<Rightarrow> bytes \<Rightarrow> connection \<Rightarrow> unit result \<times> connection" where
  "stream_send i payload s = (if i \<notin> cn_active s then (Inl closed_error, s)
     else pending_send kind_STREAM_DATA 0 i payload s)"

definition stream_close :: "u64 \<Rightarrow> connection \<Rightarrow> unit result \<times> connection" where
  "stream_close i s = (if i \<notin> cn_active s then (Inr (), s)
     else let (r, s') = pending_send kind_STREAM_END 200 i [] (deactivate i s) in (r, remove_pending i s'))"

definition stream_drop :: "u64 \<Rightarrow> connection \<Rightarrow> connection" where
  "stream_drop i s = (let s' = pending_abort 499 i s in s'\<lparr>cn_live := cn_live s' - {i}\<rparr>)"

text \<open>The end of \<open>request\<close>: one \<open>recv\<close>, then cancel on a timeout, remove on another error, and drop.\<close>

definition request_finish :: "u64 \<Rightarrow> connection \<Rightarrow> frame result \<times> connection" where
  "request_finish i s = (case pending_recv i s of
      (Inr f, s) \<Rightarrow> (Inr f, pending_drop i s)
    | (Inl e, s) \<Rightarrow> (Inl e, pending_drop i
        (if err_kind e = TimedOut then pending_cancel i s else pending_remove i s)))"

section \<open>The transition system\<close>

inductive conn_step :: "connection \<Rightarrow> connection \<Rightarrow> bool" where
  reserve: "length nonce = 16 \<Longrightarrow> knd \<noteq> kind_STREAM_DATA \<Longrightarrow>
    conn_step s (snd (begin_reserve wt n1 n2 knd code nonce deadline payload s))"
| register: "conn_step s (snd (begin_register wt now s))"
| finish: "conn_step s (snd (begin_finish written s))"
| stream_reserve: "conn_step s (snd (begin_stream_reserve wt n1 n2 code payload deadline s))"
| stream_register: "conn_step s (snd (begin_stream_register s))"
| stream_finish: "conn_step s (snd (begin_stream_finish written s))"
| reader: "conn_step s (reader_step r s)"
| writer: "conn_step s (writer_step written s)"
| keepalive: "conn_step s (keepalive_step s)"
| request_end: "conn_step s (snd (request_finish i s))"
| recv: "conn_step s (snd (pending_recv i s))"
| send: "conn_step s (snd (pending_send knd code i payload s))"
| abort: "conn_step s (pending_abort status i s)"
| drop_request: "conn_step s (pending_drop i s)"
| stream_receive: "conn_step s (snd (stream_recv i s))"
| stream_transmit: "conn_step s (snd (stream_send i payload s))"
| stream_end: "conn_step s (snd (stream_close i s))"
| drop_stream: "conn_step s (stream_drop i s)"
| close_begin: "conn_step s (close_start s)"
| close_end: "conn_step s (close_finish s)"

section \<open>The invariant\<close>

fun is_final :: "reply \<Rightarrow> bool" where
  "is_final (Reply f) = is_terminal_response (f_kind f)"
| "is_final (Failure m) = True"

fun request_ids :: "writer_command list \<Rightarrow> u64 list" where
  "request_ids [] = []"
| "request_ids (WriteRequest f n # cs) = f_id f # request_ids cs"
| "request_ids (c # cs) = request_ids cs"

abbreviation written_ids :: "connection \<Rightarrow> u64 list" where
  "written_ids s \<equiv> request_ids (cn_wire s @ cn_control s)"

definition issued :: "u64 \<Rightarrow> connection \<Rightarrow> bool" where
  "issued i s = (0 < i \<and> i < cn_next_id s)"

definition fresh :: "u64 \<Rightarrow> connection \<Rightarrow> bool" where
  "fresh i s = (issued i s \<and> i \<notin> cn_pending s \<and> cn_inbox s i = [] \<and> (\<forall>j\<in>set (written_ids s). j < i))"

definition order_inv :: "connection \<Rightarrow> bool" where
  "order_inv s = (case cn_order s of
      Some (ReservedRequest f) \<Rightarrow> fresh (f_id f) s \<and> f_kind f \<noteq> kind_STREAM_DATA
    | Some (ReservedStream i r) \<Rightarrow> fresh i s \<and> (\<forall>f. r = Inr f \<longrightarrow> f_id f = i \<and> f_kind f \<noteq> kind_STREAM_DATA)
    | _ \<Rightarrow> True)"

definition ids_inv :: "connection \<Rightarrow> bool" where
  "ids_inv s = (cn_next_id s \<noteq> 0 \<and> (\<forall>i\<in>cn_pending s. issued i s)
     \<and> (\<forall>i. \<not> issued i s \<longrightarrow> cn_inbox s i = []))"

definition channel_ok :: "u64 \<Rightarrow> reply list \<Rightarrow> bool" where
  "channel_ok i rs = ((\<forall>f. Reply f \<in> set rs \<longrightarrow> f_id f = i) \<and> (\<forall>r\<in>set (butlast rs). \<not> is_final r))"

definition inbox_inv :: "connection \<Rightarrow> bool" where
  "inbox_inv s = (\<forall>i. channel_ok i (cn_inbox s i)
     \<and> (i \<in> cn_pending s \<longrightarrow> (\<forall>r\<in>set (cn_inbox s i). \<not> is_final r)))"

definition writer_inv :: "connection \<Rightarrow> bool" where
  "writer_inv s = (sorted_wrt (<) (written_ids s) \<and> (\<forall>j\<in>set (written_ids s). issued j s)
     \<and> request_ids (cn_media s) = []
     \<and> cn_budget s + queued_units (cn_control s @ cn_media s) = WRITER_BUDGET_BYTES div WRITER_BUDGET_UNIT)"

definition conn_inv :: "connection \<Rightarrow> bool" where
  "conn_inv s = (order_inv s \<and> ids_inv s \<and> inbox_inv s \<and> writer_inv s)"

lemmas conn_inv_defs = conn_inv_def order_inv_def ids_inv_def inbox_inv_def writer_inv_def fresh_def issued_def

definition reserved :: "connection \<Rightarrow> bool" where
  "reserved s = (case cn_order s of Some (ReservedRequest f) \<Rightarrow> True | Some (ReservedStream i r) \<Rightarrow> True | _ \<Rightarrow> False)"

text \<open>No step of the connection puts anything on a queue or takes an identifier.\<close>

definition drained :: "connection \<Rightarrow> connection \<Rightarrow> bool" where
  "drained s s' = ((\<exists>xs. cn_control s = xs @ cn_control s') \<and> (\<exists>ys. cn_media s = ys @ cn_media s')
     \<and> cn_next_id s' = cn_next_id s)"

text \<open>A query that is reserved, registered, written and answered.\<close>

definition sample_query :: frame where
  "sample_query = \<lparr>f_kind = kind_QUERY, f_flags = 0, f_code = 1, f_id = 1, f_request_nonce = replicate 16 0,
     f_deadline_ms = 0, f_payload = []\<rparr>"

definition sample_reserved :: connection where
  "sample_reserved = connection_start\<lparr>cn_next_id := 2, cn_order := Some (ReservedRequest sample_query), cn_live := {1}\<rparr>"

definition sample_queued :: "bool \<Rightarrow> connection" where
  "sample_queued c = sample_reserved\<lparr>cn_pending := {1}, cn_order := Some (QueuedRequest sample_query),
     cn_active := {1}, cn_closed := c, cn_budget := 1023, cn_control := [WriteRequest sample_query 1]\<rparr>"

definition sample_result :: frame where
  "sample_result = sample_query\<lparr>f_kind := kind_RESULT, f_code := 200\<rparr>"

definition sample_answered :: connection where
  "sample_answered = (sample_queued False)\<lparr>cn_pending := {}, cn_inbox := (\<lambda>_. [])(1 := [Reply sample_result])\<rparr>"

section \<open>Lemmas\<close>

lemma request_ids_append [simp]: "request_ids (xs @ ys) = request_ids xs @ request_ids ys"
  by (induction xs rule: request_ids.induct) auto

lemma queued_units_simps [simp]: "queued_units [] = 0"
  "queued_units (c # cs) = command_units c + queued_units cs"
  "queued_units (xs @ ys) = queued_units xs + queued_units ys"
  by (simp_all add: queued_units_def)

lemma channel_ok_Nil [simp]: "channel_ok i []"
  by (simp add: channel_ok_def)

lemma channel_ok_snoc:
  assumes "channel_ok i rs" "\<forall>r\<in>set rs. \<not> is_final r" "\<And>f. r = Reply f \<Longrightarrow> f_id f = i"
  shows "channel_ok i (rs @ [r])"
  using assms by (auto simp: channel_ok_def)

text \<open>The fields the invariant does not look at.\<close>

lemma conn_inv_frame [simp]:
  "conn_inv (s\<lparr>cn_live := v\<rparr>) = conn_inv s" "conn_inv (s\<lparr>cn_active := v\<rparr>) = conn_inv s"
  "conn_inv (s\<lparr>cn_read := w\<rparr>) = conn_inv s" "conn_inv (s\<lparr>cn_events := e\<rparr>) = conn_inv s"
  "conn_inv (s\<lparr>cn_closed := b\<rparr>) = conn_inv s" "conn_inv (s\<lparr>cn_closing := b\<rparr>) = conn_inv s"
  "conn_inv (s\<lparr>cn_writer := b\<rparr>) = conn_inv s"
  by (simp_all add: conn_inv_defs cong: option.case_cong order.case_cong)

lemma order_inv_mono:
  "order_inv s \<Longrightarrow> cn_order s' = cn_order s \<Longrightarrow> (\<And>i. fresh i s \<Longrightarrow> fresh i s') \<Longrightarrow> order_inv s'"
  by (auto simp: order_inv_def split: option.splits order.splits)

lemma conn_invI:
  assumes "conn_inv s" "cn_order s' = cn_order s" "\<And>i. fresh i s \<Longrightarrow> fresh i s'"
    "ids_inv s \<Longrightarrow> ids_inv s'" "ids_inv s \<Longrightarrow> inbox_inv s \<Longrightarrow> inbox_inv s'" "writer_inv s \<Longrightarrow> writer_inv s'"
  shows "conn_inv s'"
  using assms order_inv_mono [of s s'] by (simp add: conn_inv_def)

lemmas conn_parts = ids_inv_def inbox_inv_def writer_inv_def fresh_def issued_def

lemma conn_inv_unlock: "conn_inv s \<Longrightarrow> conn_inv (s\<lparr>cn_order := None\<rparr>)"
  by (simp add: conn_inv_defs)

lemma conn_inv_remove: "conn_inv s \<Longrightarrow> conn_inv (remove_pending i s)"
  by (auto simp: conn_inv_defs remove_pending_def split: option.splits order.splits)

lemma conn_inv_handle [simp]: "conn_inv (deactivate i s) = conn_inv s" "conn_inv (consume i s) = conn_inv s"
  by (simp_all add: deactivate_def consume_def)

lemma conn_inv_wait: "conn_inv s \<Longrightarrow> issued i s \<Longrightarrow> cn_inbox s i = [] \<Longrightarrow>
    q \<in> {None, Some (QueuedRequest f), Some (QueuedStream f)} \<Longrightarrow>
    conn_inv (s\<lparr>cn_pending := insert i (cn_pending s), cn_order := q\<rparr>)"
  by (auto simp: conn_inv_defs)

lemma conn_inv_write:
  assumes "conn_inv s" shows "conn_inv (snd (enqueue_command WriteFrame f s))"
  using assms by (rule conn_invI) (auto simp: enqueue_command_def conn_parts)

lemma conn_inv_control: "conn_inv s \<Longrightarrow> conn_inv (snd (write_control f s))"
  by (simp add: write_control_def conn_inv_write)

lemma conn_inv_request:
  assumes "conn_inv s" "issued (f_id f) s" "\<forall>j\<in>set (written_ids s). j < f_id f"
    "f_kind f \<noteq> kind_STREAM_DATA" "cn_order s \<in> {Some (QueuedRequest g), Some (QueuedStream g)}"
  shows "conn_inv (snd (enqueue_command WriteRequest f s))"
  using assms
  by (auto simp: enqueue_command_def conn_inv_defs sorted_wrt_append)

lemma conn_inv_fail_pending:
  assumes "conn_inv s" shows "conn_inv (fail_pending m s)"
  using assms by (rule conn_invI) (auto simp: fail_pending_def conn_parts intro!: channel_ok_snoc)

lemma conn_inv_fail: "conn_inv s \<Longrightarrow> conn_inv (fail m s)"
  by (simp add: fail_def conn_inv_fail_pending)

lemma conn_inv_cancel: "conn_inv s \<Longrightarrow> conn_inv (cancel i s)"
  by (simp add: cancel_def conn_inv_control conn_inv_remove split: sum.split)

lemma conn_inv_send: "conn_inv s \<Longrightarrow> conn_inv (snd (pending_send knd code i payload s))"
  by (simp add: pending_send_def conn_inv_control split: sum.split)

lemma conn_inv_deliver:
  assumes "conn_inv s" "i \<in> cn_pending s" "f_id f = i"
  shows "conn_inv (deliver i (Reply f) (if is_terminal_response (f_kind f) then remove_pending i s else s))"
  using assms(1)
  by (rule conn_invI) (use assms(2,3) in \<open>auto simp: conn_parts deliver_def remove_pending_def intro!: channel_ok_snoc\<close>)

lemma writer_take_cases:
  assumes "writer_take s = Some (c, s')"
  obtains (control) cs where "cn_control s = c # cs" "s' = s\<lparr>cn_control := cs\<rparr>"
    | (media) cs where "cn_control s = []" "cn_media s = c # cs" "s' = s\<lparr>cn_media := cs\<rparr>"
  using assms by (auto simp: writer_take_def split: list.splits)

lemma request_ids_Cons: "request_ids (c # cs) = request_ids [c] @ request_ids cs"
  using request_ids_append [of "[c]" cs] by simp

lemma conn_inv_drop_command:
  assumes "conn_inv s" "writer_take s = Some (c, s')"
  shows "conn_inv (s'\<lparr>cn_budget := cn_budget s' + command_units c\<rparr>)"
  using assms(2)
proof (cases rule: writer_take_cases)
  case (control cs)
  then show ?thesis
    by (intro conn_invI [OF assms(1)])
      (auto simp: conn_parts sorted_wrt_append request_ids_Cons [of c cs])
next
  case (media cs)
  then show ?thesis
    by (intro conn_invI [OF assms(1)]) (auto simp: conn_parts request_ids_Cons [of c cs])
qed

lemma conn_inv_write_command:
  assumes "conn_inv s" "writer_take s = Some (c, s')"
  shows "conn_inv (s'\<lparr>cn_budget := cn_budget s' + command_units c, cn_wire := cn_wire s' @ [c]\<rparr>)"
  using assms(2)
proof (cases rule: writer_take_cases)
  case (control cs)
  then show ?thesis
    by (intro conn_invI [OF assms(1)]) (auto simp: conn_parts request_ids_Cons [of c cs])
next
  case (media cs)
  moreover from this assms(1) have "request_ids [c] = []"
    by (simp add: conn_inv_def writer_inv_def request_ids_Cons [of c cs])
  ultimately show ?thesis
    by (intro conn_invI [OF assms(1)]) (auto simp: conn_parts request_ids_Cons [of c cs])
qed

lemma conn_inv_return: assumes "conn_inv s" shows "conn_inv (writer_return s)"
  using assms by (rule conn_invI) (auto simp: conn_parts writer_return_def sorted_wrt_append)

lemmas conn_inv_intros = conn_inv_unlock conn_inv_remove conn_inv_control conn_inv_fail_pending conn_inv_fail
  conn_inv_cancel conn_inv_send conn_inv_return

lemma deadline_timeout_0 [simp]: "deadline_timeout now 0 fb = Inr fb"
  by (simp add: deadline_timeout_def)

lemma admit_Inr:
  assumes "admit slot lock wt n1 n2 deadline s = Inr i"
  shows "i = cn_next_id s" "i \<noteq> 0" "i \<noteq> - 1" "\<not> cn_closed s" "cn_order s = None" "card (cn_live s) < MAX_IN_FLIGHT"
  using assms by (auto simp: admit_def result_simps split: if_splits)

lemma word_less_succ:
  assumes "(i :: u64) \<noteq> - 1" shows "(j < i + 1) = (j \<le> i)"
proof -
  have "i + 1 \<noteq> 0" using assms by (metis add.commute eq_neg_iff_add_eq_0)
  then have "unat (i + 1) = Suc (unat i)" by (metis Suc_eq_plus1 add.commute unatSuc)
  then show ?thesis by (simp add: word_less_nat_alt word_le_nat_alt less_Suc_eq_le)
qed

lemma conn_inv_advance:
  assumes "conn_inv s" "cn_next_id s \<noteq> - 1" "cn_order s = None"
    "q = None \<or> (\<exists>f. q = Some (ReservedRequest f) \<and> f_id f = cn_next_id s \<and> f_kind f \<noteq> kind_STREAM_DATA)
     \<or> (\<exists>r. q = Some (ReservedStream (cn_next_id s) r) \<and> (\<forall>f. r = Inr f \<longrightarrow> f_id f = cn_next_id s \<and> f_kind f \<noteq> kind_STREAM_DATA))"
  shows "conn_inv (s\<lparr>cn_next_id := cn_next_id s + 1, cn_order := q\<rparr>)"
proof -
  let ?s = "s\<lparr>cn_next_id := cn_next_id s + 1, cn_order := q\<rparr>"
  have mono: "issued i s \<Longrightarrow> issued i ?s" for i
    using assms(2) by (auto simp: issued_def word_less_succ)
  have "fresh (cn_next_id s) ?s"
    using assms(1,2) by (auto simp: conn_inv_defs word_less_succ word_neq_0_conv)
  then have "order_inv ?s" using assms(4) by (auto simp: order_inv_def)
  moreover have "ids_inv ?s"
  proof -
    have "cn_next_id s + 1 \<noteq> 0" using assms(2) by (metis add.commute eq_neg_iff_add_eq_0)
    then show ?thesis using assms(1) mono by (fastforce simp: conn_inv_def ids_inv_def)
  qed
  moreover have "inbox_inv ?s" "writer_inv ?s"
    using assms(1) mono by (auto simp: conn_inv_def inbox_inv_def writer_inv_def)
  ultimately show ?thesis by (simp add: conn_inv_def)
qed

lemma begin_reserve_inv:
  assumes "conn_inv s" "length nonce = 16" "knd \<noteq> kind_STREAM_DATA"
  shows "conn_inv (snd (begin_reserve wt n1 n2 knd code nonce deadline payload s))"
proof (cases "admit ''MST5 request timed out waiting for an in-flight slot''
        ''MST5 request timed out waiting for the record writer'' wt n1 n2 deadline s")
  case (Inl e)
  then show ?thesis using assms(1) by (simp add: begin_reserve_def)
next
  case (Inr i)
  note a = admit_Inr [OF Inr]
  have "conn_inv (s\<lparr>cn_next_id := i + 1, cn_order := None\<rparr>)"
    using conn_inv_advance [OF assms(1), of None] a by simp
  moreover have "s\<lparr>cn_next_id := i + 1, cn_order := None\<rparr> = s\<lparr>cn_next_id := i + 1\<rparr>"
    using a(5) by (intro connection.equality) simp_all
  ultimately have skip: "conn_inv (s\<lparr>cn_next_id := i + 1\<rparr>)" by simp
  show ?thesis
  proof (cases "frame_request knd code i nonce deadline payload")
    case (Inl e)
    then show ?thesis using skip \<open>admit _ _ _ _ _ _ _ = _\<close> by (simp add: begin_reserve_def)
  next
    case (Inr f)
    then have "f_id f = i" "f_kind f \<noteq> kind_STREAM_DATA"
      using frame_request_wf [OF Inr assms(2)] assms(3) by auto
    then have "conn_inv (s\<lparr>cn_next_id := i + 1, cn_order := Some (ReservedRequest f)\<rparr>)"
      using conn_inv_advance [OF assms(1), of "Some (ReservedRequest f)"] a by simp
    then show ?thesis using Inr \<open>admit _ _ _ _ _ _ _ = _\<close>
      by (simp add: begin_reserve_def)
  qed
qed

lemma begin_stream_reserve_inv:
  assumes "conn_inv s"
  shows "conn_inv (snd (begin_stream_reserve wt n1 n2 code payload deadline s))"
proof (cases "admit ''MST5 stream slot timed out''
        ''MST5 stream timed out waiting for the record writer'' wt n1 n2 deadline s")
  case (Inl e)
  then show ?thesis using assms by (simp add: begin_stream_reserve_def)
next
  case (Inr i)
  note a = admit_Inr [OF Inr]
  let ?r = "frame_request kind_STREAM_OPEN code i (replicate 16 0) deadline payload"
  have "\<forall>f. ?r = Inr f \<longrightarrow> f_id f = i \<and> f_kind f \<noteq> kind_STREAM_DATA"
    using frame_request_wf [of kind_STREAM_OPEN code i "replicate 16 0" deadline payload] by (simp add: const_defs)
  then have "conn_inv (s\<lparr>cn_next_id := i + 1, cn_order := Some (ReservedStream i ?r)\<rparr>)"
    using conn_inv_advance [OF assms, of "Some (ReservedStream i ?r)"] a by auto
  then have "conn_inv (s\<lparr>cn_next_id := i + 1, cn_order := Some (ReservedStream i ?r), cn_live := insert i (cn_live s)\<rparr>)"
    by simp
  then show ?thesis using Inr by (simp add: begin_stream_reserve_def)
qed

text \<open>Registering and queueing: the frame of the lock holder is newer than every request queued before.\<close>

lemma conn_inv_submit:
  assumes "conn_inv s" "fresh (f_id f) s" "f_kind f \<noteq> kind_STREAM_DATA"
    "q \<in> {Some (QueuedRequest f), Some (QueuedStream f)}"
  shows "conn_inv (snd (enqueue_command WriteRequest f (s\<lparr>cn_pending := insert (f_id f) (cn_pending s), cn_order := q\<rparr>)))"
proof (rule conn_inv_request)
  show "conn_inv (s\<lparr>cn_pending := insert (f_id f) (cn_pending s), cn_order := q\<rparr>)"
    using conn_inv_wait [OF assms(1), of "f_id f" q f] assms(2,4) by (auto simp: fresh_def)
qed (use assms in \<open>auto simp: fresh_def issued_def\<close>)

lemma enqueue_command_active:
  "enqueue_command mk f (s\<lparr>cn_active := v\<rparr>) =
   (fst (enqueue_command mk f s), (snd (enqueue_command mk f s))\<lparr>cn_active := v\<rparr>)"
  by (simp add: enqueue_command_def)

lemma begin_register_inv:
  assumes "conn_inv s"
  shows "conn_inv (snd (begin_register wt now s))"
proof (cases "\<exists>f. cn_order s = Some (ReservedRequest f)")
  case True
  then obtain f where f: "cn_order s = Some (ReservedRequest f)" by blast
  with assms have fr: "fresh (f_id f) s" "f_kind f \<noteq> kind_STREAM_DATA" by (simp_all add: conn_inv_def order_inv_def)
  let ?t = "s\<lparr>cn_pending := insert (f_id f) (cn_pending s), cn_order := Some (QueuedRequest f)\<rparr>"
  obtain r u where q: "enqueue_command WriteRequest f ?t = (r, u)" by fastforce
  have "conn_inv u" using conn_inv_submit [OF assms fr, of "Some (QueuedRequest f)"] q by simp
  moreover have "enqueue_command WriteRequest f (?t\<lparr>cn_active := insert (f_id f) (cn_active s)\<rparr>) =
      (r, u\<lparr>cn_active := insert (f_id f) (cn_active s)\<rparr>)"
    by (simp only: enqueue_command_active q fst_conv snd_conv)
  moreover have "conn_inv (s\<lparr>cn_pending := insert (f_id f) (cn_pending s), cn_order := None\<rparr>)"
    using conn_inv_wait [OF assms, of "f_id f" None f] fr by (simp add: fresh_def)
  ultimately show ?thesis
    by (auto simp: begin_register_def f intro!: conn_inv_intros split: sum.splits)
next
  case False
  then show ?thesis using assms by (auto simp: begin_register_def split: option.splits order.splits)
qed

lemma begin_stream_register_inv:
  assumes "conn_inv s"
  shows "conn_inv (snd (begin_stream_register s))"
proof (cases "\<exists>i r. cn_order s = Some (ReservedStream i r)")
  case True
  then obtain i r where i: "cn_order s = Some (ReservedStream i r)" by blast
  with assms have fr: "fresh i s" "\<And>f. r = Inr f \<Longrightarrow> f_id f = i \<and> f_kind f \<noteq> kind_STREAM_DATA"
    by (simp_all add: conn_inv_def order_inv_def)
  have leak: "conn_inv (s\<lparr>cn_pending := insert i (cn_pending s), cn_order := None\<rparr>)"
    using conn_inv_wait [OF assms, of i None] fr by (simp add: fresh_def)
  show ?thesis
  proof (cases r)
    case (Inl e)
    then show ?thesis using leak by (simp add: begin_stream_register_def i)
  next
    case (Inr f)
    then have "conn_inv (snd (enqueue_command WriteRequest f
        (s\<lparr>cn_pending := insert i (cn_pending s), cn_order := Some (QueuedStream f)\<rparr>)))"
      using conn_inv_submit [OF assms, of f "Some (QueuedStream f)"] fr by auto
    then show ?thesis using Inr
      by (auto simp: begin_stream_register_def i intro!: conn_inv_intros split: sum.splits prod.splits)
  qed
next
  case False
  then show ?thesis using assms by (auto simp: begin_stream_register_def split: option.splits order.splits)
qed

lemma begin_finish_inv: "conn_inv s \<Longrightarrow> conn_inv (snd (begin_finish written s))"
  by (auto simp: begin_finish_def intro!: conn_inv_intros split: option.splits order.splits sum.splits)

lemma begin_stream_finish_inv: "conn_inv s \<Longrightarrow> conn_inv (snd (begin_stream_finish written s))"
  by (auto simp: begin_stream_finish_def intro!: conn_inv_intros split: option.splits order.splits sum.splits)

lemma dispatch_inv: "conn_inv s \<Longrightarrow> conn_inv (snd (dispatch f s))"
  by (auto simp: dispatch_def conn_inv_deliver intro: conn_inv_control split: sum.splits
      dest: conn_inv_deliver [where f = f])

lemma reader_step_inv: "conn_inv s \<Longrightarrow> conn_inv (reader_step r s)"
  using dispatch_inv by (auto simp: reader_step_def case_prod_unfold intro!: conn_inv_fail split: sum.splits option.splits)

lemma writer_step_inv:
  assumes "conn_inv s" shows "conn_inv (writer_step written s)"
  using assms by (auto simp: writer_step_def case_prod_unfold intro!: conn_inv_return conn_inv_fail
      conn_inv_drop_command conn_inv_write_command split: sum.splits option.splits)

lemma keepalive_step_inv: "conn_inv s \<Longrightarrow> conn_inv (keepalive_step s)"
  by (auto simp: keepalive_step_def case_prod_unfold intro!: conn_inv_fail conn_inv_control split: sum.splits)

lemma pending_recv_inv: "conn_inv s \<Longrightarrow> conn_inv (snd (pending_recv i s))"
  by (auto simp: pending_recv_def split: option.splits reply.splits)

lemma pending_handle_inv:
  assumes "conn_inv s"
  shows "conn_inv (pending_abort status i s)" "conn_inv (pending_cancel i s)" "conn_inv (pending_remove i s)"
    "conn_inv (pending_drop i s)" "conn_inv (stream_drop i s)"
  using assms by (auto simp: pending_abort_def pending_cancel_def pending_remove_def pending_drop_def stream_drop_def
      Let_def intro!: conn_inv_intros)

lemma request_finish_inv: "conn_inv s \<Longrightarrow> conn_inv (snd (request_finish i s))"
  using pending_recv_inv by (auto simp: request_finish_def case_prod_unfold intro!: pending_handle_inv split: sum.splits)

lemma stream_handle_inv:
  assumes "conn_inv s"
  shows "conn_inv (snd (stream_recv i s))" "conn_inv (snd (stream_send i payload s))" "conn_inv (snd (stream_close i s))"
  using assms by (auto simp: stream_recv_def stream_send_def stream_close_def case_prod_unfold Let_def
      intro!: conn_inv_intros split: option.splits reply.splits)

lemma close_inv:
  assumes "conn_inv s" shows "conn_inv (close_start s)" "conn_inv (close_finish s)"
proof -
  have "conn_inv (s\<lparr>cn_control := cn_control s @ [WriteClose]\<rparr>)"
    using assms by (rule conn_invI) (auto simp: conn_parts)
  then have "conn_inv (s\<lparr>cn_control := cn_control s @ [WriteClose], cn_closed := True, cn_closing := True\<rparr>)" by simp
  moreover have "s\<lparr>cn_control := cn_control s @ [WriteClose], cn_closed := True, cn_closing := True\<rparr> =
      s\<lparr>cn_closed := True, cn_closing := True, cn_control := cn_control s @ [WriteClose]\<rparr>"
    by (intro connection.equality) simp_all
  ultimately show "conn_inv (close_start s)" using assms by (auto simp: close_start_def)
  show "conn_inv (close_finish s)" using assms by (auto simp: close_finish_def intro!: conn_inv_intros)
qed

lemmas step_inv = begin_reserve_inv begin_register_inv begin_finish_inv begin_stream_reserve_inv
  begin_stream_register_inv begin_stream_finish_inv reader_step_inv writer_step_inv keepalive_step_inv
  request_finish_inv pending_recv_inv conn_inv_send pending_handle_inv stream_handle_inv close_inv

lemma conn_inv_start: "conn_inv connection_start"
  by (simp add: conn_inv_defs connection_start_def const_defs)

interpretation connection_system: invariant_system "\<lambda>s. s = connection_start" conn_step conn_inv
proof unfold_locales
  show "conn_inv s" if "s = connection_start" for s using that conn_inv_start by simp
  show "conn_inv s'" if "conn_inv s" "conn_step s s'" for s s'
    using that(2,1) by cases (auto intro: step_inv)
qed

abbreviation conn_reachable :: "connection \<Rightarrow> bool" where
  "conn_reachable \<equiv> reachable (\<lambda>s. s = connection_start) conn_step"

section \<open>Properties\<close>

lemma drained_refl [simp]: "drained s s"
  by (simp add: drained_def)

lemma drained_frame [simp]:
  "drained s (s'\<lparr>cn_live := v\<rparr>) = drained s s'" "drained s (s'\<lparr>cn_active := v\<rparr>) = drained s s'"
  "drained s (s'\<lparr>cn_order := q\<rparr>) = drained s s'" "drained s (remove_pending i s') = drained s s'"
  "drained s (deactivate i s') = drained s s'" "drained s (consume i s') = drained s s'"
  "drained s (deliver i r s') = drained s s'" "drained s (s'\<lparr>cn_events := e\<rparr>) = drained s s'"
  "drained s (fail_pending m s') = drained s s'" "drained s (s'\<lparr>cn_closing := b\<rparr>) = drained s s'"
  by (simp_all add: drained_def remove_pending_def deactivate_def consume_def deliver_def fail_pending_def)

lemma closed_frame [simp]:
  "cn_closed (remove_pending i s) = cn_closed s" "cn_closed (deactivate i s) = cn_closed s"
  "cn_closed (consume i s) = cn_closed s" "cn_closed (deliver i r s) = cn_closed s"
  "cn_closed (fail_pending m s) = cn_closed s" "cn_active (deactivate i s) = cn_active s - {i}"
  by (simp_all add: remove_pending_def deactivate_def consume_def deliver_def fail_pending_def)

lemma closed_quiet:
  assumes "cn_closed s"
  shows "write_control f s = (Inl closed_error, s)" "fail m s = s" "cancel i s = remove_pending i s"
    "snd (pending_send knd code i payload s) = s"
  using assms by (auto simp: write_control_def fail_def cancel_def pending_send_def split: sum.splits)

lemma closed_handles:
  assumes "cn_closed s"
  shows "drained s (pending_abort status i s)" "cn_closed (pending_abort status i s)"
    "drained s (pending_cancel i s)" "cn_closed (pending_cancel i s)"
    "drained s (pending_remove i s)" "cn_closed (pending_remove i s)"
    "drained s (snd (pending_recv i s))" "cn_closed (snd (pending_recv i s))"
  using assms by (auto simp: pending_abort_def pending_cancel_def pending_remove_def pending_recv_def closed_quiet
      split: option.splits reply.splits)

lemma drained_trans: "drained s s' \<Longrightarrow> drained s' s'' \<Longrightarrow> drained s s''"
  by (auto simp: drained_def)

lemma closed_drop:
  assumes "cn_closed s'" "drained s s'"
  shows "drained s (pending_drop i s')" "cn_closed (pending_drop i s')"
  using assms closed_handles [OF assms(1)] drained_trans by (auto simp: pending_drop_def Let_def)

lemma closed_request_finish:
  assumes "cn_closed s"
  shows "drained s (snd (request_finish i s))" "cn_closed (snd (request_finish i s))"
proof -
  obtain r u where ru: "pending_recv i s = (r, u)" by fastforce
  then have u: "drained s u" "cn_closed u" using closed_handles(7,8) [OF assms, of i] by simp_all
  have "drained s (pending_cancel i u)" "drained s (pending_remove i u)"
    using u closed_handles [OF u(2)] drained_trans by blast+
  then show "drained s (snd (request_finish i s))" "cn_closed (snd (request_finish i s))"
    using u closed_handles [OF u(2)] by (auto simp: request_finish_def ru closed_drop split: sum.splits)
qed

lemma closed_reader: assumes "cn_closed s" shows "drained s (reader_step r s) \<and> cn_closed (reader_step r s)"
  using assms by (auto simp: reader_step_def dispatch_def closed_quiet split: sum.splits option.splits)

lemma closed_writer: assumes "cn_closed s" shows "drained s (writer_step w s) \<and> cn_closed (writer_step w s)"
  using assms by (auto simp: writer_step_def writer_take_def writer_return_def closed_quiet drained_def
      split: sum.splits option.splits list.splits)

lemma closed_begin:
  assumes "cn_closed s" "\<not> reserved s"
  shows "snd (begin_reserve wt n1 n2 knd code nonce deadline payload s) = s"
    "snd (begin_stream_reserve wt n1 n2 code payload deadline s) = s"
    "snd (begin_register wt now s) = s" "snd (begin_stream_register s) = s"
  using assms
  by (auto simp: begin_reserve_def begin_stream_reserve_def begin_register_def begin_stream_register_def reserved_def
      dest: admit_Inr(4) split: sum.splits option.splits order.splits)

text \<open>
  C23: in every reachable state the identifiers of the requests and streams that were written
  to the wire or wait in the control queue are strictly increasing, so no
  identifier is used twice and requests reach the server in the order in which
  they were numbered, whatever the interleaving of the tasks.
\<close>

theorem request_ids_ordered:
  assumes "conn_reachable s"
  shows "sorted_wrt (<) (request_ids (cn_wire s @ cn_control s))
    \<and> (\<forall>j\<in>set (request_ids (cn_wire s @ cn_control s)). 0 < j \<and> j < cn_next_id s)"
  using connection_system.inv_reachable [OF assms]
  by (simp add: conn_inv_def writer_inv_def issued_def)



text \<open>
  A closed connection stays closed, and unless a request has passed its closed check
  and is about to register, no step queues another command or takes another
  identifier: the writer queues only drain.
\<close>

theorem closed_is_final:
  assumes "conn_step s s'" "cn_closed s" "\<not> reserved s"
  shows "cn_closed s' \<and> drained s s'"
  using assms(1)
proof cases
  case (finish written)
  then show ?thesis using assms(2) by (auto simp: begin_finish_def closed_quiet split: option.splits order.splits sum.splits)
next
  case (stream_finish written)
  then show ?thesis using assms(2) by (auto simp: begin_stream_finish_def split: option.splits order.splits sum.splits)
qed (use assms(2,3) closed_handles [OF assms(2)] in \<open>auto simp: closed_begin closed_reader closed_writer keepalive_step_def
    closed_request_finish closed_quiet closed_drop [OF assms(2) drained_refl] stream_recv_def stream_send_def stream_close_def stream_drop_def
    Let_def case_prod_unfold close_start_def close_finish_def split: option.splits reply.splits\<close>)


text \<open>
  A frame of a kind the server must not send closes an open connection and sends
  every waiting request the protocol error; nothing stays pending.
\<close>

theorem protocol_error_fails_all:
  assumes "\<not> cn_closed s" "f_kind f \<noteq> kind_PING" "\<not> expected_server_kind (f_kind f)"
  shows "cn_closed (reader_step (Inr (Some f)) s) \<and> cn_pending (reader_step (Inr (Some f)) s) = {}
    \<and> (\<forall>i\<in>cn_pending s. cn_inbox (reader_step (Inr (Some f)) s) i =
         cn_inbox s i @ [Failure ''MST5 protocol error: unexpected MST5 server frame''])"
  using assms by (simp add: reader_step_def dispatch_def fail_def fail_pending_def invalid_data_def)

section \<open>Example runs\<close>

lemma sample_admit: "admit a b 0 0 0 0 connection_start = Inr 1"
  by (simp add: admit_def connection_start_def const_defs)

lemma sample_query_frame: "frame_request kind_QUERY 1 1 (replicate 16 0) 0 [] = Inr sample_query"
  by (simp add: frame_request_def frame_new_def valid_kind_def sample_query_def const_defs)

lemma sample_reserve: "snd (begin_reserve 0 0 0 kind_QUERY 1 (replicate 16 0) 0 [] connection_start) = sample_reserved"
  by (simp add: begin_reserve_def sample_admit sample_query_frame sample_reserved_def)
     (simp add: connection_start_def)

lemma sample_reserved_reachable: "conn_reachable sample_reserved"
proof -
  have "kind_QUERY \<noteq> kind_STREAM_DATA" by (simp add: const_defs)
  then have "conn_step connection_start sample_reserved"
    using conn_step.reserve [of "replicate 16 0" kind_QUERY connection_start 0 0 0 1 0 "[]"] by (simp add: sample_reserve)
  then show ?thesis by (intro reach_step [where step = conn_step, OF reach_init]) auto
qed

lemma sample_register: "snd (begin_register 0 0 (sample_reserved\<lparr>cn_closed := c\<rparr>)) = sample_queued c"
  by (simp add: begin_register_def sample_reserved_def sample_query_def enqueue_command_def writer_units_def
      div_ceil_def const_defs connection_start_def sample_queued_def)

lemma sample_queued_reachable: "conn_reachable (sample_queued c)"
proof -
  have "conn_reachable (sample_reserved\<lparr>cn_closed := c\<rparr>)"
  proof (cases c)
    case True
    have "reader_step (Inr None) sample_reserved = sample_reserved\<lparr>cn_closed := True\<rparr>"
      by (simp add: reader_step_def fail_def fail_pending_def sample_reserved_def connection_start_def)
    then show ?thesis
      using reach_step [OF sample_reserved_reachable conn_step.reader [of _ "Inr None"]] True by simp
  next
    case False
    then have "sample_reserved\<lparr>cn_closed := c\<rparr> = sample_reserved"
      by (simp add: sample_reserved_def connection_start_def)
    then show ?thesis using sample_reserved_reachable by simp
  qed
  then have "conn_reachable (snd (begin_register 0 0 (sample_reserved\<lparr>cn_closed := c\<rparr>)))"
    by (rule reach_step) (rule conn_step.register)
  then show ?thesis by (simp only: sample_register)
qed

lemma sample_answer: "reader_step (Inr (Some sample_result)) (sample_queued False) = sample_answered"
  by (simp add: reader_step_def dispatch_def expected_server_kind_def is_terminal_response_def deliver_def
      remove_pending_def sample_answered_def sample_queued_def sample_reserved_def sample_result_def sample_query_def
      connection_start_def const_defs)

lemma sample_answered_reachable: "conn_reachable sample_answered"
  using reach_step [OF sample_queued_reachable conn_step.reader [of _ "Inr (Some sample_result)"]] sample_answer by metis

theorem request_ids_ordered_witness:
  "conn_reachable (sample_queued False) \<and> request_ids (cn_wire (sample_queued False) @ cn_control (sample_queued False)) = [1]
   \<and> (0 :: u64) < 1 \<and> 1 < cn_next_id (sample_queued False)"
  using sample_queued_reachable [of False] request_ids_ordered [OF sample_queued_reachable [of False]]
  by (simp add: sample_queued_def sample_reserved_def sample_query_def connection_start_def)



theorem closed_is_final_witness:
  "cn_closed (sample_queued True) \<and> drained (sample_queued True) (writer_step (Inr ()) (sample_queued True))
   \<and> cn_wire (writer_step (Inr ()) (sample_queued True)) = [WriteRequest sample_query 1]"
proof -
  have "cn_closed (sample_queued True)" "\<not> reserved (sample_queued True)"
    "cn_wire (writer_step (Inr ()) (sample_queued True)) = [WriteRequest sample_query 1]"
    by (simp_all add: sample_queued_def reserved_def writer_step_def writer_take_def sample_reserved_def connection_start_def)
  then show ?thesis using closed_is_final [OF conn_step.writer [of "sample_queued True" "Inr ()"]] by simp
qed


theorem protocol_error_fails_all_witness:
  "1 \<in> cn_pending (sample_queued False)
   \<and> cn_inbox (reader_step (Inr (Some (sample_query\<lparr>f_kind := 0\<rparr>))) (sample_queued False)) 1 =
       [Failure ''MST5 protocol error: unexpected MST5 server frame'']"
proof -
  let ?f = "sample_query\<lparr>f_kind := 0\<rparr>"
  have "f_kind ?f \<noteq> kind_PING" "\<not> expected_server_kind (f_kind ?f)" "\<not> cn_closed (sample_queued False)"
    by (simp_all add: expected_server_kind_def sample_queued_def const_defs)
  moreover have "1 \<in> cn_pending (sample_queued False)" "cn_inbox (sample_queued False) 1 = []"
    by (simp_all add: sample_queued_def sample_reserved_def connection_start_def)
  ultimately show ?thesis using protocol_error_fails_all [of "sample_queued False" ?f] by auto
qed

text \<open>
  A request whose sender is registered after the reader task has closed the connection is
  not told: a reachable state is closed, its request is pending with an empty
  channel, and neither a later failure nor the writer will ever send it anything.
\<close>

lemma close_race:
  "\<exists>s i. conn_reachable s \<and> cn_closed s \<and> i \<in> cn_pending s \<and> cn_inbox s i = []
     \<and> fail m s = s \<and> cn_inbox (close_finish (close_start s)) i = [] \<and> cn_inbox (writer_step (Inr ()) s) i = []"
proof -
  have "cn_closed (sample_queued True)" "1 \<in> cn_pending (sample_queued True)" "cn_inbox (sample_queued True) 1 = []"
    "cn_inbox (close_finish (close_start (sample_queued True))) 1 = []"
    "cn_inbox (writer_step (Inr ()) (sample_queued True)) 1 = []"
    by (simp_all add: sample_queued_def sample_reserved_def connection_start_def close_finish_def close_start_def
        writer_step_def writer_take_def)
  then show ?thesis using sample_queued_reachable [of True] closed_quiet(2) [of "sample_queued True" m] by blast
qed

end
