(* ===== verification/E2e.thy ===== *)
theory E2e
  imports Handshake Text
begin

text \<open>
  The end-to-end message layer of \<open>src/e2e.rs\<close>: identities and session keys,
  envelopes of version 3 and 4, group envelopes, the compressed message
  encoding, password backups and the identity file.  XChaCha20-Poly1305,
  Argon2id and zstd are fields of the parameter \<open>E\<close>, next to SHA-256, HKDF and
  X25519; what the operating system's random generator returns is an argument.
\<close>

section \<open>External functions\<close>

record e2e_crypto = crypto +
  x_encrypt :: "bytes \<Rightarrow> bytes \<Rightarrow> bytes \<Rightarrow> bytes \<Rightarrow> bytes option"
  x_decrypt :: "bytes \<Rightarrow> bytes \<Rightarrow> bytes \<Rightarrow> bytes \<Rightarrow> bytes option"
  x_argon2 :: "bytes \<Rightarrow> bytes \<Rightarrow> bytes option"
  z_compress :: "bytes \<Rightarrow> bytes option"
  z_decompress :: "bytes \<Rightarrow> nat \<Rightarrow> bytes option"

text \<open>Decryption inverts encryption, and a ciphertext is 16 bytes longer than its message.\<close>

definition xaead_laws :: "'a e2e_crypto_scheme \<Rightarrow> bool" where
  "xaead_laws E \<longleftrightarrow> (\<forall>k n a m. length k = 32 \<longrightarrow> length n = 24 \<longrightarrow> length m < 2 ^ 32 \<longrightarrow>
     (\<exists>c. x_encrypt E k n a m = Some c \<and> length c = length m + 16 \<and> x_decrypt E k n a c = Some m))"

text \<open>A tag only verifies on the ciphertext the key, nonce and associated data give.\<close>

definition xaead_authentic :: "'a e2e_crypto_scheme \<Rightarrow> bool" where
  "xaead_authentic E \<longleftrightarrow> (\<forall>k n a m c. x_decrypt E k n a c = Some m \<longrightarrow>
     x_encrypt E k n a m = Some c \<and> length c = length m + 16)"

text \<open>Compression succeeds, never gives an empty frame, and is inverted under a limit that fits.\<close>

definition zstd_laws :: "'a e2e_crypto_scheme \<Rightarrow> bool" where
  "zstd_laws E \<longleftrightarrow> (\<forall>m. \<exists>c. z_compress E m = Some c \<and> c \<noteq> [] \<and> z_decompress E c (length m) = Some m)"

definition argon_laws :: "'a e2e_crypto_scheme \<Rightarrow> bool" where
  "argon_laws E \<longleftrightarrow> (\<forall>p s. length s = 16 \<longrightarrow> (\<exists>k. x_argon2 E p s = Some k \<and> length k = 32))"

section \<open>Constants and data\<close>

definition ENVELOPE_VERSION :: u8 where [const_defs]: "ENVELOPE_VERSION = 4"
definition LEGACY_ENVELOPE_VERSION :: u8 where [const_defs]: "LEGACY_ENVELOPE_VERSION = 3"
definition BACKUP_VERSION :: u8 where [const_defs]: "BACKUP_VERSION = 2"
definition IDENTITY_MAGIC :: bytes where "IDENTITY_MAGIC = as_bytes ''MST5E2E3''"
definition CONTEXT :: bytes where "CONTEXT = as_bytes ''ove-messenger-e2e-v3''"
definition MESSAGE_V4_CONTEXT :: bytes where "MESSAGE_V4_CONTEXT = as_bytes ''ove-messenger-e2e-v4''"
definition MESSAGE_V4_HEADER :: bytes where "MESSAGE_V4_HEADER = as_bytes ''M4TZ''"
definition MESSAGE_V4_ZSTD :: u8 where [const_defs]: "MESSAGE_V4_ZSTD = 1"
definition MESSAGE_COMPRESSION_THRESHOLD :: nat where [const_defs]: "MESSAGE_COMPRESSION_THRESHOLD = 1024"
definition MESSAGE_COMPRESSION_SAVINGS_NUMERATOR :: nat where [const_defs]: "MESSAGE_COMPRESSION_SAVINGS_NUMERATOR = 9"
definition MESSAGE_COMPRESSION_SAVINGS_DENOMINATOR :: nat where [const_defs]: "MESSAGE_COMPRESSION_SAVINGS_DENOMINATOR = 10"
definition MAX_MESSAGE_BYTES :: nat where [const_defs]: "MAX_MESSAGE_BYTES = 4 * 1024 * 1024"
definition MAX_COMPRESSION_RATIO :: nat where [const_defs]: "MAX_COMPRESSION_RATIO = 64"
definition BACKUP_CONTEXT :: bytes where "BACKUP_CONTEXT = as_bytes ''ove-messenger-e2e-backup-v2''"

record envelope =
  en_version :: u8
  en_nonce :: bytes
  en_ciphertext :: bytes

record group_envelope =
  ge_version :: u8
  ge_recipients :: "string \<rightharpoonup> envelope"

record e2e_backup =
  bk_version :: u8
  bk_salt :: bytes
  bk_nonce :: bytes
  bk_ciphertext :: bytes

record identity =
  id_private :: bytes
  id_public :: bytes

definition e2e_invalid :: "string \<Rightarrow> io_error" where
  "e2e_invalid m = IoError InvalidData m"

definition e2e_other :: "string \<Rightarrow> io_error" where
  "e2e_other m = IoError OtherError m"

definition random_bytes :: "bytes option \<Rightarrow> bytes result" where
  "random_bytes r = ok_or r (e2e_other ''OS randomness failed'')"

definition from_private :: "'a e2e_crypto_scheme \<Rightarrow> bytes \<Rightarrow> identity" where
  "from_private E p = \<lparr>id_private = p, id_public = c_public E p\<rparr>"

definition generate_identity :: "'a e2e_crypto_scheme \<Rightarrow> bytes option \<Rightarrow> identity result" where
  "generate_identity E r = rbind (random_bytes r) (\<lambda>p. Inr (from_private E p))"

section \<open>Session keys and associated data\<close>

text \<open>\<open>str\<close> comparison is the lexicographic order of the bytes.\<close>

fun bytes_le :: "bytes \<Rightarrow> bytes \<Rightarrow> bool" where
  "bytes_le [] ys = True"
| "bytes_le (x # xs) [] = False"
| "bytes_le (x # xs) (y # ys) = (x < y \<or> x = y \<and> bytes_le xs ys)"

definition ordered_ids :: "string \<Rightarrow> string \<Rightarrow> string \<times> string" where
  "ordered_ids l r = (if bytes_le (as_bytes l) (as_bytes r) then (l, r) else (r, l))"

definition session_key_with_label ::
    "'a e2e_crypto_scheme \<Rightarrow> identity \<Rightarrow> bytes \<Rightarrow> string \<Rightarrow> string \<Rightarrow> bytes \<Rightarrow> bytes result" where
  "session_key_with_label E idn peer_public l r label =
    (let shared = c_dh E (id_private idn) peer_public in
     if list_all (\<lambda>b. b = 0) shared then Inl (e2e_invalid ''invalid X25519 peer key'')
     else case ordered_ids l r of (a, b) \<Rightarrow>
       Inr (c_hkdf E (c_sha256 E (CONTEXT @ [0] @ as_bytes a @ [0] @ as_bytes b)) shared label 32))"

definition session_key :: "'a e2e_crypto_scheme \<Rightarrow> identity \<Rightarrow> bytes \<Rightarrow> string \<Rightarrow> string \<Rightarrow> bytes result" where
  "session_key E idn peer_public l r = session_key_with_label E idn peer_public l r (as_bytes ''message-key'')"

definition message_aad :: "string \<Rightarrow> string \<Rightarrow> bytes" where
  "message_aad a b = CONTEXT @ [0] @ as_bytes a @ [0] @ as_bytes b"

definition message_v4_aad :: "string \<Rightarrow> string \<Rightarrow> bytes" where
  "message_v4_aad a b = MESSAGE_V4_CONTEXT @ [0] @ as_bytes a @ [0] @ as_bytes b"

section \<open>The version 4 message encoding\<close>

definition e2e_zstd_compress :: "'a e2e_crypto_scheme \<Rightarrow> bytes \<Rightarrow> bytes result" where
  "e2e_zstd_compress E input = ok_or (z_compress E input) (e2e_other ''E2E zstd compression failed'')"

definition e2e_zstd_decompress :: "'a e2e_crypto_scheme \<Rightarrow> bytes \<Rightarrow> nat \<Rightarrow> bytes result" where
  "e2e_zstd_decompress E input limit =
    ok_or (z_decompress E input limit) (e2e_invalid ''invalid or oversized E2E v4 zstd payload'')"

definition worth_compressing :: "bytes \<Rightarrow> bytes \<Rightarrow> bool" where
  "worth_compressing plaintext compressed =
    (length compressed * MESSAGE_COMPRESSION_SAVINGS_DENOMINATOR
       \<le> length plaintext * MESSAGE_COMPRESSION_SAVINGS_NUMERATOR
     \<and> length plaintext \<le> length compressed * MAX_COMPRESSION_RATIO)"

definition encode_message_v4 :: "'a e2e_crypto_scheme \<Rightarrow> bytes \<Rightarrow> bytes result" where
  "encode_message_v4 E plaintext =
    (if length plaintext > MAX_MESSAGE_BYTES then Inl (e2e_invalid ''E2E message is too large'')
     else rbind
       (if length plaintext \<ge> MESSAGE_COMPRESSION_THRESHOLD
        then rbind (e2e_zstd_compress E plaintext) (\<lambda>compressed.
          Inr (if worth_compressing plaintext compressed then (MESSAGE_V4_ZSTD, compressed) else (0, plaintext)))
        else Inr (0, plaintext))
       (\<lambda>(flags, encoded).
          Inr (MESSAGE_V4_HEADER @ [flags] @ to_be_bytes (word_of_nat (length plaintext) :: u32) @ encoded)))"

definition message_v4_body :: "'a e2e_crypto_scheme \<Rightarrow> u8 \<Rightarrow> nat \<Rightarrow> bytes \<Rightarrow> bytes result" where
  "message_v4_body E flags original_len body =
    (if flags AND MESSAGE_V4_ZSTD \<noteq> 0 then
       (if body = [] then Inl (e2e_invalid ''empty E2E v4 zstd payload'')
        else rbind (e2e_zstd_decompress E body original_len) (\<lambda>out.
          if length out > length body * MAX_COMPRESSION_RATIO
          then Inl (e2e_invalid ''E2E v4 compression ratio exceeds limit'') else Inr out))
     else Inr body)"

definition decode_message_v4 :: "'a e2e_crypto_scheme \<Rightarrow> bytes \<Rightarrow> bytes result" where
  "decode_message_v4 E plaintext =
    (if length plaintext < 9 \<or> take 4 plaintext \<noteq> MESSAGE_V4_HEADER
     then Inl (e2e_invalid ''invalid E2E v4 message payload'')
     else let flags = plaintext ! 4; original_len = unat (from_be_bytes (take 4 (drop 5 plaintext)) :: u32) in
     if flags AND NOT MESSAGE_V4_ZSTD \<noteq> 0 then Inl (e2e_invalid ''unsupported E2E v4 message encoding'')
     else if original_len > MAX_MESSAGE_BYTES then Inl (e2e_invalid ''E2E v4 message is too large'')
     else rbind (message_v4_body E flags original_len (drop 9 plaintext)) (\<lambda>out.
       if length out \<noteq> original_len then Inl (e2e_invalid ''invalid E2E v4 message length'') else Inr out))"

section \<open>Envelopes\<close>

definition seal_envelope ::
    "'a e2e_crypto_scheme \<Rightarrow> bytes option \<Rightarrow> identity \<Rightarrow> bytes \<Rightarrow> string \<Rightarrow> string \<Rightarrow> bytes \<Rightarrow> envelope result" where
  "seal_envelope E random idn peer_public from_id to_id plaintext =
    rbind (session_key_with_label E idn peer_public from_id to_id (as_bytes ''message-v4-key'')) (\<lambda>key.
    rbind (random_bytes random) (\<lambda>nonce.
    rbind (encode_message_v4 E plaintext) (\<lambda>encoded.
    rbind (ok_or (x_encrypt E key nonce (message_v4_aad from_id to_id) encoded)
        (e2e_invalid ''E2E encryption failed'')) (\<lambda>ciphertext.
    Inr \<lparr>en_version = ENVELOPE_VERSION, en_nonce = nonce, en_ciphertext = ciphertext\<rparr>))))"

definition open_key_aad ::
    "'a e2e_crypto_scheme \<Rightarrow> identity \<Rightarrow> bytes \<Rightarrow> string \<Rightarrow> string \<Rightarrow> u8 \<Rightarrow> (bytes \<times> bytes) result" where
  "open_key_aad E idn peer_public from_id to_id version =
    (if version = LEGACY_ENVELOPE_VERSION then
       rbind (session_key E idn peer_public from_id to_id) (\<lambda>k. Inr (k, message_aad from_id to_id))
     else rbind (session_key_with_label E idn peer_public from_id to_id (as_bytes ''message-v4-key''))
       (\<lambda>k. Inr (k, message_v4_aad from_id to_id)))"

definition open_envelope ::
    "'a e2e_crypto_scheme \<Rightarrow> identity \<Rightarrow> bytes \<Rightarrow> string \<Rightarrow> string \<Rightarrow> envelope \<Rightarrow> bytes result" where
  "open_envelope E idn peer_public from_id to_id env =
    (if en_version env \<noteq> LEGACY_ENVELOPE_VERSION \<and> en_version env \<noteq> ENVELOPE_VERSION
        \<or> length (en_ciphertext env) < 16
     then Inl (e2e_invalid ''unsupported or invalid E2E envelope'')
     else rbind (open_key_aad E idn peer_public from_id to_id (en_version env)) (\<lambda>(key, aad).
       rbind (ok_or (x_decrypt E key (en_nonce env) aad (en_ciphertext env))
           (e2e_invalid ''E2E message authentication failed'')) (\<lambda>plaintext.
       if en_version env = LEGACY_ENVELOPE_VERSION then Inr plaintext else decode_message_v4 E plaintext)))"

text \<open>The loop of \<open>seal_group\<close>; \<open>randoms\<close> has what the generator returns for each envelope.\<close>

fun seal_recipients ::
    "'a e2e_crypto_scheme \<Rightarrow> identity \<Rightarrow> string \<Rightarrow> bytes \<Rightarrow> (string \<times> bytes) list \<Rightarrow> (nat \<Rightarrow> bytes option)
     \<Rightarrow> (string \<rightharpoonup> envelope) \<Rightarrow> (string \<rightharpoonup> envelope) result" where
  "seal_recipients E idn from_id plaintext [] randoms acc = Inr acc"
| "seal_recipients E idn from_id plaintext ((rid, pk) # rs) randoms acc =
    (if rid = [] \<or> length rid > 64 then Inl (e2e_invalid ''invalid group E2E recipient'')
     else rbind (seal_envelope E (randoms 0) idn pk from_id rid plaintext) (\<lambda>env.
       seal_recipients E idn from_id plaintext rs (\<lambda>i. randoms (Suc i)) (acc(rid \<mapsto> env))))"

definition seal_group ::
    "'a e2e_crypto_scheme \<Rightarrow> (nat \<Rightarrow> bytes option) \<Rightarrow> identity \<Rightarrow> (string \<times> bytes) list \<Rightarrow> string \<Rightarrow> bytes
     \<Rightarrow> group_envelope result" where
  "seal_group E randoms idn recipients from_id plaintext =
    (if recipients = [] \<or> length recipients > 256
     then Inl (e2e_invalid ''group E2E recipients must be 1..256'')
     else rbind (seal_recipients E idn from_id plaintext recipients randoms Map.empty) (\<lambda>envelopes.
       Inr \<lparr>ge_version = 5, ge_recipients = envelopes\<rparr>))"

definition open_group ::
    "'a e2e_crypto_scheme \<Rightarrow> identity \<Rightarrow> bytes \<Rightarrow> string \<Rightarrow> string \<Rightarrow> group_envelope \<Rightarrow> bytes result" where
  "open_group E idn sender_public sender_id recipient_id env =
    (if ge_version env \<noteq> 5 then Inl (e2e_invalid ''unsupported group E2E envelope'')
     else rbind (ok_or (ge_recipients env recipient_id) (e2e_invalid ''group E2E recipient is not present'')) (\<lambda>selected.
       open_envelope E idn sender_public sender_id recipient_id selected))"

section \<open>Backups, fingerprints and the identity file\<close>

definition backup_key :: "'a e2e_crypto_scheme \<Rightarrow> string \<Rightarrow> bytes \<Rightarrow> bytes result" where
  "backup_key E password salt = ok_or (x_argon2 E (as_bytes password) salt) (e2e_other ''Argon2 failed'')"

definition backup :: "'a e2e_crypto_scheme \<Rightarrow> bytes option \<Rightarrow> bytes option \<Rightarrow> identity \<Rightarrow> string \<Rightarrow> e2e_backup result" where
  "backup E random_salt random_nonce idn password =
    (if length password < 3 then Inl (e2e_invalid ''backup password must contain at least 3 characters'')
     else rbind (random_bytes random_salt) (\<lambda>salt.
     rbind (random_bytes random_nonce) (\<lambda>nonce.
     rbind (backup_key E password salt) (\<lambda>key.
     rbind (ok_or (x_encrypt E key nonce BACKUP_CONTEXT (id_private idn))
         (e2e_invalid ''E2E backup encryption failed'')) (\<lambda>ciphertext.
     Inr \<lparr>bk_version = BACKUP_VERSION, bk_salt = salt, bk_nonce = nonce, bk_ciphertext = ciphertext\<rparr>)))))"

definition restore :: "'a e2e_crypto_scheme \<Rightarrow> e2e_backup \<Rightarrow> string \<Rightarrow> identity result" where
  "restore E bk password =
    (if bk_version bk \<noteq> BACKUP_VERSION \<or> length (bk_ciphertext bk) \<noteq> 48
     then Inl (e2e_invalid ''unsupported or invalid E2E backup'')
     else rbind (backup_key E password (bk_salt bk)) (\<lambda>key.
     rbind (ok_or (x_decrypt E key (bk_nonce bk) BACKUP_CONTEXT (bk_ciphertext bk))
         (e2e_invalid ''wrong password or damaged E2E backup'')) (\<lambda>private.
     if length private \<noteq> 32 then Inl (e2e_invalid ''invalid E2E private key'')
     else Inr (from_private E private))))"

fun join :: "string \<Rightarrow> string list \<Rightarrow> string" where
  "join sep [] = []"
| "join sep [s] = s"
| "join sep (s # t # ts) = s @ sep @ join sep (t # ts)"

definition fingerprint :: "'a e2e_crypto_scheme \<Rightarrow> bytes \<Rightarrow> string" where
  "fingerprint E public_key = join '':'' (map (\<lambda>b. media_hex [b]) (take 16 (c_sha256 E public_key)))"

text \<open>
  The identity store: its file and the temporary file next to it, \<open>None\<close> when
  absent.  \<open>save\<close> runs the file operations of the code in order; \<open>k\<close> is the number
  of operations that succeed before one fails.
\<close>

record id_store =
  st_file :: "bytes option"
  st_temporary :: "bytes option"

definition identity_file :: "identity \<Rightarrow> bytes" where
  "identity_file idn = IDENTITY_MAGIC @ id_private idn"

definition load_identity :: "'a e2e_crypto_scheme \<Rightarrow> id_store \<Rightarrow> identity option result" where
  "load_identity E s = (case st_file s of
      None \<Rightarrow> Inr None
    | Some content \<Rightarrow>
        let encoded = take 64 content in
        if length encoded \<noteq> 40 \<or> take 8 encoded \<noteq> IDENTITY_MAGIC
        then Inl (e2e_invalid ''invalid E2E identity file'')
        else Inr (Some (from_private E (drop 8 encoded))))"

definition append_temporary :: "bytes \<Rightarrow> id_store \<Rightarrow> id_store" where
  "append_temporary bs s = s\<lparr>st_temporary := map_option (\<lambda>old. old @ bs) (st_temporary s)\<rparr>"

definition save_steps :: "identity \<Rightarrow> (id_store \<Rightarrow> id_store) list" where
  "save_steps idn =
    [\<lambda>s. s,
     \<lambda>s. s\<lparr>st_temporary := Some []\<rparr>,
     append_temporary IDENTITY_MAGIC,
     append_temporary (id_private idn),
     \<lambda>s. s,
     \<lambda>s. s\<lparr>st_file := st_temporary s, st_temporary := None\<rparr>,
     \<lambda>s. s]"

fun run_steps :: "nat \<Rightarrow> ('s \<Rightarrow> 's) list \<Rightarrow> 's \<Rightarrow> bool \<times> 's" where
  "run_steps k [] s = (True, s)"
| "run_steps 0 (f # fs) s = (False, s)"
| "run_steps (Suc k) (f # fs) s = run_steps k fs (f s)"

definition save_identity :: "nat \<Rightarrow> identity \<Rightarrow> id_store \<Rightarrow> unit result \<times> id_store" where
  "save_identity k idn s = (case run_steps k (save_steps idn) s of
      (True, s') \<Rightarrow> (Inr (), s') | (False, s') \<Rightarrow> (Inl (e2e_other ''file operation failed''), s'))"

definition load_or_create_identity ::
    "'a e2e_crypto_scheme \<Rightarrow> bytes option \<Rightarrow> nat \<Rightarrow> id_store \<Rightarrow> identity result \<times> id_store" where
  "load_or_create_identity E random k s = (case load_identity E s of
      Inl e \<Rightarrow> (Inl e, s)
    | Inr (Some idn) \<Rightarrow> (Inr idn, s)
    | Inr None \<Rightarrow> (case generate_identity E random of
        Inl e \<Rightarrow> (Inl e, s)
      | Inr idn \<Rightarrow> (case save_identity k idn s of (Inl e, s') \<Rightarrow> (Inl e, s') | (Inr _, s') \<Rightarrow> (Inr idn, s'))))"

definition remove_identity :: "id_store \<Rightarrow> id_store" where
  "remove_identity s = s\<lparr>st_file := None\<rparr>"

section \<open>Example parameter\<close>

text \<open>A tag of 16 zero bytes, an identity compression with a one-byte frame mark, a constant key.\<close>

definition toy_e2e :: e2e_crypto where
  "toy_e2e = \<lparr>c_sha256 = c_sha256 toy_crypto, c_hkdf = c_hkdf toy_crypto, c_encrypt = c_encrypt toy_crypto,
     c_encrypt_detached = c_encrypt_detached toy_crypto, c_decrypt = c_decrypt toy_crypto,
     c_public = c_public toy_crypto, c_dh = c_dh toy_crypto,
     x_encrypt = c_encrypt toy_crypto, x_decrypt = c_decrypt toy_crypto,
     x_argon2 = (\<lambda>p s. Some (replicate 32 0)),
     z_compress = (\<lambda>m. Some (0 # m)), z_decompress = (\<lambda>c limit. if length c \<le> limit + 1 then Some (tl c) else None)\<rparr>"

text \<open>The members of a group that a sender with private key \<open>a\<close> can address: id and private key.\<close>

definition members_ok :: "'a e2e_crypto_scheme \<Rightarrow> bytes \<Rightarrow> (string \<times> bytes) list \<Rightarrow> bool" where
  "members_ok E a ms = (distinct (map fst ms) \<and> (\<forall>(i, p)\<in>set ms. i \<noteq> [] \<and> length i \<le> 64
     \<and> \<not> list_all (\<lambda>x. x = 0) (c_dh E a (c_public E p))))"

definition recipients_of :: "'a e2e_crypto_scheme \<Rightarrow> (string \<times> bytes) list \<Rightarrow> (string \<times> bytes) list" where
  "recipients_of E ms = map (\<lambda>(i, p). (i, c_public E p)) ms"

definition nul_free :: "string \<Rightarrow> bool" where
  "nul_free s = (0 \<notin> set (as_bytes s))"

section \<open>Lemmas\<close>

lemma bytes_le_total: "bytes_le xs ys \<or> bytes_le ys xs"
  by (induction xs ys rule: bytes_le.induct) auto

lemma bytes_le_antisym: "bytes_le xs ys \<Longrightarrow> bytes_le ys xs \<Longrightarrow> xs = ys"
  by (induction xs ys rule: bytes_le.induct) (auto elim: bytes_le.elims)

lemma ordered_ids_commute: "ordered_ids l r = ordered_ids r l"
  using bytes_le_total [of "as_bytes l" "as_bytes r"] bytes_le_antisym [of "as_bytes l" "as_bytes r"]
  by (auto simp: ordered_ids_def)

lemma session_key_commute:
  "session_key_with_label E idn peer l r label = session_key_with_label E idn peer r l label"
  by (simp only: session_key_with_label_def ordered_ids_commute [of l r])

lemma session_key_agreement:
  assumes "dh_laws E"
  shows "session_key_with_label E (from_private E a) (c_public E b) l r label =
         session_key_with_label E (from_private E b) (c_public E a) l r label"
proof -
  have "c_dh E a (c_public E b) = c_dh E b (c_public E a)" using assms by (simp add: dh_laws_def)
  then show ?thesis by (simp add: session_key_with_label_def from_private_def)
qed

lemma session_key_Inr:
  assumes "hash_laws E" "\<not> list_all (\<lambda>b. b = 0) (c_dh E (id_private idn) peer)"
  obtains key where "session_key_with_label E idn peer l r label = Inr key" "length key = 32"
proof -
  obtain a b where "ordered_ids l r = (a, b)" by fastforce
  then show ?thesis using assms
    by (intro that [of "c_hkdf E (c_sha256 E (CONTEXT @ [0] @ as_bytes a @ [0] @ as_bytes b))
          (c_dh E (id_private idn) peer) label 32"]) (simp_all add: session_key_with_label_def hash_laws_def)
qed

lemma message_v4_round_trip:
  assumes "zstd_laws E" "length m \<le> MAX_MESSAGE_BYTES"
  obtains enc where "encode_message_v4 E m = Inr enc" "decode_message_v4 E enc = Inr m" "length enc \<le> 9 + length m"
proof -
  have len: "unat (word_of_nat (length m) :: u32) = length m"
    using assms(2) by (simp add: unat_of_nat const_defs)
  have hd: "take 4 (MESSAGE_V4_HEADER @ r) = MESSAGE_V4_HEADER" "length MESSAGE_V4_HEADER = 4"
    "(MESSAGE_V4_HEADER @ r) ! 4 = r ! 0" "drop 5 (MESSAGE_V4_HEADER @ r) = drop 1 r" "drop 9 (MESSAGE_V4_HEADER @ r) = drop 5 r" for r
    by (simp_all add: MESSAGE_V4_HEADER_def nth_append)
  obtain c where c: "z_compress E m = Some c" "c \<noteq> []" "z_decompress E c (length m) = Some m"
    using assms(1) by (auto simp: zstd_laws_def)
  show ?thesis
  proof (cases "length m \<ge> MESSAGE_COMPRESSION_THRESHOLD \<and> worth_compressing m c")
    case True
    then have "length c \<le> length m" "length m \<le> length c * MAX_COMPRESSION_RATIO"
      by (simp_all add: worth_compressing_def const_defs)
    then show ?thesis using True assms(2) c len hd
      by (intro that [of "MESSAGE_V4_HEADER @ [MESSAGE_V4_ZSTD] @ to_be_bytes (word_of_nat (length m) :: u32) @ c"])
        (auto simp: encode_message_v4_def decode_message_v4_def message_v4_body_def e2e_zstd_compress_def
          e2e_zstd_decompress_def MESSAGE_V4_ZSTD_def Let_def)
  next
    case False
    then show ?thesis using assms(2) c len hd
      by (intro that [of "MESSAGE_V4_HEADER @ [0] @ to_be_bytes (word_of_nat (length m) :: u32) @ m"])
        (auto simp: encode_message_v4_def decode_message_v4_def message_v4_body_def e2e_zstd_compress_def Let_def)
  qed
qed

lemma decode_message_v4_bounds:
  assumes "decode_message_v4 E bs = Inr p"
  shows "length p \<le> MAX_MESSAGE_BYTES" "length p \<le> 64 * (length bs - 9)"
  using assms by (auto simp: decode_message_v4_def message_v4_body_def result_simps if_error_eq_Inr Let_def
      MAX_COMPRESSION_RATIO_def split: if_splits)

lemma seal_open_envelope:
  assumes laws: "dh_laws E" "hash_laws E" "xaead_laws E" "zstd_laws E"
    and nonce: "length nonce = 24" and m: "length m \<le> MAX_MESSAGE_BYTES"
    and nonzero: "\<not> list_all (\<lambda>x. x = 0) (c_dh E a (c_public E b))"
  obtains env where "seal_envelope E (Some nonce) (from_private E a) (c_public E b) from_id to_id m = Inr env"
    "open_envelope E (from_private E b) (c_public E a) from_id to_id env = Inr m" "en_version env = ENVELOPE_VERSION"
proof -
  let ?label = "as_bytes ''message-v4-key''"
  obtain key where key: "session_key_with_label E (from_private E a) (c_public E b) from_id to_id ?label = Inr key" "length key = 32"
    using session_key_Inr [OF laws(2)] nonzero by (metis from_private_def identity.select_convs(1))
  have peer: "session_key_with_label E (from_private E b) (c_public E a) from_id to_id ?label = Inr key"
    using session_key_agreement [OF laws(1)] key(1) by metis
  obtain enc where enc: "encode_message_v4 E m = Inr enc" "decode_message_v4 E enc = Inr m" "length enc \<le> 9 + length m"
    by (rule message_v4_round_trip [OF laws(4) m])
  then have "length enc < 2 ^ 32" using m by (simp add: const_defs)
  then obtain c where c: "x_encrypt E key nonce (message_v4_aad from_id to_id) enc = Some c" "length c = length enc + 16"
    "x_decrypt E key nonce (message_v4_aad from_id to_id) c = Some enc"
    using laws(3) key(2) nonce unfolding xaead_laws_def by blast
  show ?thesis
    by (rule that [of "\<lparr>en_version = ENVELOPE_VERSION, en_nonce = nonce, en_ciphertext = c\<rparr>"])
      (simp_all add: seal_envelope_def open_envelope_def open_key_aad_def random_bytes_def key peer enc c const_defs)
qed

lemma seal_recipients_deliver:
  assumes laws: "dh_laws E" "hash_laws E" "xaead_laws E" "zstd_laws E"
    and m: "length m \<le> MAX_MESSAGE_BYTES" and nonces: "\<And>n. \<exists>x. randoms n = Some x \<and> length x = 24"
    and ms: "members_ok E a ms"
  shows "\<exists>M. seal_recipients E (from_private E a) from_id m (recipients_of E ms) randoms acc = Inr M
     \<and> (\<forall>(i, p)\<in>set ms. \<exists>env. M i = Some env \<and> open_envelope E (from_private E p) (c_public E a) from_id i env = Inr m)
     \<and> (\<forall>i. i \<notin> fst ` set ms \<longrightarrow> M i = acc i)"
  using nonces ms
proof (induction ms arbitrary: randoms acc)
  case Nil
  then show ?case by (simp add: recipients_of_def)
next
  case (Cons x ms)
  obtain i p where x: "x = (i, p)" by fastforce
  obtain nonce where n: "randoms 0 = Some nonce" "length nonce = 24" using Cons.prems(1) by blast
  have ok: "i \<noteq> []" "length i \<le> 64" "\<not> list_all (\<lambda>x. x = 0) (c_dh E a (c_public E p))" "members_ok E a ms"
    "i \<notin> fst ` set ms"
    using Cons.prems(2) by (auto simp: members_ok_def x)
  obtain env where env: "seal_envelope E (Some nonce) (from_private E a) (c_public E p) from_id i m = Inr env"
    "open_envelope E (from_private E p) (c_public E a) from_id i env = Inr m"
    by (rule seal_open_envelope [OF laws n(2) m ok(3)])
  obtain M where M: "seal_recipients E (from_private E a) from_id m (recipients_of E ms) (\<lambda>n. randoms (Suc n)) (acc(i \<mapsto> env)) = Inr M"
    "\<forall>(i, p)\<in>set ms. \<exists>env. M i = Some env \<and> open_envelope E (from_private E p) (c_public E a) from_id i env = Inr m"
    "\<forall>j. j \<notin> fst ` set ms \<longrightarrow> M j = (acc(i \<mapsto> env)) j"
    using Cons.IH [of "\<lambda>n. randoms (Suc n)" "acc(i \<mapsto> env)"] Cons.prems(1) ok(4) by blast
  have "M i = Some env" using M(3) ok(5) by simp
  moreover have "seal_recipients E (from_private E a) from_id m (recipients_of E (x # ms)) randoms acc = Inr M"
    using M(1) ok(1,2) n(1) env(1) by (simp add: recipients_of_def x)
  ultimately show ?case using M(2,3) env(2) by (auto simp: x)
qed

lemma context_lengths [simp]: "length CONTEXT = 20" "length MESSAGE_V4_CONTEXT = 20"
  by (simp_all add: CONTEXT_def MESSAGE_V4_CONTEXT_def)

lemma nul_split:
  assumes "xs @ (0 :: byte) # ys = xs' @ 0 # ys'" "0 \<notin> set xs" "0 \<notin> set xs'"
  shows "xs = xs' \<and> ys = ys'"
  using assms
proof (induction xs arbitrary: xs')
  case Nil
  then show ?case by (cases xs') auto
next
  case (Cons x xs)
  then show ?case by (cases xs') auto
qed

lemma contexts_differ: "CONTEXT \<noteq> MESSAGE_V4_CONTEXT"
  by (simp add: CONTEXT_def MESSAGE_V4_CONTEXT_def)

lemma toy_e2e_laws: "dh_laws toy_e2e" "hash_laws toy_e2e" "xaead_laws toy_e2e" "zstd_laws toy_e2e" "argon_laws toy_e2e"
  "xaead_authentic toy_e2e"
proof -
  show "dh_laws toy_e2e" using toy_dh_laws by (simp add: dh_laws_def toy_e2e_def)
  show "hash_laws toy_e2e" using toy_laws(2) by (simp add: hash_laws_def toy_e2e_def)
  show "xaead_laws toy_e2e" by (simp add: xaead_laws_def toy_e2e_def toy_crypto_def)
  show "xaead_authentic toy_e2e" using toy_laws(4) by (simp add: xaead_authentic_def aead_authentic_def toy_e2e_def)
qed (simp_all add: zstd_laws_def argon_laws_def toy_e2e_def)

text \<open>The identity store: a save replaces the file in one step or leaves it, and what was saved is loaded.\<close>

lemma save_identity_file:
  "st_file (snd (save_identity k idn s)) = (if k < 6 then st_file s else Some (identity_file idn))"
  "fst (save_identity k idn s) = Inr () \<longleftrightarrow> 7 \<le> k"
proof -
  consider "k < 7" | n where "k = 7 + n" by (metis le_add_diff_inverse linorder_not_less)
  then have "st_file (snd (save_identity k idn s)) = (if k < 6 then st_file s else Some (identity_file idn))
      \<and> (fst (save_identity k idn s) = Inr () \<longleftrightarrow> 7 \<le> k)"
  proof cases
    case 1
    then have "k \<in> {0, 1, 2, 3, 4, 5, 6}" by auto
    then show ?thesis
      by (auto simp: save_identity_def save_steps_def append_temporary_def identity_file_def numeral_eq_Suc)
  next
    case 2
    then show ?thesis
      by (simp add: save_identity_def save_steps_def append_temporary_def identity_file_def numeral_eq_Suc)
  qed
  then show "st_file (snd (save_identity k idn s)) = (if k < 6 then st_file s else Some (identity_file idn))"
    "fst (save_identity k idn s) = Inr () \<longleftrightarrow> 7 \<le> k" by simp_all
qed

lemma load_identity_file:
  "length p = 32 \<Longrightarrow> st_file s = Some (identity_file (from_private E p)) \<Longrightarrow> load_identity E s = Inr (Some (from_private E p))"
  by (simp add: load_identity_def identity_file_def from_private_def IDENTITY_MAGIC_def)

section \<open>Properties\<close>

text \<open>
  A message of at most 4 MiB that one identity seals for another is opened by the other
  to exactly that message, compressed or not, whenever their X25519 secret is
  not zero.
\<close>

theorem e2e_message_delivery:
  assumes "dh_laws E" "hash_laws E" "xaead_laws E" "zstd_laws E" "length nonce = 24" "length m \<le> MAX_MESSAGE_BYTES"
    "\<not> list_all (\<lambda>x. x = 0) (c_dh E a (c_public E b))"
  shows "\<exists>env. seal_envelope E (Some nonce) (from_private E a) (c_public E b) from_id to_id m = Inr env
    \<and> open_envelope E (from_private E b) (c_public E a) from_id to_id env = Inr m"
  using seal_open_envelope [OF assms] by metis

lemma toy_secret: "\<not> list_all (\<lambda>x. x = 0) (c_dh toy_e2e [1] (c_public toy_e2e [2]))"
  by (simp add: toy_e2e_def toy_crypto_def)

theorem e2e_message_delivery_witness:
  "\<exists>env. seal_envelope toy_e2e (Some (replicate 24 7)) (from_private toy_e2e [1]) (c_public toy_e2e [2]) ''a'' ''b'' [1, 2, 3] = Inr env
    \<and> open_envelope toy_e2e (from_private toy_e2e [2]) (c_public toy_e2e [1]) ''a'' ''b'' env = Inr [1, 2, 3]"
  using e2e_message_delivery [OF toy_e2e_laws(1-4) _ _ toy_secret, of "replicate 24 7" "[1, 2, 3]"]
  by (simp add: const_defs)

text \<open>
  C13: what \<open>open\<close> returns was authenticated: the ciphertext is the encryption, under the
  session key of the two identities and associated data naming this sender and
  this recipient, of the message itself (version 3) or of an encoding of it
  (version 4), and a version 4 message has at most 4 MiB and 64 times the bytes
  that were received.
\<close>

theorem e2e_open_authentic:
  assumes "xaead_authentic E" "open_envelope E idn peer from_id to_id env = Inr m"
  shows "(en_version env = 3 \<and> (\<exists>key. session_key E idn peer from_id to_id = Inr key
        \<and> x_encrypt E key (en_nonce env) (message_aad from_id to_id) m = Some (en_ciphertext env)))
    \<or> (en_version env = 4 \<and> length m \<le> MAX_MESSAGE_BYTES \<and> length m \<le> 64 * length (en_ciphertext env)
        \<and> (\<exists>key encoded. session_key_with_label E idn peer from_id to_id (as_bytes ''message-v4-key'') = Inr key
          \<and> x_encrypt E key (en_nonce env) (message_v4_aad from_id to_id) encoded = Some (en_ciphertext env)
          \<and> decode_message_v4 E encoded = Inr m))"
proof (cases "en_version env = LEGACY_ENVELOPE_VERSION")
  case True
  then show ?thesis using assms
    by (auto simp: open_envelope_def open_key_aad_def xaead_authentic_def result_simps if_error_eq_Inr LEGACY_ENVELOPE_VERSION_def)
next
  case False
  then obtain key enc where k: "session_key_with_label E idn peer from_id to_id (as_bytes ''message-v4-key'') = Inr key"
    "x_decrypt E key (en_nonce env) (message_v4_aad from_id to_id) (en_ciphertext env) = Some enc"
    "decode_message_v4 E enc = Inr m" "en_version env = ENVELOPE_VERSION"
    using assms(2) by (auto simp: open_envelope_def open_key_aad_def result_simps if_error_eq_Inr)
  then have "x_encrypt E key (en_nonce env) (message_v4_aad from_id to_id) enc = Some (en_ciphertext env)"
    "length (en_ciphertext env) = length enc + 16"
    using assms(1) by (auto simp: xaead_authentic_def)
  then show ?thesis using k decode_message_v4_bounds [OF k(3)] by (auto simp: ENVELOPE_VERSION_def)
qed

theorem e2e_open_authentic_witness:
  "open_envelope toy_e2e (from_private toy_e2e [2]) (c_public toy_e2e [1]) ''a'' ''b''
     \<lparr>en_version = 3, en_nonce = replicate 24 0, en_ciphertext = 9 # replicate 16 0\<rparr> = Inr [9]
   \<and> x_encrypt toy_e2e (replicate 32 0) (replicate 24 0) (message_aad ''a'' ''b'') [9] = Some (9 # replicate 16 0)"
proof -
  let ?env = "\<lparr>en_version = 3, en_nonce = replicate 24 0, en_ciphertext = 9 # replicate 16 0\<rparr>"
  have key: "session_key toy_e2e (from_private toy_e2e [2]) (c_public toy_e2e [1]) ''a'' ''b'' = Inr (replicate 32 0)"
    by (simp add: session_key_def session_key_with_label_def ordered_ids_def from_private_def toy_e2e_def toy_crypto_def
        as_bytes_def)
  then have o: "open_envelope toy_e2e (from_private toy_e2e [2]) (c_public toy_e2e [1]) ''a'' ''b'' ?env = Inr [9]"
    by (simp add: open_envelope_def open_key_aad_def const_defs) (simp add: toy_e2e_def toy_crypto_def)
  moreover have "x_encrypt toy_e2e (replicate 32 0) (replicate 24 0) (message_aad ''a'' ''b'') [9] = Some (9 # replicate 16 0)"
    using e2e_open_authentic [OF toy_e2e_laws(6) o] key by auto
  ultimately show ?thesis by blast
qed

text \<open>
  The associated data of a message determines who sent it and for whom, and the two
  versions never share it, for identifiers without a NUL byte: no envelope can
  be moved to another pair of users, turned around or downgraded.
\<close>

theorem e2e_context_binding:
  assumes "nul_free a" "nul_free b" "nul_free a'" "nul_free b'"
  shows "(message_v4_aad a b = message_v4_aad a' b' \<longleftrightarrow> a = a' \<and> b = b')
    \<and> (message_aad a b = message_aad a' b' \<longleftrightarrow> a = a' \<and> b = b')
    \<and> message_aad a b \<noteq> message_v4_aad a' b'"
proof -
  have "as_bytes a @ 0 # as_bytes b = as_bytes a' @ 0 # as_bytes b' \<longleftrightarrow> a = a' \<and> b = b'"
    using nul_split [of "as_bytes a" "as_bytes b" "as_bytes a'" "as_bytes b'"] assms by (auto simp: nul_free_def)
  moreover have "message_aad a b \<noteq> message_v4_aad a' b'"
    using contexts_differ append_eq_append_conv [of CONTEXT MESSAGE_V4_CONTEXT]
    by (auto simp: message_aad_def message_v4_aad_def)
  ultimately show ?thesis by (auto simp: message_aad_def message_v4_aad_def)
qed

theorem e2e_context_binding_witness:
  "nul_free ''a'' \<and> nul_free ''b'' \<and> message_v4_aad ''a'' ''b'' \<noteq> message_v4_aad ''b'' ''a''"
proof -
  have n: "nul_free ''a''" "nul_free ''b''" by (simp_all add: nul_free_def as_bytes_def)
  then show ?thesis using e2e_context_binding [OF n n(2,1)] by simp
qed

text \<open>
  C27: a group envelope sealed for between 1 and 256 members with different identifiers is
  opened by every member to the same message.
\<close>

theorem group_delivery:
  assumes "dh_laws E" "hash_laws E" "xaead_laws E" "zstd_laws E" "length m \<le> MAX_MESSAGE_BYTES"
    "\<And>n. \<exists>x. randoms n = Some x \<and> length x = 24" "members_ok E a ms" "ms \<noteq> []" "length ms \<le> 256"
  shows "\<exists>env. seal_group E randoms (from_private E a) (recipients_of E ms) from_id m = Inr env
    \<and> (\<forall>(i, p)\<in>set ms. open_group E (from_private E p) (c_public E a) from_id i env = Inr m)"
proof -
  obtain M where "seal_recipients E (from_private E a) from_id m (recipients_of E ms) randoms Map.empty = Inr M"
    "\<forall>(i, p)\<in>set ms. \<exists>env. M i = Some env \<and> open_envelope E (from_private E p) (c_public E a) from_id i env = Inr m"
    using seal_recipients_deliver [OF assms(1-5), of randoms a ms from_id Map.empty] assms(6,7) by blast
  then show ?thesis using assms(8,9)
    by (intro exI [of _ "\<lparr>ge_version = 5, ge_recipients = M\<rparr>"]) (auto simp: seal_group_def open_group_def recipients_of_def)
qed

theorem group_delivery_witness:
  "\<exists>env. seal_group toy_e2e (\<lambda>_. Some (replicate 24 0)) (from_private toy_e2e [1]) (recipients_of toy_e2e [(''b'', [2]), (''c'', [2])]) ''a'' [5] = Inr env
    \<and> open_group toy_e2e (from_private toy_e2e [2]) (c_public toy_e2e [1]) ''a'' ''c'' env = Inr [5]"
proof -
  have "members_ok toy_e2e [1] [(''b'', [2]), (''c'', [2])]" using toy_secret by (simp add: members_ok_def)
  then show ?thesis
    using group_delivery [OF toy_e2e_laws(1-4), of "[5]" "\<lambda>_. Some (replicate 24 0)" "[1]" "[(''b'', [2]), (''c'', [2])]" "''a''"]
    by (auto simp: const_defs)
qed

text \<open>
  A backup made with a password of at least three bytes restores the same identity with
  that password.
\<close>

theorem backup_round_trip:
  assumes "xaead_laws E" "argon_laws E" "length p = 32" "length salt = 16" "length nonce = 24" "3 \<le> length password"
  shows "\<exists>bk. backup E (Some salt) (Some nonce) (from_private E p) password = Inr bk
    \<and> restore E bk password = Inr (from_private E p)"
proof -
  obtain key where key: "x_argon2 E (as_bytes password) salt = Some key" "length key = 32"
    using assms(2,4) by (auto simp: argon_laws_def)
  then obtain c where c: "x_encrypt E key nonce BACKUP_CONTEXT p = Some c" "length c = 48"
    "x_decrypt E key nonce BACKUP_CONTEXT c = Some p"
    using assms(1) [unfolded xaead_laws_def, rule_format, of key nonce p BACKUP_CONTEXT] assms(3,5) by auto
  then show ?thesis using key assms
    by (intro exI [of _ "\<lparr>bk_version = BACKUP_VERSION, bk_salt = salt, bk_nonce = nonce, bk_ciphertext = c\<rparr>"])
      (simp add: backup_def restore_def backup_key_def random_bytes_def from_private_def)
qed

theorem backup_round_trip_witness:
  "\<exists>bk. backup toy_e2e (Some (replicate 16 1)) (Some (replicate 24 2)) (from_private toy_e2e (replicate 32 3)) ''abc'' = Inr bk
    \<and> restore toy_e2e bk ''abc'' = Inr (from_private toy_e2e (replicate 32 3))"
  using backup_round_trip [OF toy_e2e_laws(3,5), of "replicate 32 3" "replicate 16 1" "replicate 24 2" "''abc''"] by simp

text \<open>
  C28: wherever the file operations of \<open>load_or_create\<close> stop, the identity file is the
  previous one or a complete new one, so it always loads when it did before; and
  an identity that was returned is returned again by every later call.
\<close>

theorem identity_store_atomic:
  assumes "random = Some p" "length p = 32" "load_or_create_identity E random k s = (r, s')"
  shows "(st_file s' = st_file s \<or> st_file s' = Some (identity_file (from_private E p)))
    \<and> (is_ok (load_identity E s) \<longrightarrow> is_ok (load_identity E s'))
    \<and> (\<forall>idn. r = Inr idn \<longrightarrow> load_or_create_identity E random' k' s' = (Inr idn, s'))"
proof -
  consider e where "load_identity E s = Inl e" | idn where "load_identity E s = Inr (Some idn)" | "load_identity E s = Inr None"
    by (metis sum.exhaust not_None_eq)
  then show ?thesis
  proof cases
    case 3
    let ?i = "from_private E p"
    have rs: "s' = snd (save_identity k ?i s)" "r = Inr idn \<Longrightarrow> idn = ?i \<and> 7 \<le> k" for idn
      using assms 3 save_identity_file(2) [of k ?i s]
      by (auto simp: load_or_create_identity_def generate_identity_def random_bytes_def split: prod.splits sum.splits)
    have stored: "st_file s' = (if k < 6 then st_file s else Some (identity_file ?i))" using save_identity_file(1) rs(1) by simp
    have "st_file s = None" using 3 by (auto simp: load_identity_def Let_def split: option.splits if_splits)
    then have "is_ok (load_identity E s')"
      using stored load_identity_file [OF assms(2), of s' E] by (cases "k < 6") (auto simp: load_identity_def)
    moreover have "load_or_create_identity E random' k' s' = (Inr idn, s')" if "r = Inr idn" for idn
      using rs(2) [OF that] stored load_identity_file [OF assms(2), of s' E] by (simp add: load_or_create_identity_def)
    ultimately show ?thesis using stored by simp
  qed (use assms in \<open>auto simp: load_or_create_identity_def\<close>)
qed

theorem identity_store_atomic_witness:
  "\<exists>s'. load_or_create_identity toy_e2e (Some (replicate 32 1)) 9 \<lparr>st_file = None, st_temporary = None\<rparr>
        = (Inr (from_private toy_e2e (replicate 32 1)), s')
     \<and> load_or_create_identity toy_e2e None 0 s' = (Inr (from_private toy_e2e (replicate 32 1)), s')"
proof -
  let ?s = "\<lparr>st_file = None, st_temporary = None\<rparr>" and ?i = "from_private toy_e2e (replicate 32 1)"
  obtain s' where "save_identity 9 ?i ?s = (Inr (), s')"
    using save_identity_file(2) [of 9 ?i ?s] by (cases "save_identity 9 ?i ?s") auto
  then have "load_or_create_identity toy_e2e (Some (replicate 32 1)) 9 ?s = (Inr ?i, s')"
    by (simp add: load_or_create_identity_def load_identity_def generate_identity_def random_bytes_def)
  then show ?thesis using identity_store_atomic [of "Some (replicate 32 1)" "replicate 32 1" toy_e2e 9 ?s "Inr ?i" s'] by simp
qed

end
