(* ===== verification/Media.thy ===== *)
theory Media
  imports E2e
begin

text \<open>
  The streamed media container of \<open>src/e2e.rs\<close>: the chunk encryptor, the
  incremental decryptor that is fed arbitrary slices, and the size of the stored
  object.  \<open>usize\<close> has 64 bits.
\<close>

section \<open>Data\<close>

definition MEDIA_ENVELOPE_VERSION :: u8 where [const_defs]: "MEDIA_ENVELOPE_VERSION = 2"
definition MEDIA_CHUNK_SIZE :: nat where [const_defs]: "MEDIA_CHUNK_SIZE = 64 * 1024"
definition MEDIA_HEADER_SIZE :: nat where [const_defs]: "MEDIA_HEADER_SIZE = 32"
definition MEDIA_MAGIC :: bytes where "MEDIA_MAGIC = as_bytes ''M5EM''"
definition MEDIA_CONTEXT :: bytes where "MEDIA_CONTEXT = as_bytes ''ove-messenger-e2e-media-v2''"
definition MEDIA_TAG_SIZE :: nat where [const_defs]: "MEDIA_TAG_SIZE = 16"

record media_encryptor =
  mx_key :: bytes
  mx_aad :: bytes
  mx_prefix :: bytes
  mx_size :: u64
  mx_written :: u64
  mx_index :: u64

record media_decryptor =
  md_key :: bytes
  md_aad :: bytes
  md_prefix :: bytes
  md_size :: u64
  md_written :: u64
  md_index :: u64
  md_pending :: bytes
  md_header_read :: bool

definition media_aad :: "string \<Rightarrow> string \<Rightarrow> string \<Rightarrow> bytes" where
  "media_aad a b file_id = MEDIA_CONTEXT @ [0] @ as_bytes a @ [0] @ as_bytes b @ [0] @ as_bytes file_id"

definition media_nonce :: "bytes \<Rightarrow> u64 \<Rightarrow> bytes" where
  "media_nonce prefix index = prefix @ to_be_bytes index"

definition media_chunk_aad :: "bytes \<Rightarrow> bytes \<Rightarrow> u64 \<Rightarrow> u32 \<Rightarrow> bytes" where
  "media_chunk_aad prefix header index plaintext_len =
    prefix @ header @ to_be_bytes index @ to_be_bytes plaintext_len"

definition media_header :: "u64 \<Rightarrow> bytes \<Rightarrow> bytes" where
  "media_header plaintext_size nonce_prefix =
    MEDIA_MAGIC @ [MEDIA_ENVELOPE_VERSION, 16, 0, 0] @ to_be_bytes plaintext_size @ nonce_prefix"

definition encrypted_media_size :: "u64 \<Rightarrow> u64 result" where
  "encrypted_media_size plaintext_size =
    (let chunks = word_of_nat (div_ceil (unat plaintext_size) MEDIA_CHUNK_SIZE) :: u64 in
     rbind (ok_or (Option.bind (checked_mul chunks (word_of_nat (4 + MEDIA_TAG_SIZE)))
         (\<lambda>v. checked_add v (word_of_nat MEDIA_HEADER_SIZE))) (e2e_invalid ''E2E media size overflow'')) (\<lambda>overhead.
     ok_or (checked_add plaintext_size overhead) (e2e_invalid ''E2E media size overflow'')))"

section \<open>The encryptor\<close>

definition media_encryptor_new :: "bytes option \<Rightarrow> bytes \<Rightarrow> bytes \<Rightarrow> u64 \<Rightarrow> media_encryptor result" where
  "media_encryptor_new random key aad_prefix plaintext_size =
    (if length key \<noteq> 32 then Inl (e2e_invalid ''invalid E2E media key'')
     else rbind (random_bytes random) (\<lambda>nonce_prefix.
       Inr \<lparr>mx_key = key, mx_aad = aad_prefix, mx_prefix = nonce_prefix, mx_size = plaintext_size,
            mx_written = 0, mx_index = 0\<rparr>))"

definition seal_chunk ::
    "'a e2e_crypto_scheme \<Rightarrow> bytes \<Rightarrow> media_encryptor \<Rightarrow> bytes result \<times> media_encryptor" where
  "seal_chunk E plaintext e =
    (if plaintext = [] \<or> length plaintext > MEDIA_CHUNK_SIZE
     then (Inl (e2e_invalid ''invalid E2E media chunk size''), e)
     else case checked_add (mx_written e) (word_of_nat (length plaintext)) of
       None \<Rightarrow> (Inl (e2e_invalid ''E2E media size overflow''), e)
     | Some next \<Rightarrow>
        if next > mx_size e \<or> next \<noteq> mx_size e \<and> length plaintext \<noteq> MEDIA_CHUNK_SIZE
        then (Inl (e2e_invalid ''E2E media chunks do not match declared size''), e)
        else case x_encrypt E (mx_key e) (media_nonce (mx_prefix e) (mx_index e))
            (media_chunk_aad (mx_aad e) (media_header (mx_size e) (mx_prefix e)) (mx_index e)
               (word_of_nat (length plaintext))) plaintext of
          None \<Rightarrow> (Inl (e2e_invalid ''E2E media encryption failed''), e)
        | Some ciphertext \<Rightarrow> (case checked_add (mx_index e) 1 of
            None \<Rightarrow> (Inl (e2e_invalid ''E2E media chunk index overflow''), e\<lparr>mx_written := next\<rparr>)
          | Some index \<Rightarrow> (Inr (to_be_bytes (word_of_nat (length ciphertext) :: u32) @ ciphertext),
              e\<lparr>mx_written := next, mx_index := index\<rparr>)))"

definition media_encryptor_finish :: "media_encryptor \<Rightarrow> unit result" where
  "media_encryptor_finish e = (if mx_written e = mx_size e then Inr ()
     else Inl (e2e_invalid ''E2E media source is shorter than declared size''))"

section \<open>The decryptor\<close>

definition media_decryptor_new :: "bytes \<Rightarrow> bytes \<Rightarrow> media_decryptor result" where
  "media_decryptor_new key aad_prefix =
    (if length key \<noteq> 32 then Inl (e2e_invalid ''invalid E2E media key'')
     else Inr \<lparr>md_key = key, md_aad = aad_prefix, md_prefix = replicate 16 0, md_size = 0, md_written = 0,
       md_index = 0, md_pending = [], md_header_read = False\<rparr>)"

definition media_read_header :: "media_decryptor \<Rightarrow> media_decryptor result" where
  "media_read_header d =
    (let header = take MEDIA_HEADER_SIZE (md_pending d) in
     if take 4 header \<noteq> MEDIA_MAGIC \<or> header ! 4 \<noteq> MEDIA_ENVELOPE_VERSION \<or> header ! 5 \<noteq> 16
        \<or> header ! 6 \<noteq> 0 \<or> header ! 7 \<noteq> 0
     then Inl (e2e_invalid ''unsupported E2E media version; update the application'')
     else Inr (d\<lparr>md_size := from_be_bytes (take 8 (drop 8 header)), md_prefix := drop 16 header,
       md_pending := drop MEDIA_HEADER_SIZE (md_pending d), md_header_read := True\<rparr>))"

abbreviation chunk_length :: "media_decryptor \<Rightarrow> nat" where
  "chunk_length d \<equiv> unat (from_be_bytes (take 4 (md_pending d)) :: u32)"

abbreviation expected_plain :: "media_decryptor \<Rightarrow> nat" where
  "expected_plain d \<equiv> min (unat (md_size d - md_written d)) MEDIA_CHUNK_SIZE"

definition open_chunk :: "'a e2e_crypto_scheme \<Rightarrow> media_decryptor \<Rightarrow> bytes option" where
  "open_chunk E d = x_decrypt E (md_key d) (media_nonce (md_prefix d) (md_index d))
     (media_chunk_aad (md_aad d) (media_header (md_size d) (md_prefix d)) (md_index d) (word_of_nat (expected_plain d)))
     (take (chunk_length d) (drop 4 (md_pending d)))"

definition accept_chunk :: "bytes \<Rightarrow> media_decryptor \<Rightarrow> media_decryptor" where
  "accept_chunk plaintext d = d\<lparr>md_pending := drop (4 + chunk_length d) (md_pending d),
     md_written := md_written d + word_of_nat (length plaintext), md_index := md_index d + 1\<rparr>"

text \<open>The loop of \<open>push\<close>.\<close>

function media_drain ::
    "'a e2e_crypto_scheme \<Rightarrow> media_decryptor \<Rightarrow> bytes list \<Rightarrow> bytes list result \<times> media_decryptor" where
  "media_drain E d out =
    (if \<not> md_written d < md_size d \<or> length (md_pending d) < 4 then (Inr out, d)
     else if chunk_length d \<noteq> expected_plain d + MEDIA_TAG_SIZE
     then (Inl (e2e_invalid ''invalid E2E media chunk length''), d)
     else if length (md_pending d) < 4 + chunk_length d then (Inr out, d)
     else case open_chunk E d of
       None \<Rightarrow> (Inl (e2e_invalid ''E2E media authentication failed''), d)
     | Some plaintext \<Rightarrow>
        if md_index d = - 1
        then (Inl (e2e_invalid ''E2E media chunk index overflow''), (accept_chunk plaintext d)\<lparr>md_index := md_index d\<rparr>)
        else media_drain E (accept_chunk plaintext d) (out @ [plaintext]))"
  by pat_completeness auto
termination
  by (relation "measure (\<lambda>(E, d, out). length (md_pending d))") (auto simp: accept_chunk_def)

definition media_push ::
    "'a e2e_crypto_scheme \<Rightarrow> bytes \<Rightarrow> media_decryptor \<Rightarrow> bytes list result \<times> media_decryptor" where
  "media_push E bs d =
    (let d = d\<lparr>md_pending := md_pending d @ bs\<rparr> in
     if md_header_read d then media_drain E d []
     else if length (md_pending d) < MEDIA_HEADER_SIZE then (Inr [], d)
     else case media_read_header d of Inl e \<Rightarrow> (Inl e, d) | Inr d \<Rightarrow> media_drain E d [])"

definition media_decryptor_finish :: "media_decryptor \<Rightarrow> u64 result" where
  "media_decryptor_finish d =
    (if \<not> md_header_read d \<or> md_written d \<noteq> md_size d \<or> md_pending d \<noteq> []
     then Inl (e2e_invalid ''E2E media is truncated or has trailing bytes'') else Inr (md_written d))"

section \<open>Streams for an identity\<close>

definition identity_media_encryptor ::
    "'a e2e_crypto_scheme \<Rightarrow> bytes option \<Rightarrow> identity \<Rightarrow> bytes \<Rightarrow> string \<Rightarrow> string \<Rightarrow> string \<Rightarrow> u64 \<Rightarrow> media_encryptor result" where
  "identity_media_encryptor E random idn peer_public from_id to_id file_id plaintext_size =
    rbind (session_key_with_label E idn peer_public from_id to_id (as_bytes ''media-stream-v2-key'')) (\<lambda>key.
      media_encryptor_new random key (media_aad from_id to_id file_id) plaintext_size)"

definition identity_media_decryptor ::
    "'a e2e_crypto_scheme \<Rightarrow> identity \<Rightarrow> bytes \<Rightarrow> string \<Rightarrow> string \<Rightarrow> string \<Rightarrow> media_decryptor result" where
  "identity_media_decryptor E idn peer_public from_id to_id file_id =
    rbind (session_key_with_label E idn peer_public from_id to_id (as_bytes ''media-stream-v2-key'')) (\<lambda>key.
      media_decryptor_new key (media_aad from_id to_id file_id))"

definition media_key :: "'a e2e_crypto_scheme \<Rightarrow> identity \<Rightarrow> bytes \<Rightarrow> string \<Rightarrow> string \<Rightarrow> bytes result" where
  "media_key E idn peer_public from_id to_id =
    session_key_with_label E idn peer_public from_id to_id (as_bytes ''media-stream-v2-key'')"

section \<open>Whole streams\<close>

text \<open>A sequence of chunks through the encryptor, a sequence of slices through the decryptor.\<close>

fun seal_chunks ::
    "'a e2e_crypto_scheme \<Rightarrow> bytes list \<Rightarrow> media_encryptor \<Rightarrow> bytes list result \<times> media_encryptor" where
  "seal_chunks E [] e = (Inr [], e)"
| "seal_chunks E (c # cs) e = (case seal_chunk E c e of
      (Inl x, e) \<Rightarrow> (Inl x, e)
    | (Inr r, e) \<Rightarrow> (case seal_chunks E cs e of (Inl x, e) \<Rightarrow> (Inl x, e) | (Inr rs, e) \<Rightarrow> (Inr (r # rs), e)))"

fun push_all ::
    "'a e2e_crypto_scheme \<Rightarrow> bytes list \<Rightarrow> media_decryptor \<Rightarrow> bytes list result \<times> media_decryptor" where
  "push_all E [] d = (Inr [], d)"
| "push_all E (b # bs) d = (case media_push E b d of
      (Inl x, d) \<Rightarrow> (Inl x, d)
    | (Inr o1, d) \<Rightarrow> (case push_all E bs d of (Inl x, d) \<Rightarrow> (Inl x, d) | (Inr o2, d) \<Rightarrow> (Inr (o1 @ o2), d)))"

function media_chunks :: "bytes \<Rightarrow> bytes list" where
  "media_chunks m = (if m = [] then [] else take MEDIA_CHUNK_SIZE m # media_chunks (drop MEDIA_CHUNK_SIZE m))"
  by pat_completeness auto
termination
  by (relation "measure length") (auto simp: MEDIA_CHUNK_SIZE_def)

section \<open>Lemmas\<close>

declare media_drain.simps [simp del] media_chunks.simps [simp del]

subsection \<open>The decryptor does not see slice boundaries\<close>

text \<open>No chunk to read: the object is complete or the next chunk has not arrived.\<close>

definition waiting :: "media_decryptor \<Rightarrow> bool" where
  "waiting d = (\<not> md_written d < md_size d \<or> length (md_pending d) < 4
     \<or> chunk_length d = expected_plain d + MEDIA_TAG_SIZE \<and> length (md_pending d) < 4 + chunk_length d)"

definition readable :: "'a e2e_crypto_scheme \<Rightarrow> media_decryptor \<Rightarrow> bytes \<Rightarrow> bool" where
  "readable E d p = (md_written d < md_size d \<and> chunk_length d = expected_plain d + MEDIA_TAG_SIZE
     \<and> 4 + chunk_length d \<le> length (md_pending d) \<and> open_chunk E d = Some p \<and> md_index d \<noteq> - 1)"

lemma media_drain_waiting: "waiting d \<Longrightarrow> media_drain E d out = (Inr out, d)"
  by (subst media_drain.simps) (auto simp: waiting_def)

lemma media_drain_readable: "readable E d p \<Longrightarrow> media_drain E d out = media_drain E (accept_chunk p d) (out @ [p])"
  by (subst media_drain.simps) (simp add: readable_def)

lemma media_drain_Inr_cases:
  assumes "media_drain E d out = (Inr res, d')"
  obtains (stop) "waiting d" "res = out" "d' = d"
    | (read) p where "readable E d p" "media_drain E (accept_chunk p d) (out @ [p]) = (Inr res, d')"
  using assms by (subst (asm) media_drain.simps) (auto simp: waiting_def readable_def split: if_splits option.splits)

lemma media_drain_Inr_induct [consumes 1, case_names stop read]:
  assumes "media_drain E d out = (Inr res, d')"
    and "\<And>d out. waiting d \<Longrightarrow> P d out out d"
    and "\<And>d out p res d'. readable E d p \<Longrightarrow> media_drain E (accept_chunk p d) (out @ [p]) = (Inr res, d')
           \<Longrightarrow> P (accept_chunk p d) (out @ [p]) res d' \<Longrightarrow> P d out res d'"
  shows "P d out res d'"
  using assms(1)
proof (induction "length (md_pending d)" arbitrary: d out rule: less_induct)
  case less
  from less.prems show ?case
  proof (cases rule: media_drain_Inr_cases)
    case stop
    then show ?thesis using assms(2) by simp
  next
    case (read p)
    then have "length (md_pending (accept_chunk p d)) < length (md_pending d)"
      by (auto simp: accept_chunk_def readable_def)
    then show ?thesis using less.hyps [OF _ read(2)] assms(3) read by blast
  qed
qed

abbreviation feed :: "bytes \<Rightarrow> media_decryptor \<Rightarrow> media_decryptor" where
  "feed b d \<equiv> d\<lparr>md_pending := md_pending d @ b\<rparr>"

lemma feed_readable:
  assumes "readable E d p"
  shows "readable E (feed b d) p" "accept_chunk p (feed b d) = feed b (accept_chunk p d)"
  using assms by (auto simp: readable_def open_chunk_def accept_chunk_def)

lemma media_drain_feed:
  "media_drain E d out = (Inr o1, d1) \<Longrightarrow> media_drain E (feed b d) out = media_drain E (feed b d1) o1"
proof (induction rule: media_drain_Inr_induct)
  case (read d out p res d')
  then show ?case using media_drain_readable [OF feed_readable(1) [OF read(1)]] feed_readable(2) [OF read(1)] by simp
qed simp

lemma media_drain_unfeed:
  "media_drain E (feed b d) out = (Inr o2, d2) \<Longrightarrow> \<exists>o1 d1. media_drain E d out = (Inr o1, d1)"
proof (induction "feed b d" out o2 d2 arbitrary: d rule: media_drain_Inr_induct)
  case (stop out)
  have "waiting d" using stop by (auto simp: waiting_def)
  then show ?case using media_drain_waiting by blast
next
  case (read out p res d')
  show ?case
  proof (cases "4 \<le> length (md_pending d) \<and> 4 + chunk_length d \<le> length (md_pending d)")
    case True
    then have r: "readable E d p" using read(1) by (auto simp: readable_def open_chunk_def)
    then show ?thesis using read(3) [of "accept_chunk p d"] feed_readable(2) [OF r] media_drain_readable [OF r] by simp
  next
    case False
    then have "waiting d" using read(1) by (auto simp: waiting_def readable_def)
    then show ?thesis using media_drain_waiting by blast
  qed
qed

definition prepend :: "'b list \<Rightarrow> 'b list result \<times> 's \<Rightarrow> 'b list result \<times> 's" where
  "prepend xs r = (case r of (Inl e, s) \<Rightarrow> (Inl e, s) | (Inr ys, s) \<Rightarrow> (Inr (xs @ ys), s))"

lemma media_drain_acc: "media_drain E d (xs @ out) = prepend xs (media_drain E d out)"
proof (induction E d out rule: media_drain.induct)
  case (1 E d out)
  then show ?case
    by (subst (1 2) media_drain.simps) (auto simp: prepend_def split: option.splits)
qed

lemma media_drain_header_read: "media_drain E d out = (Inr res, d') \<Longrightarrow> md_header_read d' = md_header_read d"
  by (induction rule: media_drain_Inr_induct) (auto simp: accept_chunk_def)

lemma media_drain_split:
  "media_drain E (feed b d) [] = (Inr res, d2) \<longleftrightarrow>
   (\<exists>o1 o2 d1. media_drain E d [] = (Inr o1, d1) \<and> media_drain E (feed b d1) [] = (Inr o2, d2) \<and> res = o1 @ o2)"
  (is "?l \<longleftrightarrow> ?r")
proof
  assume ?l
  then obtain o1 d1 where d1: "media_drain E d [] = (Inr o1, d1)" using media_drain_unfeed by blast
  then have "prepend o1 (media_drain E (feed b d1) []) = (Inr res, d2)"
    using \<open>?l\<close> media_drain_feed [OF d1, of b] media_drain_acc [of E "feed b d1" o1 "[]"] by simp
  then show ?r using d1 by (auto simp: prepend_def split: prod.splits sum.splits)
next
  assume ?r
  then obtain o1 o2 d1 where d1: "media_drain E d [] = (Inr o1, d1)" "media_drain E (feed b d1) [] = (Inr o2, d2)" "res = o1 @ o2"
    by blast
  then show ?l using media_drain_feed [OF d1(1), of b] media_drain_acc [of E "feed b d1" o1 "[]"] by (simp add: prepend_def)
qed

lemma media_read_header_feed:
  assumes "MEDIA_HEADER_SIZE \<le> length (md_pending d)"
  shows "media_read_header (feed b d) = map_sum id (feed b) (media_read_header d)"
  using assms by (auto simp: media_read_header_def Let_def)

lemma media_read_header_read: "media_read_header d = Inr d' \<Longrightarrow> md_header_read d'"
  by (auto simp: media_read_header_def Let_def split: if_splits)

lemma media_push_read: "md_header_read d \<Longrightarrow> media_push E b d = media_drain E (feed b d) []"
  by (simp add: media_push_def)

lemma media_push_append:
  "media_push E (a @ b) d = (Inr res, d2) \<longleftrightarrow>
   (\<exists>o1 o2 d1. media_push E a d = (Inr o1, d1) \<and> media_push E b d1 = (Inr o2, d2) \<and> res = o1 @ o2)"
proof -
  have read: "media_drain E (feed b e) [] = (Inr res, d2) \<longleftrightarrow>
      (\<exists>o1 o2 d1. media_drain E e [] = (Inr o1, d1) \<and> media_push E b d1 = (Inr o2, d2) \<and> res = o1 @ o2)"
    if "md_header_read e" for e
    using media_drain_split [where E = E and b = b and d = e] media_drain_header_read [of E e "[]"] media_push_read that by (metis (no_types))
  consider "md_header_read d" | "\<not> md_header_read d" "length (md_pending d @ a) < MEDIA_HEADER_SIZE"
    | "\<not> md_header_read d" "MEDIA_HEADER_SIZE \<le> length (md_pending d @ a)" by linarith
  then show ?thesis
  proof cases
    case 1
    then show ?thesis using read [of "feed a d"] by (simp add: media_push_def)
  next
    case 2
    then show ?thesis by (simp add: media_push_def Let_def split: sum.split)
  next
    case 3
    then have "media_read_header (feed (a @ b) d) = map_sum id (feed b) (media_read_header (feed a d))"
      using media_read_header_feed [of "feed a d" b] by simp
    then show ?thesis using 3 read media_read_header_read [of "feed a d"]
      by (cases "media_read_header (feed a d)") (simp_all add: media_push_def Let_def)
  qed
qed

lemma push_all_concat:
  "bs \<noteq> [] \<Longrightarrow> push_all E bs d = (Inr res, d') \<longleftrightarrow> media_push E (concat bs) d = (Inr res, d')"
proof (induction bs arbitrary: d res rule: list_nonempty_induct)
  case (single b)
  then show ?case by (auto split: prod.splits sum.splits)
next
  case (cons b bs)
  have "push_all E (b # bs) d = (Inr res, d') \<longleftrightarrow>
    (\<exists>o1 o2 d1. media_push E b d = (Inr o1, d1) \<and> push_all E bs d1 = (Inr o2, d') \<and> res = o1 @ o2)"
    by (auto split: prod.splits sum.splits)
  then show ?case by (simp add: cons.IH media_push_append)
qed

subsection \<open>Encryptor and decryptor in step\<close>

definition in_step :: "media_encryptor \<Rightarrow> media_decryptor \<Rightarrow> bool" where
  "in_step e d = (md_key d = mx_key e \<and> md_aad d = mx_aad e \<and> md_prefix d = mx_prefix e \<and> md_size d = mx_size e
     \<and> md_written d = mx_written e \<and> md_index d = mx_index e \<and> md_header_read d
     \<and> mx_written e \<le> mx_size e \<and> mx_index e \<le> mx_written e \<and> length (mx_key e) = 32 \<and> length (mx_prefix e) = 16)"

lemma unat_written:
  assumes "unat a + n \<le> unat (b :: u64)" shows "unat (a + word_of_nat n :: u64) = unat a + n"
proof -
  have "unat b < 2 ^ 64" using unsigned_less [of b, where 'a = nat] by simp
  then have "unat (word_of_nat n :: u64) = n" "unat a + n < 2 ^ 64" using assms by (simp_all add: unat_of_nat)
  then show ?thesis by (simp add: unat_word_ariths)
qed

lemma seal_chunk_Inr:
  assumes "seal_chunk E c e = (Inr r, e')"
  obtains ct where "x_encrypt E (mx_key e) (media_nonce (mx_prefix e) (mx_index e))
      (media_chunk_aad (mx_aad e) (media_header (mx_size e) (mx_prefix e)) (mx_index e) (word_of_nat (length c))) c = Some ct"
    "r = to_be_bytes (word_of_nat (length ct) :: u32) @ ct" "c \<noteq> []" "length c \<le> MEDIA_CHUNK_SIZE"
    "unat (mx_written e) + length c \<le> unat (mx_size e)"
    "unat (mx_written e) + length c = unat (mx_size e) \<or> length c = MEDIA_CHUNK_SIZE"
    "mx_index e \<noteq> - 1" "e' = e\<lparr>mx_written := mx_written e + word_of_nat (length c), mx_index := mx_index e + 1\<rparr>"
proof -
  have len: "length c \<le> MEDIA_CHUNK_SIZE" "c \<noteq> []" using assms by (auto simp: seal_chunk_def split: if_splits)
  then have u: "unat (word_of_nat (length c) :: u64) = length c" by (simp add: unat_of_nat const_defs)
  have top: "unat (- 1 :: u64) = 2 ^ 64 - 1" by (simp add: unat_max_word)
  obtain ct where ct: "x_encrypt E (mx_key e) (media_nonce (mx_prefix e) (mx_index e))
      (media_chunk_aad (mx_aad e) (media_header (mx_size e) (mx_prefix e)) (mx_index e) (word_of_nat (length c))) c = Some ct"
    "r = to_be_bytes (word_of_nat (length ct) :: u32) @ ct" "unat (mx_written e) + length c < 2 ^ 64"
    "\<not> mx_size e < mx_written e + word_of_nat (length c)"
    "mx_written e + word_of_nat (length c) = mx_size e \<or> length c = MEDIA_CHUNK_SIZE"
    "unat (mx_index e) + 1 < 2 ^ 64" "e' = e\<lparr>mx_written := mx_written e + word_of_nat (length c), mx_index := mx_index e + 1\<rparr>"
    using assms len by (auto simp: seal_chunk_def checked_add_def u split: if_splits option.splits)
  have "unat (mx_written e + word_of_nat (length c)) = unat (mx_written e) + length c"
    using ct(3) u by (subst unat_add_lem [THEN iffD1]) (auto simp: u)
  then show ?thesis using ct len top
    by (intro that [of ct]) (auto simp: word_less_nat_alt)
qed

lemma in_step_advance:
  assumes "in_step e d" "unat (mx_written e) + length c \<le> unat (mx_size e)" "c \<noteq> []"
    "e' = e\<lparr>mx_written := mx_written e + word_of_nat (length c), mx_index := mx_index e + 1\<rparr>"
  shows "in_step e' (accept_chunk c d)"
proof -
  have w: "unat (mx_written e + word_of_nat (length c)) = unat (mx_written e) + length c"
    by (rule unat_written [OF assms(2)])
  have ie: "unat (mx_index e) \<le> unat (mx_written e)" using assms(1) by (simp add: in_step_def word_le_nat_alt)
  have "0 < length c" using assms(3) by simp
  then have "unat (mx_index e) + 1 \<le> unat (mx_size e)" using ie assms(2) by linarith
  then have "unat (mx_index e + 1) = unat (mx_index e) + 1" using unat_written [of "mx_index e" 1 "mx_size e"] by simp
  then have "mx_index e + 1 \<le> mx_written e + word_of_nat (length c)"
    using w ie \<open>0 < length c\<close> unfolding word_le_nat_alt by linarith
  moreover have "mx_written e + word_of_nat (length c) \<le> mx_size e" using w assms(2) by (simp add: word_le_nat_alt)
  ultimately show ?thesis using assms(1,4) by (simp add: in_step_def accept_chunk_def)
qed

lemma in_step_expected:
  assumes "in_step e d"
  shows "unat (md_size d - md_written d) = unat (mx_size e) - unat (mx_written e)"
  using assms by (simp add: in_step_def unat_sub)

lemma seal_read_step:
  assumes "xaead_laws E" "in_step e d" "seal_chunk E c e = (Inr r, e')" "md_pending d = r @ rest"
  shows "readable E d c" "in_step e' (accept_chunk c d)" "md_pending (accept_chunk c d) = rest" "length r = length c + 20"
proof -
  obtain ct where ct: "x_encrypt E (mx_key e) (media_nonce (mx_prefix e) (mx_index e))
      (media_chunk_aad (mx_aad e) (media_header (mx_size e) (mx_prefix e)) (mx_index e) (word_of_nat (length c))) c = Some ct"
    "r = to_be_bytes (word_of_nat (length ct) :: u32) @ ct" "c \<noteq> []" "length c \<le> MEDIA_CHUNK_SIZE"
    "unat (mx_written e) + length c \<le> unat (mx_size e)"
    "unat (mx_written e) + length c = unat (mx_size e) \<or> length c = MEDIA_CHUNK_SIZE"
    "mx_index e \<noteq> - 1" "e' = e\<lparr>mx_written := mx_written e + word_of_nat (length c), mx_index := mx_index e + 1\<rparr>"
    by (rule seal_chunk_Inr [OF assms(3)])
  have lens: "length (mx_key e) = 32" "length (media_nonce (mx_prefix e) (mx_index e)) = 24"
    using assms(2) by (simp_all add: in_step_def media_nonce_def)
  have "length c < 2 ^ 32" using ct(4) by (simp add: const_defs)
  then have dec: "length ct = length c + 16" "x_decrypt E (mx_key e) (media_nonce (mx_prefix e) (mx_index e))
      (media_chunk_aad (mx_aad e) (media_header (mx_size e) (mx_prefix e)) (mx_index e) (word_of_nat (length c))) ct = Some c"
    using assms(1) lens ct(1) unfolding xaead_laws_def by (metis option.inject)+
  have "unat (word_of_nat (length ct) :: u32) = length ct"
    using ct(4) dec(1) by (simp only: unat_of_nat) (simp add: const_defs)
  then have cl: "chunk_length d = length c + 16"
    by (simp add: assms(4) ct(2) del: unat_of_nat of_nat_add) (simp add: dec(1))
  have ex: "expected_plain d = length c"
    using in_step_expected [OF assms(2)] ct(4,5,6) by auto
  have pos: "0 < length c" using ct(3) by simp
  have "unat (mx_written e) < unat (mx_size e)" using ct(5) pos by linarith
  then have "md_written d < md_size d" using assms(2) by (simp add: in_step_def word_less_nat_alt)
  moreover have "take (length c + 16) (drop 4 (md_pending d)) = ct" by (simp add: assms(4) ct(2) dec(1))
  then have "open_chunk E d = Some c"
    using assms(2) dec(2) unfolding open_chunk_def ex cl by (simp add: in_step_def)
  moreover have "4 + (length c + 16) \<le> length (md_pending d)" "md_index d \<noteq> - 1"
    using assms(2) ct(7) by (simp_all add: assms(4) ct(2) dec(1) in_step_def)
  ultimately show "readable E d c" unfolding readable_def cl ex by (simp add: MEDIA_TAG_SIZE_def)
  show "in_step e' (accept_chunk c d)" by (rule in_step_advance [OF assms(2) ct(5,3,8)])
  show "md_pending (accept_chunk c d) = rest" unfolding accept_chunk_def cl by (simp add: assms(4) ct(2) dec(1))
  show "length r = length c + 20" by (simp add: ct(2) dec(1))
qed

lemma take_take_drop: "take a xs @ take b (drop a xs) @ drop (a + b) xs = xs"
  by (metis append_take_drop_id drop_drop add.commute)

lemma read_seal_step:
  assumes "xaead_authentic E" "in_step e d" "readable E d p"
  obtains r e' where "seal_chunk E p e = (Inr r, e')" "in_step e' (accept_chunk p d)"
    "md_pending d = r @ md_pending (accept_chunk p d)"
proof -
  let ?ct = "take (chunk_length d) (drop 4 (md_pending d))"
  have rd: "md_written d < md_size d" "chunk_length d = expected_plain d + MEDIA_TAG_SIZE"
    "4 + chunk_length d \<le> length (md_pending d)" "open_chunk E d = Some p" "md_index d \<noteq> - 1"
    using assms(3) by (simp_all add: readable_def)
  have enc: "x_encrypt E (md_key d) (media_nonce (md_prefix d) (md_index d))
     (media_chunk_aad (md_aad d) (media_header (md_size d) (md_prefix d)) (md_index d) (word_of_nat (expected_plain d))) p = Some ?ct"
    and lp: "length ?ct = length p + 16"
    using assms(1) rd(4) unfolding open_chunk_def xaead_authentic_def by blast+
  have lct: "length ?ct = chunk_length d" using rd(3) by simp
  then have ex: "expected_plain d = length p" using lp rd(2) by (simp add: MEDIA_TAG_SIZE_def)
  have wle: "unat (mx_written e) \<le> unat (mx_size e)" "unat (mx_written e) < unat (mx_size e)"
    using assms(2) rd(1) by (simp_all add: in_step_def word_le_nat_alt word_less_nat_alt)
  have p: "p \<noteq> []" "length p \<le> MEDIA_CHUNK_SIZE" "unat (mx_written e) + length p \<le> unat (mx_size e)"
    "unat (mx_written e) + length p = unat (mx_size e) \<or> length p = MEDIA_CHUNK_SIZE"
    using ex in_step_expected [OF assms(2)] wle by (auto simp: MEDIA_CHUNK_SIZE_def)
  define e' where "e' = e\<lparr>mx_written := mx_written e + word_of_nat (length p), mx_index := mx_index e + 1\<rparr>"
  have w: "unat (mx_written e + word_of_nat (length p)) = unat (mx_written e) + length p"
    by (rule unat_written [OF p(3)])
  have "unat (word_of_nat (length p) :: u64) = length p" using p(2) by (simp add: unat_of_nat const_defs)
  moreover have "unat (mx_written e) + length p < 2 ^ 64" using p(3) unsigned_less [of "mx_size e", where 'a = nat] by simp
  moreover have "unat (mx_index e) + 1 < 2 ^ 64"
    using rd(5) assms(2) unsigned_less [of "mx_index e", where 'a = nat]
    by (simp add: in_step_def word_unat_eq_iff unat_max_word)
  moreover have "x_encrypt E (mx_key e) (media_nonce (mx_prefix e) (mx_index e))
     (media_chunk_aad (mx_aad e) (media_header (mx_size e) (mx_prefix e)) (mx_index e) (word_of_nat (length p))) p = Some ?ct"
    using enc assms(2) ex by (simp add: in_step_def)
  ultimately have "seal_chunk E p e = (Inr (to_be_bytes (word_of_nat (length ?ct) :: u32) @ ?ct), e')"
    using p w by (auto simp: seal_chunk_def checked_add_def e'_def word_less_nat_alt word_unat_eq_iff)
  moreover have "to_be_bytes (word_of_nat (length ?ct) :: u32) = take 4 (md_pending d)"
    using rd(3) by (simp add: lct be32.enc_dec)
  then have "md_pending d = (to_be_bytes (word_of_nat (length ?ct) :: u32) @ ?ct) @ md_pending (accept_chunk p d)"
    using take_take_drop [of 4 "md_pending d" "chunk_length d"] by (simp only: accept_chunk_def media_decryptor.simps append_assoc)
       (simp add: media_decryptor.simps)
  moreover have "in_step e' (accept_chunk p d)" by (rule in_step_advance [OF assms(2) p(3,1) e'_def])
  ultimately show ?thesis using that by blast
qed

lemma seal_chunks_drain:
  assumes "xaead_laws E"
  shows "seal_chunks E cs e = (Inr rs, e') \<Longrightarrow> in_step e d \<Longrightarrow> md_pending d = concat rs \<Longrightarrow>
    \<exists>d'. media_drain E d out = (Inr (out @ cs), d') \<and> in_step e' d' \<and> md_pending d' = []"
proof (induction cs arbitrary: e rs d out)
  case Nil
  then have "waiting d" by (auto simp: waiting_def)
  then show ?case using Nil media_drain_waiting [of d E out] by auto
next
  case (Cons c cs)
  then obtain r e1 rs' where s: "seal_chunk E c e = (Inr r, e1)" "seal_chunks E cs e1 = (Inr rs', e')" "rs = r # rs'"
    by (auto split: prod.splits sum.splits)
  then have p: "md_pending d = r @ concat rs'" using Cons.prems(3) by simp
  note step = seal_read_step [OF assms Cons.prems(2) s(1) p]
  show ?case using Cons.IH [OF s(2) step(2,3), of "out @ [c]"] media_drain_readable [OF step(1), of out] by simp
qed

lemma drain_seal_chunks:
  assumes "xaead_authentic E"
  shows "media_drain E d out = (Inr res, d') \<Longrightarrow> in_step e d \<Longrightarrow>
    \<exists>cs rs e'. res = out @ cs \<and> seal_chunks E cs e = (Inr rs, e') \<and> in_step e' d' \<and> md_pending d = concat rs @ md_pending d'"
proof (induction arbitrary: e rule: media_drain_Inr_induct)
  case (stop d out)
  then show ?case by (intro exI [of _ "[]"] exI [of _ e]) simp
next
  case (read d out p res d')
  obtain r e1 where r: "seal_chunk E p e = (Inr r, e1)" "in_step e1 (accept_chunk p d)"
    "md_pending d = r @ md_pending (accept_chunk p d)"
    by (rule read_seal_step [OF assms read(4,1)])
  obtain cs rs e' where cs: "res = (out @ [p]) @ cs" "seal_chunks E cs e1 = (Inr rs, e')" "in_step e' d'"
    "md_pending (accept_chunk p d) = concat rs @ md_pending d'"
    using read.IH [OF r(2)] by blast
  then show ?case using r by (intro exI [of _ "p # cs"] exI [of _ "r # rs"] exI [of _ e']) simp
qed

lemma seal_chunk_accepts:
  assumes "xaead_laws E" "length (mx_key e) = 32" "length (mx_prefix e) = 16" "mx_index e \<le> mx_written e" "c \<noteq> []"
    "length c \<le> MEDIA_CHUNK_SIZE" "unat (mx_written e) + length c \<le> unat (mx_size e)"
    "unat (mx_written e) + length c = unat (mx_size e) \<or> length c = MEDIA_CHUNK_SIZE"
  obtains r where "seal_chunk E c e = (Inr r, e\<lparr>mx_written := mx_written e + word_of_nat (length c), mx_index := mx_index e + 1\<rparr>)"
    "length r = length c + 20"
proof -
  have lens: "length (media_nonce (mx_prefix e) (mx_index e)) = 24" "length c < 2 ^ 32"
    using assms(3,6) by (simp_all add: media_nonce_def const_defs)
  then obtain ct where ct: "x_encrypt E (mx_key e) (media_nonce (mx_prefix e) (mx_index e))
      (media_chunk_aad (mx_aad e) (media_header (mx_size e) (mx_prefix e)) (mx_index e) (word_of_nat (length c))) c = Some ct"
    "length ct = length c + 16"
    using assms(1,2) unfolding xaead_laws_def by blast
  have s: "unat (mx_size e) < 2 ^ 64" using unsigned_less [of "mx_size e", where 'a = nat] by simp
  have "0 < length c" using assms(5) by simp
  then have "unat (mx_index e) + 1 < 2 ^ 64" using assms(4,7) s unfolding word_le_nat_alt by linarith
  moreover have "unat (word_of_nat (length c) :: u64) = length c" using assms(6) by (simp add: unat_of_nat const_defs)
  moreover have "unat (mx_written e) + length c < 2 ^ 64" using assms(7) s by linarith
  moreover note unat_written [OF assms(7)]
  ultimately show ?thesis using assms(5-8) ct
    by (intro that [of "to_be_bytes (word_of_nat (length ct) :: u32) @ ct"])
      (auto simp: seal_chunk_def checked_add_def word_less_nat_alt word_unat_eq_iff)
qed

lemma media_chunks_Nil [simp]: "media_chunks [] = []"
  by (simp add: media_chunks.simps)

lemma concat_media_chunks [simp]: "concat (media_chunks m) = m"
  by (induction m rule: media_chunks.induct) (subst media_chunks.simps, simp)

lemma length_media_chunks: "length (media_chunks m) = div_ceil (length m) MEDIA_CHUNK_SIZE"
proof (induction m rule: media_chunks.induct)
  case (1 m)
  show ?case
  proof (cases "length m \<le> MEDIA_CHUNK_SIZE")
    case True
    then show ?thesis
      by (subst media_chunks.simps) (auto simp: div_ceil_def MEDIA_CHUNK_SIZE_def le_less div_if mod_if)
  next
    case False
    then have "m \<noteq> []" by auto
    then show ?thesis using False 1
      by (subst media_chunks.simps) (auto simp: div_ceil_def MEDIA_CHUNK_SIZE_def le_div_geq le_mod_geq)
  qed
qed

lemma media_chunks_sealed:
  assumes "xaead_laws E"
  shows "length (mx_key e) = 32 \<Longrightarrow> length (mx_prefix e) = 16 \<Longrightarrow> mx_index e \<le> mx_written e \<Longrightarrow>
    unat (mx_written e) + length m = unat (mx_size e) \<Longrightarrow>
    \<exists>rs e'. seal_chunks E (media_chunks m) e = (Inr rs, e') \<and> mx_written e' = mx_size e' \<and> mx_size e' = mx_size e
      \<and> length (concat rs) = length m + 20 * length (media_chunks m)"
proof (induction m arbitrary: e rule: media_chunks.induct)
  case (1 m)
  show ?case
  proof (cases "m = []")
    case True
    then show ?thesis using "1.prems" by (simp add: word_unat_eq_iff)
  next
    case False
    let ?c = "take MEDIA_CHUNK_SIZE m" and ?m = "drop MEDIA_CHUNK_SIZE m"
    let ?e = "e\<lparr>mx_written := mx_written e + word_of_nat (length ?c), mx_index := mx_index e + 1\<rparr>"
    have c: "?c \<noteq> []" "length ?c \<le> MEDIA_CHUNK_SIZE" "unat (mx_written e) + length ?c \<le> unat (mx_size e)"
      "unat (mx_written e) + length ?c = unat (mx_size e) \<or> length ?c = MEDIA_CHUNK_SIZE"
      using False "1.prems"(4) by (auto simp: MEDIA_CHUNK_SIZE_def min_def)
    obtain r where r: "seal_chunk E ?c e = (Inr r, ?e)" "length r = length ?c + 20"
      by (rule seal_chunk_accepts [OF assms "1.prems"(1-3) c])
    have w: "unat (mx_written ?e) = unat (mx_written e) + length ?c" using unat_written [OF c(3)] by simp
    have "0 < length ?c" using c(1) by simp
    then have i: "unat (mx_index e) + 1 \<le> unat (mx_written e) + length ?c"
      using "1.prems"(3) unfolding word_le_nat_alt by linarith
    then have "unat (mx_index e + 1) = unat (mx_index e) + 1"
      using c(3) unat_written [of "mx_index e" 1 "mx_size e"] by simp
    then have "mx_index ?e \<le> mx_written ?e" using w i by (simp add: word_le_nat_alt)
    moreover have "unat (mx_written ?e) + length ?m = unat (mx_size ?e)"
      using w "1.prems"(4) by simp
    ultimately obtain rs e' where "seal_chunks E (media_chunks ?m) ?e = (Inr rs, e')" "mx_written e' = mx_size e'"
      "mx_size e' = mx_size e" "length (concat rs) = length ?m + 20 * length (media_chunks ?m)"
      using "1.IH" [OF False, of ?e] "1.prems"(1,2) by auto
    moreover have "media_chunks m = ?c # media_chunks ?m" using False by (subst media_chunks.simps) simp
    ultimately show ?thesis using r by (intro exI [of _ "r # rs"] exI [of _ e']) simp
  qed
qed

lemma length_media_header: "length prefix = 16 \<Longrightarrow> length (media_header n prefix) = MEDIA_HEADER_SIZE"
  by (simp add: media_header_def MEDIA_MAGIC_def const_defs)

lemma media_header_parts:
  assumes "length prefix = 16"
  shows "take 4 (media_header n prefix) = MEDIA_MAGIC" "media_header n prefix ! 4 = MEDIA_ENVELOPE_VERSION"
    "media_header n prefix ! 5 = 16" "media_header n prefix ! 6 = 0" "media_header n prefix ! 7 = 0"
    "take 8 (drop 8 (media_header n prefix)) = to_be_bytes n" "drop 16 (media_header n prefix) = prefix"
  using assms by (simp_all add: media_header_def MEDIA_MAGIC_def nth_append)

lemma media_read_header_exact:
  assumes "length prefix = 16" "md_pending d = media_header n prefix @ rest"
  shows "media_read_header d = Inr (d\<lparr>md_size := n, md_prefix := prefix, md_pending := rest, md_header_read := True\<rparr>)"
proof -
  have "take MEDIA_HEADER_SIZE (md_pending d) = media_header n prefix" "drop MEDIA_HEADER_SIZE (md_pending d) = rest"
    using assms length_media_header [OF assms(1)] by simp_all
  then show ?thesis by (simp add: media_read_header_def Let_def media_header_parts [OF assms(1)])
qed

lemma take8_split:
  assumes "length xs = 8" shows "xs = take 4 xs @ [xs ! 4, xs ! 5, xs ! 6, xs ! 7]"
proof -
  have "drop 4 xs = [xs ! 4, xs ! 5, xs ! 6, xs ! 7]"
    using assms by (intro nth_equalityI) (auto simp: less_Suc_eq numeral_eq_Suc)
  then show ?thesis by (metis append_take_drop_id)
qed

lemma media_read_header_Inr:
  assumes "media_read_header d = Inr d'" "MEDIA_HEADER_SIZE \<le> length (md_pending d)"
  shows "md_pending d = media_header (md_size d') (md_prefix d') @ md_pending d'" "length (md_prefix d') = 16"
    "d' = d\<lparr>md_size := md_size d', md_prefix := md_prefix d', md_pending := md_pending d', md_header_read := True\<rparr>"
proof -
  let ?h = "take 32 (md_pending d)"
  have h: "take 4 ?h = MEDIA_MAGIC" "?h ! 4 = MEDIA_ENVELOPE_VERSION" "?h ! 5 = 16" "?h ! 6 = 0" "?h ! 7 = 0"
    "md_size d' = from_be_bytes (take 8 (drop 8 ?h))" "md_prefix d' = drop 16 ?h" "md_pending d' = drop 32 (md_pending d)"
    "d' = d\<lparr>md_size := md_size d', md_prefix := md_prefix d', md_pending := md_pending d', md_header_read := True\<rparr>"
    using assms(1) by (auto simp: media_read_header_def Let_def MEDIA_HEADER_SIZE_def split: if_splits)
  have len: "length ?h = 32" using assms(2) by (simp add: MEDIA_HEADER_SIZE_def)
  have "take 8 ?h = MEDIA_MAGIC @ [MEDIA_ENVELOPE_VERSION, 16, 0, 0]"
    using take8_split [of "take 8 ?h"] h(1-5) len by simp
  moreover have "to_be_bytes (md_size d') = take 8 (drop 8 ?h)" using len by (simp add: h(6) be64.enc_dec)
  moreover have "?h = take 8 ?h @ take 8 (drop 8 ?h) @ drop 16 ?h" using take_take_drop [of 8 ?h 8] by simp
  ultimately have "?h = media_header (md_size d') (md_prefix d')" by (simp add: media_header_def h(7))
  then show "md_pending d = media_header (md_size d') (md_prefix d') @ md_pending d'"
    by (metis append_take_drop_id h(8))
  show "length (md_prefix d') = 16" using len by (simp add: h(7))
qed (use assms(1) in \<open>auto simp: media_read_header_def Let_def split: if_splits\<close>)

lemma encrypted_media_size_exact:
  assumes "n < 2 ^ 63"
  shows "encrypted_media_size (word_of_nat n) =
    Inr (word_of_nat (n + 20 * div_ceil n MEDIA_CHUNK_SIZE + MEDIA_HEADER_SIZE))"
proof -
  let ?k = "div_ceil n MEDIA_CHUNK_SIZE"
  have k: "?k \<le> n div 65536 + 1" by (simp add: div_ceil_def MEDIA_CHUNK_SIZE_def)
  moreover have "n div 65536 < 2 ^ 47" using assms by (simp add: less_mult_imp_div_less)
  ultimately have b: "?k < 2 ^ 48" by simp
  have u: "unat (word_of_nat n :: u64) = n" using assms by (simp add: unat_of_nat)
  have uk: "unat (word_of_nat ?k :: u64) = ?k" using b by (simp add: unat_of_nat)
  have s: "unat (word_of_nat (20 * ?k) :: u64) = 20 * ?k" "unat (word_of_nat (20 * ?k + 32) :: u64) = 20 * ?k + 32"
    using b by (simp_all only: unat_of_nat) simp_all
  have "checked_mul (word_of_nat ?k :: u64) (word_of_nat (4 + MEDIA_TAG_SIZE)) = Some (word_of_nat (20 * ?k))"
    using b uk by (simp add: checked_mul_def MEDIA_TAG_SIZE_def mult.commute)
  moreover have "checked_add (word_of_nat (20 * ?k) :: u64) (word_of_nat MEDIA_HEADER_SIZE) = Some (word_of_nat (20 * ?k + 32))"
    using b s(1) by (simp add: checked_add_def MEDIA_HEADER_SIZE_def)
  moreover have "checked_add (word_of_nat n :: u64) (word_of_nat (20 * ?k + 32)) = Some (word_of_nat (n + (20 * ?k + 32)))"
    using b u s(2) assms by (simp add: checked_add_def)
  ultimately show ?thesis using u
    by (simp add: encrypted_media_size_def Let_def MEDIA_HEADER_SIZE_def add.assoc del: of_nat_add of_nat_mult)
qed

lemma media_container:
  assumes "xaead_laws E" "length key = 32" "length prefix = 16" "length m < 2 ^ 63"
    and "media_encryptor_new (Some prefix) key aad (word_of_nat (length m)) = Inr e" "media_decryptor_new key aad = Inr d"
  shows "\<exists>rs e'. seal_chunks E (media_chunks m) e = (Inr rs, e') \<and> media_encryptor_finish e' = Inr ()
    \<and> encrypted_media_size (word_of_nat (length m)) = Inr (word_of_nat (length (media_header (mx_size e) (mx_prefix e) @ concat rs)))
    \<and> length (media_header (mx_size e) (mx_prefix e) @ concat rs) < 2 ^ 64
    \<and> (\<forall>slices. concat slices = media_header (mx_size e) (mx_prefix e) @ concat rs \<longrightarrow>
        (\<exists>outs d'. push_all E slices d = (Inr outs, d') \<and> concat outs = m
           \<and> media_decryptor_finish d' = Inr (word_of_nat (length m))))"
proof -
  have e: "e = \<lparr>mx_key = key, mx_aad = aad, mx_prefix = prefix, mx_size = word_of_nat (length m), mx_written = 0, mx_index = 0\<rparr>"
    and d: "d = \<lparr>md_key = key, md_aad = aad, md_prefix = replicate 16 0, md_size = 0, md_written = 0,
       md_index = 0, md_pending = [], md_header_read = False\<rparr>"
    using assms by (simp_all add: media_encryptor_new_def media_decryptor_new_def random_bytes_def)
  have u: "unat (word_of_nat (length m) :: u64) = length m" using assms(4) by (simp add: unat_of_nat)
  obtain rs e' where rs: "seal_chunks E (media_chunks m) e = (Inr rs, e')" "mx_written e' = mx_size e'" "mx_size e' = mx_size e"
    "length (concat rs) = length m + 20 * length (media_chunks m)"
    using media_chunks_sealed [OF assms(1), of e m] assms(2,3) u by (auto simp: e)
  let ?h = "media_header (mx_size e) (mx_prefix e)"
  have h: "length ?h = MEDIA_HEADER_SIZE" using assms(3) by (simp add: e length_media_header)
  have "\<exists>outs d'. push_all E slices d = (Inr outs, d') \<and> concat outs = m \<and> media_decryptor_finish d' = Inr (word_of_nat (length m))"
    if "concat slices = ?h @ concat rs" for slices
  proof -
    let ?d = "d\<lparr>md_size := mx_size e, md_prefix := mx_prefix e, md_pending := concat rs, md_header_read := True\<rparr>"
    have "in_step e ?d" using assms(2,3) by (simp add: in_step_def e d)
    then obtain d' where d': "media_drain E ?d [] = (Inr (media_chunks m), d')" "in_step e' d'" "md_pending d' = []"
      using seal_chunks_drain [OF assms(1) rs(1), of ?d "[]"] by auto
    have "media_read_header (feed (?h @ concat rs) d) = Inr ?d"
      using media_read_header_exact [of "mx_prefix e" "feed (?h @ concat rs) d" "mx_size e" "concat rs"] assms(3) by (simp add: e d)
    then have "media_push E (concat slices) d = (Inr (media_chunks m), d')"
      using d'(1) h that by (simp add: media_push_def Let_def d)
    moreover have "slices \<noteq> []" using that h by (auto simp: MEDIA_HEADER_SIZE_def)
    ultimately have "push_all E slices d = (Inr (media_chunks m), d')" using push_all_concat by blast
    moreover have "media_decryptor_finish d' = Inr (word_of_nat (length m))"
      using d'(2,3) rs(2,3) by (simp add: media_decryptor_finish_def in_step_def e)
    ultimately show ?thesis by auto
  qed
  moreover have "encrypted_media_size (word_of_nat (length m)) = Inr (word_of_nat (length (?h @ concat rs)))"
    using encrypted_media_size_exact [OF assms(4)] h rs(4) by (simp add: length_media_chunks algebra_simps del: length_concat)
  moreover have "length (?h @ concat rs) < 2 ^ 64"
  proof -
    have "length (media_chunks m) \<le> length m div MEDIA_CHUNK_SIZE + 1" by (simp add: length_media_chunks div_ceil_def)
    moreover have "length m div MEDIA_CHUNK_SIZE \<le> 2 ^ 63 div MEDIA_CHUNK_SIZE" using assms(4) by (intro div_le_mono) simp
    ultimately show ?thesis using assms(4) h rs(4) by (simp add: const_defs del: length_concat)
  qed
  ultimately show ?thesis using rs(1,2) by (auto simp: media_encryptor_finish_def)
qed

section \<open>Properties\<close>

text \<open>
  C26: an object of fewer than 2^63 bytes is encrypted in 64 KiB chunks without error, the
  stored container has exactly the size computed before the upload, and however
  the container is cut into slices on the way back, the decryptor returns the
  object's bytes in order and finishes with its size.
\<close>

theorem media_stream_delivery:
  assumes "xaead_laws E" "length key = 32" "length prefix = 16" "length m < 2 ^ 63"
    and "media_encryptor_new (Some prefix) key aad (word_of_nat (length m)) = Inr e" "media_decryptor_new key aad = Inr d"
  shows "\<exists>rs e'. seal_chunks E (media_chunks m) e = (Inr rs, e') \<and> media_encryptor_finish e' = Inr ()
    \<and> encrypted_media_size (word_of_nat (length m)) = Inr (word_of_nat (length (media_header (mx_size e) (mx_prefix e) @ concat rs)))
    \<and> (\<forall>slices. concat slices = media_header (mx_size e) (mx_prefix e) @ concat rs \<longrightarrow>
        (\<exists>outs d'. push_all E slices d = (Inr outs, d') \<and> concat outs = m
           \<and> media_decryptor_finish d' = Inr (word_of_nat (length m))))"
  using media_container [OF assms] by blast

text \<open>
  C12: when the decryptor accepts a stream to its end, in whatever slices, the stream is
  exactly a container the encryptor produces under the same key, file context,
  declared size and nonce prefix for the returned chunks: nothing was cut off,
  appended, repeated, reordered or taken from another object.
\<close>

theorem media_stream_authentic:
  assumes "xaead_authentic E" "media_decryptor_new key aad = Inr d" "push_all E slices d = (Inr outs, d')"
    and "media_decryptor_finish d' = Inr n"
  shows "\<exists>prefix e rs e'. media_encryptor_new (Some prefix) key aad n = Inr e \<and> length prefix = 16
    \<and> seal_chunks E outs e = (Inr rs, e') \<and> media_encryptor_finish e' = Inr ()
    \<and> concat slices = media_header n prefix @ concat rs"
proof -
  have key: "length key = 32" and d: "d = \<lparr>md_key = key, md_aad = aad, md_prefix = replicate 16 0, md_size = 0, md_written = 0,
       md_index = 0, md_pending = [], md_header_read = False\<rparr>"
    using assms(2) by (auto simp: media_decryptor_new_def split: if_splits)
  have fin: "md_header_read d'" "md_written d' = md_size d'" "md_pending d' = []" "n = md_size d'"
    using assms(4) by (auto simp: media_decryptor_finish_def split: if_splits)
  have "slices \<noteq> []" using assms(3) fin(1) by (auto simp: d)
  then have push: "media_push E (concat slices) d = (Inr outs, d')" using assms(3) push_all_concat by blast
  then obtain d1 where d1: "MEDIA_HEADER_SIZE \<le> length (concat slices)"
    "media_read_header (feed (concat slices) d) = Inr d1" "media_drain E d1 [] = (Inr outs, d')"
    using fin(1) by (auto simp: media_push_def Let_def d split: if_splits sum.splits)
  note hd = media_read_header_Inr [OF d1(2)]
  let ?e = "\<lparr>mx_key = key, mx_aad = aad, mx_prefix = md_prefix d1, mx_size = md_size d1, mx_written = 0, mx_index = 0\<rparr>"
  have pre: "length (md_prefix d1) = 16" and split: "concat slices = media_header (md_size d1) (md_prefix d1) @ md_pending d1"
    using hd d1(1) by (simp_all add: d)
  have "md_key d1 = key \<and> md_aad d1 = aad \<and> md_written d1 = 0 \<and> md_index d1 = 0 \<and> md_header_read d1"
    using d1(2) by (auto simp: media_read_header_def Let_def d split: if_splits)
  then have st: "in_step ?e d1" using pre key by (simp add: in_step_def)
  obtain rs e' where rs: "seal_chunks E outs ?e = (Inr rs, e')" "in_step e' d'" "md_pending d1 = concat rs @ md_pending d'"
    using drain_seal_chunks [OF assms(1) d1(3) st] by auto
  have "md_size d' = md_size d1" using d1(3) by (induction rule: media_drain_Inr_induct) (auto simp: accept_chunk_def)
  then show ?thesis using rs fin pre key split
    by (rule_tac x = "md_prefix d1" in exI, rule_tac x = ?e in exI, rule_tac x = rs in exI, rule_tac x = e' in exI)
      (simp add: media_encryptor_new_def random_bytes_def media_encryptor_finish_def in_step_def)
qed

section \<open>Example streams\<close>

abbreviation toy_key :: bytes where "toy_key \<equiv> replicate 32 0"

theorem media_stream_delivery_witness:
  "\<exists>e d rs e' outs d'. media_encryptor_new (Some (replicate 16 1)) toy_key [] 3 = Inr e \<and> media_decryptor_new toy_key [] = Inr d
    \<and> seal_chunks toy_e2e (media_chunks [7, 8, 9]) e = (Inr rs, e')
    \<and> push_all toy_e2e [media_header (mx_size e) (mx_prefix e), concat rs] d = (Inr outs, d') \<and> concat outs = [7, 8, 9]"
proof -
  obtain e d where n: "media_encryptor_new (Some (replicate 16 1)) toy_key [] 3 = Inr e" "media_decryptor_new toy_key [] = Inr d"
    by (simp add: media_encryptor_new_def media_decryptor_new_def random_bytes_def)
  then have s: "media_encryptor_new (Some (replicate 16 1)) toy_key [] (word_of_nat (length [7, 8, 9 :: byte])) = Inr e" by simp
  have l: "length toy_key = 32" "length (replicate 16 (1 :: byte)) = 16" "length [7, 8, 9 :: byte] < 2 ^ 63" by simp_all
  obtain rs e' where
    "seal_chunks toy_e2e (media_chunks [7, 8, 9]) e = (Inr rs, e')"
    "\<forall>slices. concat slices = media_header (mx_size e) (mx_prefix e) @ concat rs \<longrightarrow>
        (\<exists>outs d'. push_all toy_e2e slices d = (Inr outs, d') \<and> concat outs = [7, 8, 9])"
    using media_stream_delivery [OF toy_e2e_laws(3) l s n(2)] by (elim exE conjE) (rule that, assumption, blast)
  then show ?thesis using n by (metis concat.simps append_Nil2)
qed

lemma toy_container:
  defines "h \<equiv> media_header 1 (replicate 16 0)" and "ct \<equiv> [5] @ replicate 16 (0 :: byte)"
  assumes "media_decryptor_new toy_key [] = Inr d"
  shows "\<exists>d'. push_all toy_e2e [h @ [0, 0, 0, 17] @ ct] d = (Inr [[5]], d') \<and> media_decryptor_finish d' = Inr 1"
proof -
  have d: "d = \<lparr>md_key = toy_key, md_aad = [], md_prefix = replicate 16 0, md_size = 0, md_written = 0,
       md_index = 0, md_pending = [], md_header_read = False\<rparr>"
    using assms(3) by (simp add: media_decryptor_new_def)
  let ?d = "d\<lparr>md_size := 1, md_prefix := replicate 16 0, md_pending := [0, 0, 0, 17] @ ct, md_header_read := True\<rparr>"
  have cl: "chunk_length ?d = 17" by (simp add: codec_simps from_be_bytes_def be_decode_def)
  have ex: "expected_plain ?d = 1" by (simp add: d MEDIA_CHUNK_SIZE_def)
  have "readable toy_e2e ?d [5]"
    unfolding readable_def open_chunk_def cl ex by (simp add: d ct_def toy_e2e_def toy_crypto_def MEDIA_TAG_SIZE_def)
  then have "media_drain toy_e2e ?d [] = media_drain toy_e2e (accept_chunk [5] ?d) [[5]]" by (simp add: media_drain_readable)
  moreover have a: "accept_chunk [5] ?d = ?d\<lparr>md_pending := [], md_written := 1, md_index := 1\<rparr>"
    unfolding accept_chunk_def cl by (simp add: d ct_def)
  moreover have "waiting (accept_chunk [5] ?d)" unfolding a by (simp add: waiting_def)
  ultimately have dr: "media_drain toy_e2e ?d [] = (Inr [[5]], accept_chunk [5] ?d)" by (simp add: media_drain_waiting)
  have "media_read_header (feed (h @ [0, 0, 0, 17] @ ct) d) = Inr ?d"
    using media_read_header_exact [of "replicate 16 0" "feed (h @ [0, 0, 0, 17] @ ct) d" 1 "[0, 0, 0, 17] @ ct"]
    by (simp add: d h_def)
  then have "push_all toy_e2e [h @ [0, 0, 0, 17] @ ct] d = (Inr [[5]], accept_chunk [5] ?d)"
    using dr length_media_header [of "replicate 16 0" 1] by (simp add: media_push_def Let_def d h_def)
  then show ?thesis using a by (simp add: media_decryptor_finish_def)
qed

theorem media_stream_authentic_witness:
  "\<exists>d d' prefix e rs e'. media_decryptor_new toy_key [] = Inr d
    \<and> push_all toy_e2e [media_header 1 (replicate 16 0) @ [0, 0, 0, 17] @ [5] @ replicate 16 0] d = (Inr [[5]], d')
    \<and> media_encryptor_new (Some prefix) toy_key [] 1 = Inr e \<and> seal_chunks toy_e2e [[5]] e = (Inr rs, e')
    \<and> media_header 1 (replicate 16 0) @ [0, 0, 0, 17] @ [5] @ replicate 16 0 = media_header 1 prefix @ concat rs"
proof -
  obtain d where d: "media_decryptor_new toy_key [] = Inr d" by (simp add: media_decryptor_new_def)
  from toy_container [OF d] obtain d' where d': "push_all toy_e2e [media_header 1 (replicate 16 0) @ [0, 0, 0, 17] @ [5] @ replicate 16 0] d
      = (Inr [[5]], d')" "media_decryptor_finish d' = Inr 1" by blast
  show ?thesis using media_stream_authentic [OF toy_e2e_laws(6) d d'] d d'(1) by (simp only: concat.simps append_Nil2) blast
qed

end
