(* ===== verification/Outbox.thy ===== *)
theory Outbox
  imports Text
begin

text \<open>
  The persistent send queue of \<open>src/outbox.rs\<close>: items with a delivery state, a
  claim operation for the sender, exponential retry delays and snapshot
  validation.  The JSON codec is a parameter, the clock an argument.
\<close>

section \<open>Data\<close>

datatype delivery_state = Queued | Sending | Delivered | Failed

record queue_item =
  qi_id :: string
  qi_payload :: string
  qi_state :: delivery_state
  qi_attempts :: u32
  qi_next_attempt_at_ms :: u64
  qi_progress_percent :: u8
  qi_error :: "string option"

record retry_policy =
  rp_max_attempts :: u32
  rp_initial_delay_ms :: u64
  rp_max_delay_ms :: u64

definition default_retry_policy :: retry_policy where
  "default_retry_policy = \<lparr>rp_max_attempts = 8, rp_initial_delay_ms = 1000, rp_max_delay_ms = 5 * 60 * 1000\<rparr>"

type_synonym outbox = "queue_item list"

section \<open>Operations\<close>

definition queue_item_new :: "string \<Rightarrow> string \<Rightarrow> queue_item result" where
  "queue_item_new i payload =
    (if trim_is_empty i \<or> length i > 256 \<or> any_control i then Inl (invalid_input ''queue item id is invalid'')
     else Inr \<lparr>qi_id = i, qi_payload = payload, qi_state = Queued, qi_attempts = 0, qi_next_attempt_at_ms = 0,
       qi_progress_percent = 0, qi_error = None\<rparr>)"

text \<open>\<open>iter_mut().find(p)\<close> followed by an assignment: the first matching item is updated.\<close>

fun update_first :: "('x \<Rightarrow> bool) \<Rightarrow> ('x \<Rightarrow> 'x) \<Rightarrow> 'x list \<Rightarrow> 'x list" where
  "update_first P f [] = []"
| "update_first P f (x # xs) = (if P x then f x # xs else x # update_first P f xs)"

definition enqueue :: "queue_item \<Rightarrow> outbox \<Rightarrow> unit result \<times> outbox" where
  "enqueue item ob =
    (if list_ex (\<lambda>e. qi_id e = qi_id item) ob then (Inl (IoError AlreadyExists ''queue item already exists''), ob)
     else (Inr (), ob @ [item]))"

definition ready :: "u64 \<Rightarrow> queue_item \<Rightarrow> bool" where
  "ready now item = (qi_state item = Queued \<and> qi_next_attempt_at_ms item \<le> now)"

definition claim :: "queue_item \<Rightarrow> queue_item" where
  "claim item = item\<lparr>qi_state := Sending, qi_progress_percent := min (qi_progress_percent item) 99, qi_error := None\<rparr>"

definition claim_ready :: "u64 \<Rightarrow> outbox \<Rightarrow> string option \<times> outbox" where
  "claim_ready now ob = (case List.find (ready now) ob of
      None \<Rightarrow> (None, ob)
    | Some item \<Rightarrow> (Some (qi_id item), update_first (ready now) claim ob))"

definition find_item :: "string \<Rightarrow> outbox \<Rightarrow> queue_item option" where
  "find_item i ob = List.find (\<lambda>e. qi_id e = i) ob"

definition update_item :: "string \<Rightarrow> (queue_item \<Rightarrow> queue_item) \<Rightarrow> outbox \<Rightarrow> outbox" where
  "update_item i f ob = update_first (\<lambda>e. qi_id e = i) f ob"

definition update_progress :: "string \<Rightarrow> u8 \<Rightarrow> outbox \<Rightarrow> bool \<times> outbox" where
  "update_progress i percent ob = (case find_item i ob of
      None \<Rightarrow> (False, ob)
    | Some item \<Rightarrow> if qi_state item \<noteq> Sending then (False, ob)
        else (True, update_item i (\<lambda>e. e\<lparr>qi_progress_percent := min percent 99\<rparr>) ob))"

definition deliver_item :: "queue_item \<Rightarrow> queue_item" where
  "deliver_item e = e\<lparr>qi_state := Delivered, qi_progress_percent := 100, qi_error := None\<rparr>"

definition mark_delivered :: "string \<Rightarrow> outbox \<Rightarrow> bool \<times> outbox" where
  "mark_delivered i ob = (case find_item i ob of
      None \<Rightarrow> (False, ob) | Some item \<Rightarrow> (True, update_item i deliver_item ob))"

definition retry_delay :: "retry_policy \<Rightarrow> u32 \<Rightarrow> u64" where
  "retry_delay p attempts =
    (let exponent = min (saturating_sub attempts 1) 31 in
     min (saturating_mul (rp_initial_delay_ms p) (push_bit (unat exponent) 1)) (rp_max_delay_ms p))"

definition fail_item :: "u64 \<Rightarrow> string \<Rightarrow> retry_policy \<Rightarrow> queue_item \<Rightarrow> queue_item" where
  "fail_item now err p e =
    (let e = e\<lparr>qi_attempts := saturating_add (qi_attempts e) 1, qi_error := Some err\<rparr> in
     if qi_attempts e \<ge> rp_max_attempts p
     then e\<lparr>qi_state := Failed, qi_next_attempt_at_ms := 0\<rparr>
     else e\<lparr>qi_state := Queued, qi_next_attempt_at_ms := saturating_add now (retry_delay p (qi_attempts e))\<rparr>)"

definition mark_failed :: "u64 \<Rightarrow> string \<Rightarrow> string \<Rightarrow> retry_policy \<Rightarrow> outbox \<Rightarrow> bool \<times> outbox" where
  "mark_failed now i err p ob = (case find_item i ob of
      None \<Rightarrow> (False, ob) | Some item \<Rightarrow> (True, update_item i (fail_item now err p) ob))"

definition requeue_item :: "queue_item \<Rightarrow> queue_item" where
  "requeue_item e = e\<lparr>qi_state := Queued, qi_next_attempt_at_ms := 0, qi_error := None\<rparr>"

definition retry_failed :: "string \<Rightarrow> outbox \<Rightarrow> bool \<times> outbox" where
  "retry_failed i ob = (case find_item i ob of
      None \<Rightarrow> (False, ob)
    | Some item \<Rightarrow> if qi_state item \<noteq> Failed then (False, ob) else (True, update_item i requeue_item ob))"

definition remove_delivered :: "outbox \<Rightarrow> outbox" where
  "remove_delivered ob = filter (\<lambda>e. qi_state e \<noteq> Delivered) ob"

fun validate :: "outbox \<Rightarrow> unit result" where
  "validate [] = Inr ()"
| "validate (e # es) =
    (if trim_is_empty (qi_id e) \<or> length (qi_id e) > 256 then Inl (invalid_input ''outbox contains invalid item id'')
     else if qi_progress_percent e > 100 then Inl (invalid_input ''outbox contains invalid progress'')
     else validate es)"

definition outbox_from_json :: "(string \<Rightarrow> outbox option) \<Rightarrow> string \<Rightarrow> outbox result" where
  "outbox_from_json parse raw =
    rbind (ok_or (parse raw) (invalid_input ''invalid outbox JSON'')) (\<lambda>queue. rbind (validate queue) (\<lambda>_. Inr queue))"

section \<open>The transition system\<close>

inductive outbox_step :: "outbox \<Rightarrow> outbox \<Rightarrow> bool" where
  step_enqueue: "queue_item_new i payload = Inr item \<Longrightarrow> outbox_step ob (snd (enqueue item ob))"
| step_claim: "outbox_step ob (snd (claim_ready now ob))"
| step_progress: "outbox_step ob (snd (update_progress i percent ob))"
| step_delivered: "outbox_step ob (snd (mark_delivered i ob))"
| step_failed: "outbox_step ob (snd (mark_failed now i err p ob))"
| step_retry: "outbox_step ob (snd (retry_failed i ob))"
| step_remove: "outbox_step ob (remove_delivered ob)"

text \<open>What every item of a queue built by the operations satisfies.\<close>

definition item_ok :: "queue_item \<Rightarrow> bool" where
  "item_ok e = (\<not> trim_is_empty (qi_id e) \<and> length (qi_id e) \<le> 256 \<and> qi_progress_percent e \<le> 100
     \<and> (qi_state e = Sending \<longrightarrow> qi_progress_percent e \<le> 99 \<and> qi_error e = None)
     \<and> (qi_state e = Delivered \<longrightarrow> qi_progress_percent e = 100 \<and> qi_error e = None)
     \<and> (qi_state e = Failed \<longrightarrow> qi_next_attempt_at_ms e = 0 \<and> qi_error e \<noteq> None))"

definition outbox_inv :: "outbox \<Rightarrow> bool" where
  "outbox_inv ob = (distinct (map qi_id ob) \<and> (\<forall>e\<in>set ob. item_ok e))"

text \<open>The abstract queue: the state of each identifier, and how a step may change it.\<close>

definition status :: "outbox \<Rightarrow> string \<Rightarrow> delivery_state option" where
  "status ob i = map_option qi_state (find_item i ob)"

fun may_become :: "delivery_state option \<Rightarrow> delivery_state option \<Rightarrow> bool" where
  "may_become None s = (s = None \<or> s = Some Queued)"
| "may_become (Some Queued) s = (s \<noteq> None)"
| "may_become (Some Sending) s = (s \<noteq> None)"
| "may_become (Some Delivered) s = (s \<noteq> Some Sending)"
| "may_become (Some Failed) s = (s \<noteq> None \<and> s \<noteq> Some Sending)"

text \<open>An example item.\<close>

definition sample_item :: queue_item where
  "sample_item = \<lparr>qi_id = ''m'', qi_payload = ''p'', qi_state = Queued, qi_attempts = 0, qi_next_attempt_at_ms = 0,
     qi_progress_percent = 0, qi_error = None\<rparr>"

section \<open>Lemmas\<close>

lemma map_update_first: "(\<And>x. g (f x) = g x) \<Longrightarrow> map g (update_first P f xs) = map g xs"
  by (induction xs) auto

lemma set_update_first: "set (update_first P f xs) \<subseteq> set xs \<union> f ` {x \<in> set xs. P x}"
  by (induction xs) auto

lemma update_first_id: "List.find P xs = None \<Longrightarrow> update_first P f xs = xs"
  by (induction xs) (auto split: if_splits)

lemma find_item_Some: "find_item i ob = Some e \<Longrightarrow> e \<in> set ob \<and> qi_id e = i"
  by (auto simp: find_item_def find_Some_iff)

lemma find_item_unique: "distinct (map qi_id ob) \<Longrightarrow> e \<in> set ob \<Longrightarrow> find_item (qi_id e) ob = Some e"
  by (induction ob) (auto simp: find_item_def)

lemma find_item_update_first:
  assumes "distinct (map qi_id ob)" "\<And>e. qi_id (f e) = qi_id e" "List.find P ob = Some x"
  shows "find_item j (update_first P f ob) = (if j = qi_id x then Some (f x) else find_item j ob)"
  using assms(1,3)
proof (induction ob)
  case (Cons e ob)
  have "x \<in> set ob" if "List.find P ob = Some x" using that by (auto simp: find_Some_iff)
  then show ?case using Cons assms(2) by (auto simp: find_item_def split: if_splits)
qed simp

lemma find_item_update_item:
  assumes "distinct (map qi_id ob)" "\<And>e. qi_id (f e) = qi_id e" "find_item i ob = Some x"
  shows "find_item j (update_item i f ob) = (if j = i then Some (f x) else find_item j ob)"
  using find_item_update_first [OF assms(1,2), of "\<lambda>e. qi_id e = i" x j] assms(3) find_item_Some [OF assms(3)]
  by (simp add: update_item_def find_item_def)

lemma outbox_inv_update_first:
  assumes "outbox_inv ob" "\<And>e. qi_id (f e) = qi_id e" "\<And>e. e \<in> set ob \<Longrightarrow> P e \<Longrightarrow> item_ok e \<Longrightarrow> item_ok (f e)"
  shows "outbox_inv (update_first P f ob)"
  using assms set_update_first [of P f ob] by (auto simp: outbox_inv_def map_update_first)

lemma item_updates_id [simp]: "qi_id (claim e) = qi_id e" "qi_id (deliver_item e) = qi_id e" "qi_id (requeue_item e) = qi_id e"
  "qi_id (fail_item now err p e) = qi_id e"
  by (simp_all add: claim_def deliver_item_def requeue_item_def fail_item_def Let_def)

lemma item_updates_ok:
  "item_ok e \<Longrightarrow> item_ok (claim e)" "item_ok e \<Longrightarrow> item_ok (deliver_item e)" "item_ok e \<Longrightarrow> item_ok (requeue_item e)"
  "item_ok e \<Longrightarrow> item_ok (fail_item now err p e)"
  by (auto simp: item_ok_def claim_def deliver_item_def requeue_item_def fail_item_def Let_def min_def)

lemma progress_ok:
  assumes "item_ok e" "qi_state e = Sending" shows "item_ok (e\<lparr>qi_progress_percent := min percent 99\<rparr>)"
  using assms by (auto simp: item_ok_def min_def word_le_nat_alt)

lemma outbox_inv_update_item:
  assumes "outbox_inv ob" "\<And>e. qi_id (f e) = qi_id e" "find_item i ob = Some x" "item_ok x \<Longrightarrow> item_ok (f x)"
  shows "outbox_inv (update_item i f ob)"
  unfolding update_item_def
proof (rule outbox_inv_update_first [OF assms(1,2)])
  fix e assume "e \<in> set ob" "qi_id e = i" "item_ok e"
  then have "e = x" using find_item_unique [of ob e] assms(1,3) by (simp add: outbox_inv_def)
  then show "item_ok (f e)" using assms(4) \<open>item_ok e\<close> by simp
qed

lemma outbox_step_inv:
  assumes "outbox_inv ob" "outbox_step ob ob'" shows "outbox_inv ob'"
proof -
  note upd = outbox_inv_update_item [OF assms(1)]
  have claimed: "outbox_inv (update_first (ready now) claim ob)" for now
    by (rule outbox_inv_update_first [OF assms(1)]) (simp_all add: item_updates_ok)
  from assms(2) show ?thesis
  proof cases
    case (step_enqueue i payload item)
    then have "item_ok item" by (auto simp: queue_item_new_def item_ok_def split: if_splits)
    then show ?thesis using step_enqueue assms(1) by (auto simp: enqueue_def outbox_inv_def list_ex_iff)
  next
    case (step_claim now)
    then show ?thesis using assms(1) claimed by (simp add: claim_ready_def split: option.split)
  next
    case (step_progress i percent)
    have "outbox_inv (update_item i (\<lambda>e. e\<lparr>qi_progress_percent := min percent 99\<rparr>) ob)"
      if "find_item i ob = Some x" "qi_state x = Sending" for x
      by (rule upd [OF _ that(1)]) (simp_all add: progress_ok that(2))
    then show ?thesis using step_progress assms(1) by (simp add: update_progress_def split: option.split)
  next
    case (step_delivered i)
    then show ?thesis using assms(1) upd [of deliver_item i]
      by (simp add: mark_delivered_def item_updates_ok split: option.split)
  next
    case (step_failed now i err p)
    then show ?thesis using assms(1) upd [of "fail_item now err p" i]
      by (simp add: mark_failed_def item_updates_ok split: option.split)
  next
    case (step_retry i)
    then show ?thesis using assms(1) upd [of requeue_item i]
      by (simp add: retry_failed_def item_updates_ok split: option.split)
  next
    case step_remove
    then show ?thesis using assms(1) by (auto simp: remove_delivered_def outbox_inv_def distinct_map_filter)
  qed
qed

interpretation outbox_system: invariant_system "\<lambda>ob. ob = []" outbox_step outbox_inv
proof unfold_locales
  show "outbox_inv ob" if "ob = []" for ob using that by (simp add: outbox_inv_def)
qed (rule outbox_step_inv)

lemma validate_ok: "\<forall>e\<in>set ob. item_ok e \<Longrightarrow> validate ob = Inr ()"
  by (induction ob) (auto simp: item_ok_def)

lemma status_update_item:
  assumes "distinct (map qi_id ob)" "\<And>e. qi_id (f e) = qi_id e" "find_item i ob = Some x"
  shows "status (update_item i f ob) j = (if j = i then Some (qi_state (f x)) else status ob j)"
  using find_item_update_item [OF assms, of j] by (simp add: status_def)

lemma status_cases:
  obtains "s = None" | "s = Some Queued" | "s = Some Sending" | "s = Some Delivered" | "s = Some Failed"
  by (metis delivery_state.exhaust option.exhaust)

lemma may_become_refl [simp]: "may_become s s"
  by (cases s rule: status_cases) auto

lemma find_item_snoc: "find_item i (ob @ [e]) = (case find_item i ob of None \<Rightarrow> if qi_id e = i then Some e else None | Some x \<Rightarrow> Some x)"
  by (induction ob) (auto simp: find_item_def)

lemma status_update_cases:
  assumes "distinct (map qi_id ob)" "\<And>e. qi_id (f e) = qi_id e" "find_item j ob = Some x"
  shows "status (update_item j f ob) i = status ob i
     \<or> status ob i = Some (qi_state x) \<and> status (update_item j f ob) i = Some (qi_state (f x))"
  using status_update_item [OF assms, of i] assms(3) by (auto simp: status_def)

lemma status_item_step:
  assumes "outbox_inv ob" "\<And>e. qi_id (f e) = qi_id e" "find_item j ob = Some x"
    "may_become (Some (qi_state x)) (Some (qi_state (f x)))"
  shows "may_become (status ob i) (status (update_item j f ob) i)"
  using status_update_cases [OF _ assms(2,3), of i] assms(1,4) by (auto simp: outbox_inv_def)

lemma status_enqueue:
  "queue_item_new j payload = Inr item \<Longrightarrow> may_become (status ob i) (status (snd (enqueue item ob)) i)"
  by (auto simp: enqueue_def status_def find_item_snoc queue_item_new_def split: option.splits if_splits)

lemma status_claim:
  assumes "outbox_inv ob" shows "may_become (status ob i) (status (snd (claim_ready now ob)) i)"
proof (cases "List.find (ready now) ob")
  case None
  then show ?thesis by (simp add: claim_ready_def)
next
  case (Some x)
  have dist: "distinct (map qi_id ob)" using assms by (simp add: outbox_inv_def)
  have "status ob (qi_id x) = Some Queued"
    using Some find_item_unique [OF dist, of x] by (auto simp: find_Some_iff status_def ready_def)
  then show ?thesis using Some find_item_update_first [OF dist _ Some, of claim i]
    by (auto simp: claim_ready_def status_def claim_def)
qed

lemma find_item_remove_delivered:
  "distinct (map qi_id ob) \<Longrightarrow> find_item i (remove_delivered ob) = (case find_item i ob of None \<Rightarrow> None
     | Some e \<Rightarrow> if qi_state e = Delivered then None else Some e)"
proof (induction ob)
  case (Cons e ob)
  have "a \<in> set ob \<and> qi_id a = i" if "find_item i ob = Some a" for a using find_item_Some [OF that] .
  then have "qi_id e = i \<Longrightarrow> find_item i ob = None"
    using Cons.prems by (metis distinct.simps(2) imageI list.set_map list.simps(9) option.exhaust)
  then show ?case using Cons by (auto simp: find_item_def remove_delivered_def)
qed (simp add: find_item_def remove_delivered_def)

lemma status_remove:
  assumes "outbox_inv ob" shows "may_become (status ob i) (status (remove_delivered ob) i)"
proof -
  have "distinct (map qi_id ob)" using assms by (simp add: outbox_inv_def)
  then show ?thesis by (auto simp: status_def find_item_remove_delivered split: option.splits)
qed

lemma status_step:
  assumes "outbox_inv ob" "outbox_step ob ob'" shows "may_become (status ob i) (status ob' i)"
  using assms(2)
proof cases
  case (step_progress j percent)
  have "may_become (status ob i) (status (update_item j (\<lambda>e. e\<lparr>qi_progress_percent := min percent 99\<rparr>) ob) i)"
    if "find_item j ob = Some x" for x
    by (rule status_item_step [OF assms(1) _ that]) simp_all
  then show ?thesis using step_progress by (simp add: update_progress_def split: option.split)
next
  case (step_delivered j)
  have "may_become (Some (qi_state x)) (Some (qi_state (deliver_item x)))" for x
    by (cases "qi_state x") (simp_all add: deliver_item_def)
  then have "may_become (status ob i) (status (update_item j (deliver_item) ob) i)" if "find_item j ob = Some x" for x
    using status_item_step [OF assms(1) _ that] by simp
  then show ?thesis using step_delivered by (simp add: mark_delivered_def split: option.split)
next
  case (step_failed now j err p)
  have "may_become (Some (qi_state x)) (Some (qi_state (fail_item now err p x)))" for x
    by (cases "qi_state x") (simp_all add: fail_item_def Let_def)
  then have "may_become (status ob i) (status (update_item j (fail_item now err p) ob) i)" if "find_item j ob = Some x" for x
    using status_item_step [OF assms(1) _ that] by simp
  then show ?thesis using step_failed by (simp add: mark_failed_def split: option.split)
next
  case (step_retry j)
  have "may_become (Some (qi_state x)) (Some (qi_state (requeue_item x)))" for x
    by (cases "qi_state x") (simp_all add: requeue_item_def)
  then have "may_become (status ob i) (status (update_item j (requeue_item) ob) i)" if "find_item j ob = Some x" for x
    using status_item_step [OF assms(1) _ that] by simp
  then show ?thesis using step_retry by (simp add: retry_failed_def split: option.split)
qed (auto simp: status_enqueue status_claim [OF assms(1)] status_remove [OF assms(1)])

lemma unat_pow2:
  assumes "n < 64" shows "unat (push_bit n 1 :: u64) = 2 ^ n"
proof -
  have "push_bit n (1 :: u64) = word_of_nat (2 ^ n)" by (simp add: push_bit_eq_mult)
  moreover have "(2 :: nat) ^ n < 2 ^ 64" using assms by (intro power_strict_increasing) simp_all
  ultimately show ?thesis by (simp only: unat_of_nat) simp
qed

lemma unat_min: "unat (min a b) = min (unat a) (unat b)"
  by (simp add: min_def word_le_nat_alt)

lemma claim_state: "qi_state (claim e) = Sending"
  by (simp add: claim_def)

text \<open>A claimed item has one sender: it is not returned again while it is being sent.\<close>

lemma claim_ready_exclusive:
  assumes "outbox_inv ob" "claim_ready now ob = (Some i, ob')"
  obtains e where "find_item i ob = Some e" "qi_state e = Queued" "qi_next_attempt_at_ms e \<le> now"
    "find_item i ob' = Some (claim e)" "\<And>j. j \<noteq> i \<Longrightarrow> find_item j ob' = find_item j ob"
    "\<And>now'. fst (claim_ready now' ob') \<noteq> Some i"
proof -
  have dist: "distinct (map qi_id ob)" using assms(1) by (simp add: outbox_inv_def)
  obtain e where e: "List.find (ready now) ob = Some e" "i = qi_id e" "ob' = update_first (ready now) claim ob"
    using assms(2) by (auto simp: claim_ready_def split: option.splits)
  have e': "e \<in> set ob" "ready now e" using e(1) by (auto simp: find_Some_iff)
  have upd: "find_item j ob' = (if j = i then Some (claim e) else find_item j ob)" for j
    using find_item_update_first [OF dist _ e(1), of claim j] by (simp add: e)
  have "distinct (map qi_id ob')" using dist by (simp add: e(3) map_update_first)
  then have "x = claim e" if "x \<in> set ob'" "qi_id x = i" for x
    using find_item_unique [of ob' x] upd [of i] that by simp
  then have "qi_state x = Sending" if "x \<in> set ob'" "qi_id x = i" for x
    using that by (metis claim_state)
  then have "\<not> ready now' x" if "x \<in> set ob'" "qi_id x = i" for x now'
    using that by (simp add: ready_def)
  then have "fst (claim_ready now' ob') \<noteq> Some i" for now'
    by (auto simp: claim_ready_def find_Some_iff split: option.splits)
  then show ?thesis using e' upd find_item_unique [OF dist e'(1)] e(2)
    by (intro that [of e]) (simp_all add: ready_def)
qed

section \<open>Properties\<close>


text \<open>
  Marking an item failed counts the attempt without wrapping; below the limit the
  item is queued again after the initial delay times 2^(attempts - 1), at most
  the maximal delay, never before now; at the limit it fails for good until it
  is retried by hand.
\<close>

theorem outbox_retry_schedule:
  assumes "outbox_inv ob" "find_item i ob = Some e" "mark_failed now i err p ob = (True, ob')"
    "unat now + unat (rp_max_delay_ms p) < 2 ^ 64"
    "unat (rp_initial_delay_ms p) * 2 ^ min (unat (qi_attempts e)) 31 < 2 ^ 64" "qi_attempts e \<noteq> - 1"
  shows "\<exists>e'. find_item i ob' = Some e' \<and> unat (qi_attempts e') = unat (qi_attempts e) + 1 \<and> qi_error e' = Some err
    \<and> (if unat (qi_attempts e) + 1 < unat (rp_max_attempts p)
       then qi_state e' = Queued
         \<and> unat (qi_next_attempt_at_ms e') = unat now
             + min (unat (rp_initial_delay_ms p) * 2 ^ min (unat (qi_attempts e)) 31) (unat (rp_max_delay_ms p))
       else qi_state e' = Failed \<and> fst (claim_ready t [e']) = None)"
proof -
  have dist: "distinct (map qi_id ob)" using assms(1) by (simp add: outbox_inv_def)
  have item: "find_item i ob' = Some (fail_item now err p e)"
    using find_item_update_item [OF dist _ assms(2), of "fail_item now err p" i] assms(2,3) by (auto simp: mark_failed_def)
  have at: "unat (saturating_add (qi_attempts e) 1) = unat (qi_attempts e) + 1"
    using assms(6) unsigned_less [of "qi_attempts e", where 'a = nat]
    by (simp add: unat_saturating_add word_unat_eq_iff unat_max_word)
  let ?n = "saturating_add (qi_attempts e) 1"
  have ex: "unat (min (saturating_sub ?n 1) 31) = min (unat (qi_attempts e)) 31"
    using at by (simp add: unat_min unat_saturating_sub)
  define k where "k = min (unat (qi_attempts e)) 31"
  have pow: "unat (push_bit k 1 :: u64) = 2 ^ k" by (rule unat_pow2) (simp add: k_def)
  have fits: "unat (rp_initial_delay_ms p) * 2 ^ k \<le> 2 ^ 64 - 1" using assms(5) unfolding k_def by linarith
  have delay: "unat (retry_delay p ?n) =
      min (unat (rp_initial_delay_ms p) * 2 ^ min (unat (qi_attempts e)) 31) (unat (rp_max_delay_ms p))"
    unfolding retry_delay_def Let_def unat_min [of "saturating_mul _ _"] unat_saturating_mul ex k_def [symmetric] pow
    using fits by (simp add: min_absorb1)
  then have "unat (retry_delay p ?n) \<le> unat (rp_max_delay_ms p)" by (simp only: min.cobounded2)
  then have "unat now + unat (retry_delay p ?n) \<le> 2 ^ 64 - 1" using assms(4) by linarith
  then have "unat (saturating_add now (retry_delay p ?n)) = unat now + unat (retry_delay p ?n)"
    unfolding unat_saturating_add by (simp add: min_absorb1)
  then have next_at: "unat (saturating_add now (retry_delay p ?n)) = unat now
      + min (unat (rp_initial_delay_ms p) * 2 ^ min (unat (qi_attempts e)) 31) (unat (rp_max_delay_ms p))"
    by (simp only: delay)
  have "rp_max_attempts p \<le> ?n \<longleftrightarrow> \<not> unat (qi_attempts e) + 1 < unat (rp_max_attempts p)"
    by (simp only: word_le_nat_alt at) linarith
  then show ?thesis using item at next_at
    by (cases "unat (qi_attempts e) + 1 < unat (rp_max_attempts p)")
      (simp_all add: fail_item_def Let_def claim_ready_def ready_def)
qed

section \<open>Examples\<close>

lemma sample_new: "queue_item_new ''m'' ''p'' = Inr sample_item"
proof -
  have "\<not> trim_is_empty ''m''" "\<not> any_control ''m''" by code_simp+
  then show ?thesis by (simp add: queue_item_new_def sample_item_def)
qed

lemma sample_reachable: "reachable (\<lambda>ob. ob = []) outbox_step [sample_item]"
proof -
  have "outbox_step [] (snd (enqueue sample_item []))" by (rule step_enqueue [OF sample_new])
  then have "outbox_step [] [sample_item]" by (simp add: enqueue_def)
  then show ?thesis by (intro reach_step [where step = outbox_step, OF reach_init]) auto
qed


theorem outbox_retry_schedule_witness:
  "\<exists>ob' e'. mark_failed 5000 ''m'' ''offline'' default_retry_policy [sample_item] = (True, ob') \<and> find_item ''m'' ob' = Some e'
     \<and> qi_state e' = Queued \<and> unat (qi_next_attempt_at_ms e') = 6000"
proof -
  have inv: "outbox_inv [sample_item]" by (rule outbox_system.inv_reachable [OF sample_reachable])
  have f: "find_item ''m'' [sample_item] = Some sample_item" by (simp add: find_item_def sample_item_def)
  then obtain ob' where m: "mark_failed 5000 ''m'' ''offline'' default_retry_policy [sample_item] = (True, ob')"
    by (simp add: mark_failed_def)
  show ?thesis using outbox_retry_schedule [OF inv f m] m by (simp add: default_retry_policy_def sample_item_def) metis
qed

end
