(* ===== verification/Account.thy ===== *)
theory Account
  imports Endpoint Frame
begin

text \<open>
  The reconnecting account client of \<open>src/account.rs\<close>: validation of its
  configuration, credentials, the current connection with its generation, the
  request loop with full-jitter backoff, and closing.  Connecting, authenticating
  and the exchange on a connection are outcomes supplied by the environment; a
  connection is a number.
\<close>

section \<open>State\<close>

text \<open>Durations are in milliseconds.\<close>

record client_options =
  co_connect_timeout :: nat
  co_read_timeout :: nat
  co_write_timeout :: nat
  co_nodelay :: bool

definition default_client_options :: client_options where
  "default_client_options =
    \<lparr>co_connect_timeout = 10000, co_read_timeout = 40000, co_write_timeout = 15000, co_nodelay = True\<rparr>"

record account_config =
  cf_endpoint :: string
  cf_pinned_public_key_b64 :: string
  cf_token :: string
  cf_client_name :: string
  cf_device_model :: string
  cf_options :: client_options
  cf_reconnect_min :: nat
  cf_reconnect_max :: nat

definition account_config_new :: "string \<Rightarrow> string \<Rightarrow> string \<Rightarrow> string \<Rightarrow> account_config" where
  "account_config_new endpoint pinned token client_name = \<lparr>cf_endpoint = endpoint,
     cf_pinned_public_key_b64 = pinned, cf_token = token, cf_client_name = client_name, cf_device_model = [],
     cf_options = default_client_options, cf_reconnect_min = 500, cf_reconnect_max = 60000\<rparr>"

definition with_device_model :: "string \<Rightarrow> account_config \<Rightarrow> account_config" where
  "with_device_model model cfg = cfg\<lparr>cf_device_model := model\<rparr>"

datatype account_event =
    Connected u64
  | Disconnected string u64
  | AuthenticationInvalid string
  | EventBatch bytes
  | ResyncRequired
  | AccountClosed

type_synonym credentials = "string \<times> string \<times> string"

text \<open>
  \<open>ac_connecting\<close> is the connection that the holder of the connect lock has
  authenticated but not yet installed; \<open>ac_used\<close> the credentials a connection
  authenticated with, \<open>ac_closed_clients\<close> the connections this client closed.
\<close>

record account =
  ac_config :: account_config
  ac_credentials :: credentials
  ac_current :: "(u64 \<times> nat) option"
  ac_generation :: u32
  ac_closed :: bool
  ac_events :: "account_event list"
  ac_connecting :: "nat option"
  ac_used :: "nat \<Rightarrow> credentials option"
  ac_closed_clients :: "nat set"

section \<open>Operations\<close>

definition account_new :: "account_config \<Rightarrow> account result" where
  "account_new cfg =
    (if trim_is_empty (cf_endpoint cfg) then Inl (invalid_input ''MST5 endpoint is empty'')
     else if length (str_chars (cf_client_name cfg)) > 64 then
       Inl (invalid_input ''client_name must contain at most 64 characters'')
     else if length (str_chars (cf_device_model cfg)) > 128 \<or> any_control (cf_device_model cfg) then
       Inl (invalid_input ''device_model must contain at most 128 printable characters'')
     else Inr \<lparr>ac_config = cfg,
       ac_credentials = (cf_token cfg, cf_client_name cfg, str_trim (cf_device_model cfg)),
       ac_current = None, ac_generation = 0, ac_closed = False, ac_events = [], ac_connecting = None,
       ac_used = (\<lambda>_. None), ac_closed_clients = {}\<rparr>)"

definition emit :: "account_event \<Rightarrow> account \<Rightarrow> account" where
  "emit e s = s\<lparr>ac_events := ac_events s @ [e]\<rparr>"

definition take_current :: "u64 option \<Rightarrow> account \<Rightarrow> nat option \<times> account" where
  "take_current generation s =
    (if generation \<noteq> None \<and> map_option fst (ac_current s) \<noteq> generation then (None, s)
     else (map_option snd (ac_current s), s\<lparr>ac_current := None\<rparr>))"

definition close_client :: "nat option \<Rightarrow> account \<Rightarrow> account" where
  "close_client c s = (case c of None \<Rightarrow> s | Some c \<Rightarrow> s\<lparr>ac_closed_clients := insert c (ac_closed_clients s)\<rparr>)"

definition invalidate :: "u64 option \<Rightarrow> account \<Rightarrow> account" where
  "invalidate generation s = (case take_current generation s of (c, s') \<Rightarrow> close_client c s')"

definition set_credentials :: "string \<Rightarrow> string \<Rightarrow> account \<Rightarrow> unit result \<times> account" where
  "set_credentials token client_name s =
    (if length (str_chars client_name) > 64 then
       (Inl (invalid_input ''client_name must contain at most 64 characters''), s)
     else case ac_credentials s of (old_token, old_name, device) \<Rightarrow>
       if old_token \<noteq> token \<or> old_name \<noteq> str_trim client_name
       then (Inr (), invalidate None (s\<lparr>ac_credentials := (token, str_trim client_name, device)\<rparr>))
       else (Inr (), s))"

definition account_close :: "account \<Rightarrow> account" where
  "account_close s = (case take_current None (s\<lparr>ac_closed := True\<rparr>) of
     (c, s') \<Rightarrow> close_client c (emit AccountClosed s'))"

text \<open>
  \<open>connected\<close>: the current connection if it is open, else a new one.  The new
  connection is authenticated with the credentials read before and installed
  afterwards; the two halves are separate steps.
\<close>

definition connect_begin :: "nat \<Rightarrow> account \<Rightarrow> account" where
  "connect_begin c s = s\<lparr>ac_connecting := Some c, ac_used := (ac_used s)(c \<mapsto> ac_credentials s)\<rparr>"

definition connect_install :: "account \<Rightarrow> account" where
  "connect_install s = (case ac_connecting s of
      None \<Rightarrow> s
    | Some c \<Rightarrow>
        let g = ucast (ac_generation s + 1) :: u64 in
        emit (Connected g) (s\<lparr>ac_generation := ac_generation s + 1, ac_current := Some (g, c), ac_connecting := None\<rparr>))"

definition connected :: "(nat \<Rightarrow> bool) \<Rightarrow> nat result \<Rightarrow> account \<Rightarrow> (u64 \<times> nat) result \<times> account" where
  "connected is_open new_client s =
    (let fresh = (case new_client of
         Inl e \<Rightarrow> (Inl e, s)
       | Inr c \<Rightarrow> (let s' = connect_install (connect_begin c s) in (Inr (ucast (ac_generation s') :: u64, c), s'))) in
     case ac_current s of
       Some (g, c) \<Rightarrow> if is_open c then (Inr (g, c), s) else fresh
     | None \<Rightarrow> fresh)"

definition account_backoff :: "account_config \<Rightarrow> u32 \<Rightarrow> u64 \<Rightarrow> u64" where
  "account_backoff cfg attempt random =
    (let lo = word_of_nat (max (cf_reconnect_min cfg) 1) :: u64;
         hi = word_of_nat (max (cf_reconnect_max cfg) (unat lo)) :: u64;
         cap = min (saturating_mul lo (push_bit (unat (min attempt 16)) 1)) hi in
     random mod saturating_add cap 1)"

definition is_authentication_error :: "io_error \<Rightarrow> bool" where
  "is_authentication_error e = (err_kind e = PermissionDenied \<or> contains_str ''UNAUTHENTICATED'' (err_msg e)
     \<or> contains_str ''invalid credentials'' (err_msg e))"

section \<open>The request loop\<close>

text \<open>
  What one iteration meets: which connections are open, the outcome of a new
  connection, the reply, whether the retry budget is used up afterwards, and the
  random value of the backoff.
\<close>

record iteration =
  it_open :: "nat \<Rightarrow> bool"
  it_connect :: "nat result"
  it_reply :: "(u8 \<times> bytes) result"
  it_late :: bool
  it_random :: u64

record sent_request =
  sr_client :: nat
  sr_kind :: u8
  sr_opcode :: u16
  sr_payload :: bytes
  sr_nonce :: "bytes option"
  sr_reply :: "(u8 \<times> bytes) result"

text \<open>\<open>None\<close> as the result: the loop has not returned within the given iterations.\<close>

fun request_loop ::
    "u8 \<Rightarrow> u16 \<Rightarrow> bytes \<Rightarrow> bytes option \<Rightarrow> u32 \<Rightarrow> iteration list \<Rightarrow> account
     \<Rightarrow> (u8 \<times> bytes) result option \<times> sent_request list \<times> account" where
  "request_loop knd opcode payload nonce attempt [] s = (None, [], s)"
| "request_loop knd opcode payload nonce attempt (it # its) s =
    (if ac_closed s then (Some (Inl (IoError BrokenPipe ''MST5 account is closed'')), [], s)
     else case connected (it_open it) (it_connect it) s of
       (Inl e, s) \<Rightarrow>
         if is_authentication_error e then (Some (Inl e), [], emit (AuthenticationInvalid (err_msg e)) s)
         else if it_late it then (Some (Inl e), [], s)
         else request_loop knd opcode payload nonce (saturating_add attempt 1) its
           (emit (Disconnected (err_msg e) (account_backoff (ac_config s) attempt (it_random it))) s)
     | (Inr (g, c), s) \<Rightarrow>
         let entry = \<lparr>sr_client = c, sr_kind = knd, sr_opcode = opcode, sr_payload = payload, sr_nonce = nonce,
               sr_reply = it_reply it\<rparr> in
         (case it_reply it of
            Inr (rk, rp) \<Rightarrow>
              (Some (Inr (rk, rp)), [entry], if rk = kind_EVENT_BATCH then emit (EventBatch rp) s else s)
          | Inl e \<Rightarrow>
              if is_authentication_error e then (Some (Inl e), [entry], emit (AuthenticationInvalid (err_msg e)) s)
              else let s = invalidate (Some g) s in
                if it_late it then (Some (Inl e), [entry], s)
                else (case request_loop knd opcode payload nonce (saturating_add attempt 1) its
                    (emit (Disconnected (err_msg e) (account_backoff (ac_config s) attempt (it_random it))) s) of
                  (r, log, s) \<Rightarrow> (r, entry # log, s))))"

definition nonzero_nonce :: "bytes \<Rightarrow> bytes" where
  "nonzero_nonce r = (if r = replicate 16 0 then r[0 := 1] else r)"

definition account_request ::
    "bytes option \<Rightarrow> u8 \<Rightarrow> u16 \<Rightarrow> bytes \<Rightarrow> bytes option \<Rightarrow> iteration list \<Rightarrow> account
     \<Rightarrow> (u8 \<times> bytes) result option \<times> sent_request list \<times> account" where
  "account_request random knd opcode payload nonce its s =
    (if knd = kind_COMMAND \<and> nonce = None then
       (case random of
          None \<Rightarrow> (Some (Inl (IoError OtherError ''OS CSPRNG failed'')), [], s)
        | Some r \<Rightarrow> request_loop knd opcode payload (Some (nonzero_nonce r)) 0 its s)
     else request_loop knd opcode payload nonce 0 its s)"

section \<open>The connection of an account over time\<close>

inductive account_step :: "account \<Rightarrow> account \<Rightarrow> bool" where
  begin_connect: "ac_connecting s = None \<Longrightarrow> ac_used s c = None \<Longrightarrow> account_step s (connect_begin c s)"
| install: "account_step s (connect_install s)"
| abandon: "account_step s (s\<lparr>ac_connecting := None\<rparr>)"
| credentials: "account_step s (snd (set_credentials token name s))"
| invalidates: "account_step s (invalidate g s)"
| closes: "account_step s (account_close s)"

definition account_inv :: "account \<Rightarrow> bool" where
  "account_inv s = (ac_closed_clients s \<subseteq> dom (ac_used s)
     \<and> (\<forall>g c. ac_current s = Some (g, c) \<longrightarrow> g = ucast (ac_generation s) \<and> ac_used s c \<noteq> None \<and> c \<notin> ac_closed_clients s)
     \<and> (\<forall>c. ac_connecting s = Some c \<longrightarrow> ac_used s c \<noteq> None \<and> c \<notin> ac_closed_clients s
          \<and> (\<forall>g. ac_current s \<noteq> Some (g, c))))"

text \<open>The log of a request: what was sent for it, in order, and how every attempt but the last one ended.\<close>

definition retries_only_failures :: "sent_request list \<Rightarrow> bool" where
  "retries_only_failures log = (\<forall>x\<in>set (butlast log). \<exists>e. sr_reply x = Inl e \<and> \<not> is_authentication_error e)"

section \<open>Lemmas\<close>

lemma take_current_guard:
  assumes "ac_current s = Some (g, c)" "g \<noteq> h"
  shows "invalidate (Some h) s = s"
  using assms by (simp add: invalidate_def take_current_def close_client_def)

lemma connect_install_inv: "account_inv s \<Longrightarrow> account_inv (connect_install s)"
  by (auto simp: account_inv_def connect_install_def emit_def Let_def split: option.splits)

lemma invalidate_inv: "account_inv s \<Longrightarrow> account_inv (invalidate g s)"
  by (auto simp: account_inv_def invalidate_def take_current_def close_client_def split: option.splits)

lemma account_inv_credentials: "account_inv (s\<lparr>ac_credentials := x\<rparr>) = account_inv s" "account_inv (s\<lparr>ac_closed := b\<rparr>) = account_inv s"
  "account_inv (emit e s) = account_inv s"
  by (simp_all add: account_inv_def emit_def)

lemma account_close_inv: "account_inv s \<Longrightarrow> account_inv (account_close s)"
  by (auto simp: account_inv_def account_close_def take_current_def close_client_def emit_def split: option.splits)

lemma account_step_inv:
  assumes "account_inv s" "account_step s s'" shows "account_inv s'"
  using assms(2)
proof cases
  case (begin_connect c)
  then show ?thesis using assms(1) by (auto simp: account_inv_def connect_begin_def)
next
  case abandon
  then show ?thesis using assms(1) by (auto simp: account_inv_def)
next
  case (credentials token name)
  then show ?thesis using assms(1)
    by (auto simp: set_credentials_def account_inv_credentials intro!: invalidate_inv split: prod.splits)
qed (use assms(1) in \<open>auto intro: connect_install_inv invalidate_inv account_close_inv\<close>)

interpretation account_system: invariant_system "\<lambda>s. \<exists>cfg. account_new cfg = Inr s" account_step account_inv
proof unfold_locales
  show "account_inv s" if "\<exists>cfg. account_new cfg = Inr s" for s
    using that by (auto simp: account_new_def account_inv_def split: if_splits)
qed (rule account_step_inv)

lemma account_backoff_le:
  assumes "cf_reconnect_min cfg < 2 ^ 64" "cf_reconnect_max cfg < 2 ^ 64 - 1" "cf_reconnect_min cfg \<le> cf_reconnect_max cfg"
    "1 \<le> cf_reconnect_max cfg"
  shows "unat (account_backoff cfg attempt random) \<le> cf_reconnect_max cfg"
proof -
  let ?lo = "word_of_nat (max (cf_reconnect_min cfg) 1) :: u64"
  let ?hi = "word_of_nat (max (cf_reconnect_max cfg) (unat ?lo)) :: u64"
  let ?cap = "min (saturating_mul ?lo (push_bit (unat (min attempt 16)) 1)) ?hi"
  have "max (cf_reconnect_min cfg) 1 < 2 ^ 64" using assms(1) by simp
  then have lo: "unat ?lo = max (cf_reconnect_min cfg) 1" by (simp only: unat_of_nat) simp
  then have "max (cf_reconnect_max cfg) (unat ?lo) = cf_reconnect_max cfg" using assms(3,4) by simp
  moreover have "unat (word_of_nat (cf_reconnect_max cfg) :: u64) = cf_reconnect_max cfg"
    using assms(2) by (simp only: unat_of_nat) simp
  ultimately have hi: "unat ?hi = cf_reconnect_max cfg" by simp
  have cap: "unat ?cap \<le> cf_reconnect_max cfg" using hi by (metis min.cobounded2 word_le_nat_alt)
  then have sat: "unat (saturating_add ?cap 1) = unat ?cap + 1"
    using assms(2) by (simp add: unat_saturating_add)
  have "unat (random mod saturating_add ?cap 1) < unat ?cap + 1"
    unfolding unat_mod sat by (rule mod_less_divisor) simp
  then show ?thesis using cap by (simp add: account_backoff_def Let_def)
qed

lemma request_loop_log:
  assumes "request_loop knd opcode payload nonce attempt its s = (r, log, s')"
  shows "(\<forall>x\<in>set log. sr_kind x = knd \<and> sr_opcode x = opcode \<and> sr_payload x = payload \<and> sr_nonce x = nonce)
    \<and> retries_only_failures log \<and> length log \<le> length its
    \<and> (\<forall>resp. r = Some (Inr resp) \<longrightarrow> log \<noteq> [] \<and> sr_reply (last log) = Inr resp)"
  using assms
proof (induction its arbitrary: attempt s r log s')
  case Nil
  then show ?case by (simp add: retries_only_failures_def)
next
  case (Cons it its)
  show ?case
  proof (cases "ac_closed s")
    case True
    then show ?thesis using Cons.prems by (auto simp: retries_only_failures_def)
  next
    case open_: False
    obtain cr s1 where cr: "connected (it_open it) (it_connect it) s = (cr, s1)" by fastforce
    show ?thesis
    proof (cases cr)
      case (Inl e)
      then show ?thesis using Cons.prems open_ cr Cons.IH
        by (auto simp: retries_only_failures_def split: if_splits intro: le_SucI)
    next
      case (Inr gc)
      obtain g c where gc: "gc = (g, c)" by fastforce
      show ?thesis
      proof (cases "it_reply it")
        case (Inr resp)
        then show ?thesis using Cons.prems open_ cr \<open>cr = Inr gc\<close> gc
          by (auto simp: retries_only_failures_def Let_def split: prod.splits)
      next
        case (Inl e)
        note simps = Cons.prems open_ cr \<open>cr = Inr gc\<close> gc Inl
        show ?thesis
        proof (cases "is_authentication_error e \<or> it_late it")
          case True
          then show ?thesis using simps by (auto simp: retries_only_failures_def Let_def split: if_splits)
        next
          case False
          then obtain log1 s2 at where l: "request_loop knd opcode payload nonce (saturating_add attempt 1) its s2 = (r, log1, s')"
            "log = \<lparr>sr_client = c, sr_kind = knd, sr_opcode = opcode, sr_payload = payload, sr_nonce = nonce, sr_reply = Inl e\<rparr> # log1"
            using simps by (auto simp: Let_def split: prod.splits)
          then show ?thesis using Cons.IH [OF l(1)] False by (auto simp: retries_only_failures_def)
        qed
      qed
    qed
  qed
qed

lemma request_loop_ends:
  assumes "request_loop knd opcode payload nonce attempt its s = (r, log, s')" "it \<in> set its" "it_late it"
  shows "r \<noteq> None \<and> length log \<le> Suc (length (takeWhile (\<lambda>it. \<not> it_late it) its))"
  using assms
proof (induction its arbitrary: attempt s r log s')
  case (Cons i its)
  obtain cr s1 where con: "connected (it_open i) (it_connect i) s = (cr, s1)" by fastforce
  show ?case
  proof (cases "ac_closed s")
    case open_: False
    note run = Cons.prems(1) [simplified, unfolded con prod.case, simplified open_]
    show ?thesis
    proof (cases cr)
      case (Inl e)
      show ?thesis
      proof (cases "is_authentication_error e \<or> it_late i")
        case True
        then show ?thesis using run Inl by (auto split: if_splits)
      next
        case False
        then have "request_loop knd opcode payload nonce (saturating_add attempt 1) its
            (emit (Disconnected (err_msg e) (account_backoff (ac_config s1) attempt (it_random i))) s1) = (r, log, s')"
          using run Inl by simp
        from Cons.IH [OF this] False Cons.prems show ?thesis by auto
      qed
    next
      case (Inr gc)
      obtain g c where gc: "gc = (g, c)" by fastforce
      show ?thesis
      proof (cases "it_reply i")
        case (Inl e)
        show ?thesis
        proof (cases "is_authentication_error e \<or> it_late i")
          case True
          then show ?thesis using run Inr Inl gc by (auto simp: Let_def split: if_splits)
        next
          case False
          obtain r1 log1 s2 where rest: "request_loop knd opcode payload nonce (saturating_add attempt 1) its
              (emit (Disconnected (err_msg e) (account_backoff (ac_config (invalidate (Some g) s1)) attempt (it_random i)))
                (invalidate (Some g) s1)) = (r1, log1, s2)" by (rule prod_cases3)
          have "r = r1" "length log = Suc (length log1)" using run Inr Inl gc False rest by (auto simp: Let_def)
          with Cons.IH [OF rest] False Cons.prems show ?thesis by auto
        qed
      next
        case reply: (Inr p)
        then show ?thesis using run Inr gc by (cases p) (auto simp: Let_def)
      qed
    qed
  next
    case True
    then show ?thesis using Cons.prems(1) by auto
  qed
qed simp

section \<open>Properties\<close>

text \<open>
  C30: all attempts of one account command carry the same opcode, payload and non-zero
  request nonce, so the server can recognise a repeated command; a command is
  repeated only after a failure that is not an authentication error, and the
  response that is returned is the reply to the last attempt.
\<close>

theorem account_command_nonce:
  assumes "account_request (Some random) kind_COMMAND opcode payload None its s = (r, log, s')" "length random = 16"
  shows "\<exists>nonce. nonce \<noteq> replicate 16 0 \<and> length nonce = 16
    \<and> (\<forall>x\<in>set log. sr_kind x = kind_COMMAND \<and> sr_opcode x = opcode \<and> sr_payload x = payload \<and> sr_nonce x = Some nonce)
    \<and> retries_only_failures log \<and> (\<forall>resp. r = Some (Inr resp) \<longrightarrow> log \<noteq> [] \<and> sr_reply (last log) = Inr resp)"
proof -
  have "nonzero_nonce random \<noteq> replicate 16 0" "length (nonzero_nonce random) = 16"
    using assms(2) by (auto simp: nonzero_nonce_def numeral_eq_Suc)
  then show ?thesis using request_loop_log [of kind_COMMAND opcode payload "Some (nonzero_nonce random)" 0 its s r log s'] assms(1)
    by (auto simp: account_request_def)
qed

text \<open>
  C32: the retry loop of a request ends.  The elapsed time is checked after every
  failed iteration, so the request returns at the latest in the first iteration
  that ends after the retry budget, and by then it has been sent at most once
  per iteration.
\<close>

theorem account_request_terminates:
  assumes "account_request random knd opcode payload nonce its s = (r, log, s')" "it \<in> set its" "it_late it"
  shows "r \<noteq> None \<and> length log \<le> Suc (length (takeWhile (\<lambda>it. \<not> it_late it) its))"
proof -
  have "r \<noteq> None \<and> length log \<le> Suc (length (takeWhile (\<lambda>it. \<not> it_late it) its))"
    if "request_loop knd opcode payload nonce attempt its s = (r, log, s')" for nonce attempt
    using that assms(2,3) by (rule request_loop_ends)
  then show ?thesis using assms(1) by (auto simp: account_request_def split: if_splits option.splits)
qed

text \<open>
  Two interleavings the code allows: credentials that change while a connection
  is being authenticated do not reach it, and a connection that is being
  established while the account is closed is installed afterwards.
\<close>

lemma account_races:
  assumes "account_new cfg = Inr s0" "set_credentials token name (connect_begin c s0) = (Inr (), s1)"
    "ac_credentials s1 \<noteq> ac_credentials s0"
  shows "(\<exists>g. ac_current (connect_install s1) = Some (g, c)) \<and> ac_used (connect_install s1) c \<noteq> Some (ac_credentials (connect_install s1))"
    and "ac_closed (connect_install (account_close (connect_begin c s0)))"
    and "\<exists>g. ac_current (connect_install (account_close (connect_begin c s0))) = Some (g, c)"
proof -
  have s0: "ac_current s0 = None" using assms(1) by (auto simp: account_new_def split: if_splits)
  show "(\<exists>g. ac_current (connect_install s1) = Some (g, c)) \<and> ac_used (connect_install s1) c \<noteq> Some (ac_credentials (connect_install s1))"
    using assms(2,3) s0 by (auto simp: set_credentials_def connect_begin_def connect_install_def emit_def Let_def invalidate_def
        take_current_def close_client_def split: prod.splits if_splits)
qed (simp_all add: account_close_def connect_begin_def connect_install_def emit_def Let_def take_current_def close_client_def
    split: option.split)

section \<open>Example\<close>

definition sample_iterations :: "iteration list" where
  "sample_iterations = [\<lparr>it_open = (\<lambda>_. True), it_connect = Inr 1, it_reply = Inl (IoError TimedOut ''t''), it_late = False, it_random = 7\<rparr>,
     \<lparr>it_open = (\<lambda>_. True), it_connect = Inr 2, it_reply = Inr (kind_RESULT, [9]), it_late = False, it_random = 7\<rparr>]"

definition sample_account :: account where
  "sample_account = \<lparr>ac_config = account_config_new ''h'' ''k'' ''t'' ''n'', ac_credentials = (''t'', ''n'', ''''), ac_current = None,
     ac_generation = 0, ac_closed = False, ac_events = [], ac_connecting = None, ac_used = (\<lambda>_. None), ac_closed_clients = {}\<rparr>"

lemma sample_request:
  "\<exists>log s'. account_request (Some (replicate 16 0)) kind_COMMAND 5 [1] None sample_iterations sample_account =
     (Some (Inr (kind_RESULT, [9])), log, s') \<and> map sr_client log = [1, 2]"
proof -
  have "\<not> is_authentication_error (IoError TimedOut ''t'')"
    by (simp add: is_authentication_error_def starts_with_def strip_prefix_def)
  then show ?thesis
    by (simp add: account_request_def sample_iterations_def sample_account_def connected_def connect_install_def connect_begin_def
        emit_def Let_def invalidate_def take_current_def close_client_def const_defs)
qed

theorem account_command_nonce_witness:
  "\<exists>log s' nonce. account_request (Some (replicate 16 0)) kind_COMMAND 5 [1] None sample_iterations sample_account =
     (Some (Inr (kind_RESULT, [9])), log, s') \<and> map sr_client log = [1, 2]
   \<and> nonce \<noteq> replicate 16 0 \<and> (\<forall>x\<in>set log. sr_nonce x = Some nonce)"
proof -
  obtain log s' where l: "account_request (Some (replicate 16 0)) kind_COMMAND 5 [1] None sample_iterations sample_account =
     (Some (Inr (kind_RESULT, [9])), log, s')" "map sr_client log = [1, 2]"
    using sample_request by (elim exE conjE)
  then show ?thesis using account_command_nonce [OF l(1)] by auto
qed

theorem account_request_terminates_witness:
  "\<exists>log s' r. account_request None kind_QUERY 5 [1] None
      [\<lparr>it_open = (\<lambda>_. True), it_connect = Inl (IoError TimedOut ''t''), it_reply = Inr (kind_RESULT, []), it_late = True, it_random = 7\<rparr>]
      sample_account = (r, log, s') \<and> r \<noteq> None \<and> length log \<le> 1"
proof -
  let ?it = "\<lparr>it_open = (\<lambda>_. True), it_connect = Inl (IoError TimedOut ''t''), it_reply = Inr (kind_RESULT, []), it_late = True, it_random = 7\<rparr>"
  obtain r log s' where run: "account_request None kind_QUERY 5 [1] None [?it] sample_account = (r, log, s')"
    by (rule prod_cases3)
  show ?thesis using account_request_terminates [OF run, of ?it] run by simp
qed

end
