(* ===== verification/Opcodes.thy ===== *)
theory Opcodes
  imports Prelude
begin

text \<open>
  The operation codes of the MST5 request frames (the module \<open>op\<close> of
  \<open>src/lib.rs\<close>) and those of the media and voice streams.
\<close>

named_theorems op_defs

definition op_REGISTER :: u16 where [op_defs]: "op_REGISTER = 1"
definition op_LOGIN :: u16 where [op_defs]: "op_LOGIN = 2"
definition op_EMAIL_AUTH_START :: u16 where [op_defs]: "op_EMAIL_AUTH_START = 3"
definition op_EMAIL_AUTH_VERIFY :: u16 where [op_defs]: "op_EMAIL_AUTH_VERIFY = 4"
definition op_ME :: u16 where [op_defs]: "op_ME = 5"
definition op_ACCOUNT_DELETE :: u16 where [op_defs]: "op_ACCOUNT_DELETE = 6"
definition op_SET_USERNAME :: u16 where [op_defs]: "op_SET_USERNAME = 7"
definition op_SET_NAME :: u16 where [op_defs]: "op_SET_NAME = 8"
definition op_SET_PRIVACY :: u16 where [op_defs]: "op_SET_PRIVACY = 9"
definition op_CONTACTS :: u16 where [op_defs]: "op_CONTACTS = 10"
definition op_CONTACT_ADD :: u16 where [op_defs]: "op_CONTACT_ADD = 11"
definition op_CONTACT_DELETE :: u16 where [op_defs]: "op_CONTACT_DELETE = 12"
definition op_CREATE_GROUP :: u16 where [op_defs]: "op_CREATE_GROUP = 13"
definition op_CREATE_CHANNEL :: u16 where [op_defs]: "op_CREATE_CHANNEL = 14"
definition op_SET_CHAT_TITLE :: u16 where [op_defs]: "op_SET_CHAT_TITLE = 15"
definition op_SET_CHANNEL_USERNAME :: u16 where [op_defs]: "op_SET_CHANNEL_USERNAME = 16"
definition op_SET_CHANNEL_COMMENTS :: u16 where [op_defs]: "op_SET_CHANNEL_COMMENTS = 17"
definition op_SEND_CHANNEL_COMMENT :: u16 where [op_defs]: "op_SEND_CHANNEL_COMMENT = 18"
definition op_CHANNEL_COMMENTS :: u16 where [op_defs]: "op_CHANNEL_COMMENTS = 19"
definition op_ADD_CHAT_MEMBER :: u16 where [op_defs]: "op_ADD_CHAT_MEMBER = 20"
definition op_REMOVE_CHAT_MEMBER :: u16 where [op_defs]: "op_REMOVE_CHAT_MEMBER = 21"
definition op_SET_CLOUD_PASSWORD :: u16 where [op_defs]: "op_SET_CLOUD_PASSWORD = 22"
definition op_RESET_CLOUD_PASSWORD :: u16 where [op_defs]: "op_RESET_CLOUD_PASSWORD = 23"
definition op_SESSIONS :: u16 where [op_defs]: "op_SESSIONS = 24"
definition op_REVOKE_SESSION :: u16 where [op_defs]: "op_REVOKE_SESSION = 25"
definition op_REVOKE_OTHER_SESSIONS :: u16 where [op_defs]: "op_REVOKE_OTHER_SESSIONS = 26"
definition op_CREATE_BOT :: u16 where [op_defs]: "op_CREATE_BOT = 27"
definition op_RESET_BOT_TOKEN :: u16 where [op_defs]: "op_RESET_BOT_TOKEN = 28"
definition op_SET_E2E_KEY :: u16 where [op_defs]: "op_SET_E2E_KEY = 29"
definition op_GET_E2E_KEY :: u16 where [op_defs]: "op_GET_E2E_KEY = 30"
definition op_SET_E2E_BACKUP :: u16 where [op_defs]: "op_SET_E2E_BACKUP = 31"
definition op_GET_E2E_BACKUP :: u16 where [op_defs]: "op_GET_E2E_BACKUP = 32"
definition op_RESET_E2E :: u16 where [op_defs]: "op_RESET_E2E = 33"
definition op_WALLET :: u16 where [op_defs]: "op_WALLET = 34"
definition op_WALLET_SEND :: u16 where [op_defs]: "op_WALLET_SEND = 35"
definition op_WALLET_HISTORY :: u16 where [op_defs]: "op_WALLET_HISTORY = 36"
definition op_CALL :: u16 where [op_defs]: "op_CALL = 37"
definition op_VOICE_TICKET :: u16 where [op_defs]: "op_VOICE_TICKET = 38"
definition op_VOICE_PARTICIPANTS :: u16 where [op_defs]: "op_VOICE_PARTICIPANTS = 39"
definition op_SEND :: u16 where [op_defs]: "op_SEND = 40"
definition op_EDIT :: u16 where [op_defs]: "op_EDIT = 41"
definition op_CALLBACK :: u16 where [op_defs]: "op_CALLBACK = 42"
definition op_REACT :: u16 where [op_defs]: "op_REACT = 43"
definition op_REACT_PAID :: u16 where [op_defs]: "op_REACT_PAID = 44"
definition op_READ :: u16 where [op_defs]: "op_READ = 45"
definition op_DELETE :: u16 where [op_defs]: "op_DELETE = 46"
definition op_FAVORITE :: u16 where [op_defs]: "op_FAVORITE = 47"
definition op_NODES_STATUS :: u16 where [op_defs]: "op_NODES_STATUS = 50"
definition op_CHATS :: u16 where [op_defs]: "op_CHATS = 51"
definition op_DELETE_CHAT :: u16 where [op_defs]: "op_DELETE_CHAT = 52"
definition op_BAN_USER :: u16 where [op_defs]: "op_BAN_USER = 53"
definition op_UNBAN_USER :: u16 where [op_defs]: "op_UNBAN_USER = 54"
definition op_HISTORY :: u16 where [op_defs]: "op_HISTORY = 55"
definition op_SYNC :: u16 where [op_defs]: "op_SYNC = 56"
definition op_BOT_ACK :: u16 where [op_defs]: "op_BOT_ACK = 57"
definition op_NODE_REGISTER :: u16 where [op_defs]: "op_NODE_REGISTER = 58"
definition op_NODE_LIST :: u16 where [op_defs]: "op_NODE_LIST = 59"
definition op_OAUTH_DEVICE_REQUEST :: u16 where [op_defs]: "op_OAUTH_DEVICE_REQUEST = 60"
definition op_OAUTH_DEVICE_DECISION :: u16 where [op_defs]: "op_OAUTH_DEVICE_DECISION = 61"
definition op_BOTFATHER_EXECUTE :: u16 where [op_defs]: "op_BOTFATHER_EXECUTE = 62"
definition op_DASTARS_CREDIT :: u16 where [op_defs]: "op_DASTARS_CREDIT = 63"
definition op_FILE_TICKET :: u16 where [op_defs]: "op_FILE_TICKET = 65"
definition op_FORWARD :: u16 where [op_defs]: "op_FORWARD = 69"
definition op_MEDIA_QUOTE :: u16 where [op_defs]: "op_MEDIA_QUOTE = 70"
definition op_MESSAGE_PREPARE :: u16 where [op_defs]: "op_MESSAGE_PREPARE = 71"
definition op_MESSAGE_COMMIT :: u16 where [op_defs]: "op_MESSAGE_COMMIT = 72"
definition op_MESSAGE_CANCEL :: u16 where [op_defs]: "op_MESSAGE_CANCEL = 73"
definition op_SET_PROFILE_DESCRIPTION :: u16 where [op_defs]: "op_SET_PROFILE_DESCRIPTION = 74"
definition op_NOTIFYBOT_DRAFT :: u16 where [op_defs]: "op_NOTIFYBOT_DRAFT = 75"
definition op_NOTIFYBOT_CONFIRM :: u16 where [op_defs]: "op_NOTIFYBOT_CONFIRM = 76"
definition op_NOTIFYBOT_CANCEL :: u16 where [op_defs]: "op_NOTIFYBOT_CANCEL = 77"
definition op_NOTIFYBOT_WORK :: u16 where [op_defs]: "op_NOTIFYBOT_WORK = 78"
definition op_BOT_COMMANDS :: u16 where [op_defs]: "op_BOT_COMMANDS = 79"
definition op_STICKER_PACKS :: u16 where [op_defs]: "op_STICKER_PACKS = 80"
definition op_STICKER_PACK :: u16 where [op_defs]: "op_STICKER_PACK = 81"
definition op_STICKER_CREATE :: u16 where [op_defs]: "op_STICKER_CREATE = 82"
definition op_STICKER_PURCHASE :: u16 where [op_defs]: "op_STICKER_PURCHASE = 83"
definition op_STICKER_SEND :: u16 where [op_defs]: "op_STICKER_SEND = 84"
definition op_STICKER_PRICE :: u16 where [op_defs]: "op_STICKER_PRICE = 85"
definition op_AVATAR_PREPARE :: u16 where [op_defs]: "op_AVATAR_PREPARE = 86"
definition op_AVATAR_COMMIT :: u16 where [op_defs]: "op_AVATAR_COMMIT = 87"
definition op_AVATAR_DELETE :: u16 where [op_defs]: "op_AVATAR_DELETE = 88"
definition op_ACCOUNT_INACTIVITY_GET :: u16 where [op_defs]: "op_ACCOUNT_INACTIVITY_GET = 90"
definition op_ACCOUNT_INACTIVITY_SET :: u16 where [op_defs]: "op_ACCOUNT_INACTIVITY_SET = 91"
definition op_PIN :: u16 where [op_defs]: "op_PIN = 92"
definition op_POLL_VOTE :: u16 where [op_defs]: "op_POLL_VOTE = 93"
definition op_CHAT_FAVORITES :: u16 where [op_defs]: "op_CHAT_FAVORITES = 94"
definition op_CHAT_FAVORITE :: u16 where [op_defs]: "op_CHAT_FAVORITE = 95"
definition op_CHAT_FOLDERS :: u16 where [op_defs]: "op_CHAT_FOLDERS = 96"
definition op_CHAT_FOLDER :: u16 where [op_defs]: "op_CHAT_FOLDER = 97"
definition op_QR_LOGIN_START :: u16 where [op_defs]: "op_QR_LOGIN_START = 98"
definition op_QR_LOGIN_POLL :: u16 where [op_defs]: "op_QR_LOGIN_POLL = 99"
definition op_QR_LOGIN_APPROVE :: u16 where [op_defs]: "op_QR_LOGIN_APPROVE = 100"
definition media_op_UPLOAD :: u16 where [op_defs]: "media_op_UPLOAD = 1"
definition media_op_DOWNLOAD :: u16 where [op_defs]: "media_op_DOWNLOAD = 2"
definition media_op_STAT :: u16 where [op_defs]: "media_op_STAT = 3"
definition media_op_DELETE :: u16 where [op_defs]: "media_op_DELETE = 4"
definition media_op_HEALTH :: u16 where [op_defs]: "media_op_HEALTH = 5"
definition voice_op_JOIN :: u16 where [op_defs]: "voice_op_JOIN = 1"

text \<open>The modules as tables, in the order of the source.\<close>

definition op_codes :: "(string \<times> u16) list" where
  "op_codes =
    [(''REGISTER'', op_REGISTER), (''LOGIN'', op_LOGIN), (''EMAIL_AUTH_START'', op_EMAIL_AUTH_START),
     (''EMAIL_AUTH_VERIFY'', op_EMAIL_AUTH_VERIFY), (''ME'', op_ME), (''ACCOUNT_DELETE'', op_ACCOUNT_DELETE),
     (''SET_USERNAME'', op_SET_USERNAME), (''SET_NAME'', op_SET_NAME), (''SET_PRIVACY'', op_SET_PRIVACY),
     (''CONTACTS'', op_CONTACTS), (''CONTACT_ADD'', op_CONTACT_ADD), (''CONTACT_DELETE'', op_CONTACT_DELETE),
     (''CREATE_GROUP'', op_CREATE_GROUP), (''CREATE_CHANNEL'', op_CREATE_CHANNEL),
     (''SET_CHAT_TITLE'', op_SET_CHAT_TITLE), (''SET_CHANNEL_USERNAME'', op_SET_CHANNEL_USERNAME),
     (''SET_CHANNEL_COMMENTS'', op_SET_CHANNEL_COMMENTS), (''SEND_CHANNEL_COMMENT'', op_SEND_CHANNEL_COMMENT),
     (''CHANNEL_COMMENTS'', op_CHANNEL_COMMENTS), (''ADD_CHAT_MEMBER'', op_ADD_CHAT_MEMBER),
     (''REMOVE_CHAT_MEMBER'', op_REMOVE_CHAT_MEMBER), (''SET_CLOUD_PASSWORD'', op_SET_CLOUD_PASSWORD),
     (''RESET_CLOUD_PASSWORD'', op_RESET_CLOUD_PASSWORD), (''SESSIONS'', op_SESSIONS),
     (''REVOKE_SESSION'', op_REVOKE_SESSION), (''REVOKE_OTHER_SESSIONS'', op_REVOKE_OTHER_SESSIONS),
     (''CREATE_BOT'', op_CREATE_BOT), (''RESET_BOT_TOKEN'', op_RESET_BOT_TOKEN), (''SET_E2E_KEY'', op_SET_E2E_KEY),
     (''GET_E2E_KEY'', op_GET_E2E_KEY), (''SET_E2E_BACKUP'', op_SET_E2E_BACKUP),
     (''GET_E2E_BACKUP'', op_GET_E2E_BACKUP), (''RESET_E2E'', op_RESET_E2E), (''WALLET'', op_WALLET),
     (''WALLET_SEND'', op_WALLET_SEND), (''WALLET_HISTORY'', op_WALLET_HISTORY), (''CALL'', op_CALL),
     (''VOICE_TICKET'', op_VOICE_TICKET), (''VOICE_PARTICIPANTS'', op_VOICE_PARTICIPANTS), (''SEND'', op_SEND),
     (''EDIT'', op_EDIT), (''CALLBACK'', op_CALLBACK), (''REACT'', op_REACT), (''REACT_PAID'', op_REACT_PAID),
     (''READ'', op_READ), (''DELETE'', op_DELETE), (''FAVORITE'', op_FAVORITE), (''NODES_STATUS'', op_NODES_STATUS),
     (''CHATS'', op_CHATS), (''DELETE_CHAT'', op_DELETE_CHAT), (''BAN_USER'', op_BAN_USER),
     (''UNBAN_USER'', op_UNBAN_USER), (''HISTORY'', op_HISTORY), (''SYNC'', op_SYNC), (''BOT_ACK'', op_BOT_ACK),
     (''NODE_REGISTER'', op_NODE_REGISTER), (''NODE_LIST'', op_NODE_LIST),
     (''OAUTH_DEVICE_REQUEST'', op_OAUTH_DEVICE_REQUEST), (''OAUTH_DEVICE_DECISION'', op_OAUTH_DEVICE_DECISION),
     (''BOTFATHER_EXECUTE'', op_BOTFATHER_EXECUTE), (''DASTARS_CREDIT'', op_DASTARS_CREDIT),
     (''FILE_TICKET'', op_FILE_TICKET), (''FORWARD'', op_FORWARD), (''MEDIA_QUOTE'', op_MEDIA_QUOTE),
     (''MESSAGE_PREPARE'', op_MESSAGE_PREPARE), (''MESSAGE_COMMIT'', op_MESSAGE_COMMIT),
     (''MESSAGE_CANCEL'', op_MESSAGE_CANCEL), (''SET_PROFILE_DESCRIPTION'', op_SET_PROFILE_DESCRIPTION),
     (''NOTIFYBOT_DRAFT'', op_NOTIFYBOT_DRAFT), (''NOTIFYBOT_CONFIRM'', op_NOTIFYBOT_CONFIRM),
     (''NOTIFYBOT_CANCEL'', op_NOTIFYBOT_CANCEL), (''NOTIFYBOT_WORK'', op_NOTIFYBOT_WORK),
     (''BOT_COMMANDS'', op_BOT_COMMANDS), (''STICKER_PACKS'', op_STICKER_PACKS), (''STICKER_PACK'', op_STICKER_PACK),
     (''STICKER_CREATE'', op_STICKER_CREATE), (''STICKER_PURCHASE'', op_STICKER_PURCHASE),
     (''STICKER_SEND'', op_STICKER_SEND), (''STICKER_PRICE'', op_STICKER_PRICE),
     (''AVATAR_PREPARE'', op_AVATAR_PREPARE), (''AVATAR_COMMIT'', op_AVATAR_COMMIT),
     (''AVATAR_DELETE'', op_AVATAR_DELETE), (''ACCOUNT_INACTIVITY_GET'', op_ACCOUNT_INACTIVITY_GET),
     (''ACCOUNT_INACTIVITY_SET'', op_ACCOUNT_INACTIVITY_SET), (''PIN'', op_PIN), (''POLL_VOTE'', op_POLL_VOTE),
     (''CHAT_FAVORITES'', op_CHAT_FAVORITES), (''CHAT_FAVORITE'', op_CHAT_FAVORITE),
     (''CHAT_FOLDERS'', op_CHAT_FOLDERS), (''CHAT_FOLDER'', op_CHAT_FOLDER), (''QR_LOGIN_START'', op_QR_LOGIN_START),
     (''QR_LOGIN_POLL'', op_QR_LOGIN_POLL), (''QR_LOGIN_APPROVE'', op_QR_LOGIN_APPROVE)]"

definition media_op_codes :: "(string \<times> u16) list" where
  "media_op_codes =
    [(''UPLOAD'', media_op_UPLOAD), (''DOWNLOAD'', media_op_DOWNLOAD), (''STAT'', media_op_STAT),
     (''DELETE'', media_op_DELETE), (''HEALTH'', media_op_HEALTH)]"

definition voice_op_codes :: "(string \<times> u16) list" where
  "voice_op_codes =
    [(''JOIN'', voice_op_JOIN)]"

text \<open>Within a module no two operations share a code.\<close>

lemma codes_distinct: "distinct (map snd op_codes)" "distinct (map snd media_op_codes)"
  by (simp_all add: op_codes_def media_op_codes_def op_defs)

end
