(* ===== verification/Client.thy ===== *)
theory Client
  imports Connection Endpoint Handshake Cbor
begin

text \<open>
  The client of \<open>src/lib.rs\<close> up to a request: the chain of endpoints and the
  rotation of pinned keys, the connection of one endpoint (transport, route
  preface, handshake, \<open>HELLO\<close> negotiation), authentication, the guards of a
  request, and the reading of responses and of structured errors.  The bytes a
  transport delivers and the outcome of an exchange on the connection are
  arguments.
\<close>

section \<open>Versions and features\<close>

definition TRANSPORT_MAJOR :: u64 where [const_defs]: "TRANSPORT_MAJOR = 5"
definition RPC_MAJOR :: u64 where [const_defs]: "RPC_MAJOR = 1"
definition RPC_MINOR :: u64 where [const_defs]: "RPC_MINOR = 2"
definition FEATURE_MULTIPLEX :: u64 where [const_defs]: "FEATURE_MULTIPLEX = push_bit 0 1"
definition FEATURE_STRUCTURED_ERRORS :: u64 where [const_defs]: "FEATURE_STRUCTURED_ERRORS = push_bit 1 1"
definition FEATURE_CBOR_QUERY :: u64 where [const_defs]: "FEATURE_CBOR_QUERY = push_bit 2 1"
definition FEATURE_IDEMPOTENCY :: u64 where [const_defs]: "FEATURE_IDEMPOTENCY = push_bit 3 1"
definition FEATURE_DEADLINE :: u64 where [const_defs]: "FEATURE_DEADLINE = push_bit 4 1"
definition FEATURE_CANCEL :: u64 where [const_defs]: "FEATURE_CANCEL = push_bit 5 1"
definition FEATURE_MEDIA_STREAMS :: u64 where [const_defs]: "FEATURE_MEDIA_STREAMS = push_bit 6 1"
definition FEATURE_VOICE_STREAMS :: u64 where [const_defs]: "FEATURE_VOICE_STREAMS = push_bit 7 1"
definition FEATURE_ZSTD :: u64 where [const_defs]: "FEATURE_ZSTD = push_bit 8 1"

definition REQUIRED_FEATURES :: u64 where [const_defs]:
  "REQUIRED_FEATURES = FEATURE_MULTIPLEX OR FEATURE_STRUCTURED_ERRORS OR FEATURE_CBOR_QUERY
     OR FEATURE_IDEMPOTENCY OR FEATURE_DEADLINE OR FEATURE_CANCEL"

definition CLIENT_FEATURES :: u64 where [const_defs]:
  "CLIENT_FEATURES = FEATURE_MULTIPLEX OR FEATURE_STRUCTURED_ERRORS OR FEATURE_CBOR_QUERY OR FEATURE_IDEMPOTENCY
     OR FEATURE_DEADLINE OR FEATURE_CANCEL OR FEATURE_MEDIA_STREAMS OR FEATURE_VOICE_STREAMS OR FEATURE_ZSTD"

section \<open>The HELLO exchange\<close>

record server_hello =
  sh_transport_major :: u64
  sh_rpc_major :: u64
  sh_rpc_minor :: u64
  sh_features :: u64
  sh_max_frame :: u64
  sh_connection_id :: "string option"

definition get_u64 :: "Value \<Rightarrow> string \<Rightarrow> u64 option" where
  "get_u64 v key = Option.bind (value_get v key) as_u64"

definition get_str :: "Value \<Rightarrow> string \<Rightarrow> string option" where
  "get_str v key = Option.bind (value_get v key) as_str"

definition unwrap_or :: "'b option \<Rightarrow> 'b \<Rightarrow> 'b" where
  "unwrap_or x d = (case x of Some y \<Rightarrow> y | None \<Rightarrow> d)"

definition hello_payload :: Value where
  "hello_payload = Map [(''transport_major'', Unsigned TRANSPORT_MAJOR), (''rpc_major'', Unsigned RPC_MAJOR),
     (''rpc_minor'', Unsigned RPC_MINOR), (''features'', Unsigned CLIENT_FEATURES),
     (''required_features'', Unsigned REQUIRED_FEATURES),
     (''max_frame'', Unsigned (word_of_nat MST5_MAX_PLAIN_PAYLOAD))]"

definition server_hello_from :: "Value \<Rightarrow> server_hello result" where
  "server_hello_from hello =
    (if get_u64 hello ''transport_major'' \<noteq> Some TRANSPORT_MAJOR \<or> get_u64 hello ''rpc_major'' \<noteq> Some RPC_MAJOR
     then Inl (invalid_data ''invalid MST5.1 SERVER_HELLO'')
     else let features = unwrap_or (get_u64 hello ''features'') 0 in
     if features AND REQUIRED_FEATURES \<noteq> REQUIRED_FEATURES
       \<or> get_u64 hello ''max_frame'' \<noteq> Some (word_of_nat MST5_MAX_PLAIN_PAYLOAD)
     then Inl (invalid_data ''MST5.1 server omitted required capabilities'')
     else Inr \<lparr>sh_transport_major = TRANSPORT_MAJOR, sh_rpc_major = RPC_MAJOR,
       sh_rpc_minor = unwrap_or (get_u64 hello ''rpc_minor'') 0, sh_features = features,
       sh_max_frame = unwrap_or (get_u64 hello ''max_frame'') 0, sh_connection_id = get_str hello ''connection_id''\<rparr>)"

text \<open>\<open>out\<close> is what has been written, \<open>input\<close> what the transport still delivers.\<close>

definition negotiate_stream ::
    "'a crypto_scheme \<Rightarrow> decompressor \<Rightarrow> decompressor option \<Rightarrow> bytes \<Rightarrow> bytes \<Rightarrow> session
     \<Rightarrow> (server_hello \<times> bytes \<times> bytes \<times> session) result" where
  "negotiate_stream C deflate zstd out input s =
    rbind (rbind (frame_new kind_HELLO 0 0 (encode_cbor hello_payload)) frame_encode) (\<lambda>encoded.
    case session_write_frame C encoded out s of
      (Inl e, _) \<Rightarrow> Inl e
    | (Inr _, out, s) \<Rightarrow> (case session_read_frame C input s of
        (Inl e, _) \<Rightarrow> Inl e
      | (Inr None, _) \<Rightarrow> Inl (IoError UnexpectedEof ''MST5 closed during HELLO'')
      | (Inr (Some plain), input, s) \<Rightarrow>
          rbind (frame_decode deflate zstd plain) (\<lambda>response.
          if f_kind response \<noteq> kind_HELLO \<or> f_code response \<noteq> 200 \<or> f_id response \<noteq> 0
          then Inl (invalid_data ''MST5.1 HELLO negotiation failed'')
          else rbind (decode_cbor (f_payload response)) (\<lambda>hello.
          rbind (server_hello_from hello) (\<lambda>sh. Inr (sh, out, input, s))))))"

section \<open>Connecting\<close>

record auth_info =
  ai_principal_type :: string
  ai_principal_id :: "string option"
  ai_scopes :: "string list"
  ai_session_id :: "string option"
  ai_expires_at :: "i64 option"
  ai_raw :: Value

record client =
  cl_session :: session
  cl_principal :: "auth_info option"
  cl_server_hello :: server_hello
  cl_sent :: bytes
  cl_input :: bytes

text \<open>
  \<open>dial\<close> opens the transport of an endpoint, a TCP connection or the HTTP bridge,
  and gives the bytes it will deliver; \<open>random\<close> is the ephemeral secret.
\<close>

definition route_bytes :: "parsed_endpoint \<Rightarrow> bytes result" where
  "route_bytes e = (case (pe_m5oh e, pe_route e) of (None, Some route) \<Rightarrow> router_preface route | _ \<Rightarrow> Inr [])"

definition connect_one ::
    "'a crypto_scheme \<Rightarrow> decompressor \<Rightarrow> decompressor option \<Rightarrow> (parsed_endpoint \<Rightarrow> bytes result) \<Rightarrow> bytes
     \<Rightarrow> bytes \<Rightarrow> string \<Rightarrow> client result" where
  "connect_one C deflate zstd dial random pinned endpoint =
    rbind (parse_endpoint endpoint) (\<lambda>e.
    rbind (dial e) (\<lambda>input.
    rbind (route_bytes e) (\<lambda>preface.
    rbind (client_handshake C random pinned input) (\<lambda>(hello, s, input).
    rbind (negotiate_stream C deflate zstd (preface @ hello) input s) (\<lambda>(sh, out, input, s).
    Inr \<lparr>cl_session = s, cl_principal = None, cl_server_hello = sh, cl_sent = out, cl_input = input\<rparr>)))))"

definition endpoint_candidates :: "string \<Rightarrow> string list" where
  "endpoint_candidates configured = filter (\<lambda>v. v \<noteq> []) (map str_trim (split_on CHR ''|'' configured))"

text \<open>The loop over candidates: the first success, or the last error.\<close>

fun try_each :: "('k \<Rightarrow> 'c result) \<Rightarrow> io_error \<Rightarrow> 'k list \<Rightarrow> 'c result" where
  "try_each f err [] = Inl err"
| "try_each f err (k # ks) = (case f k of Inr c \<Rightarrow> Inr c | Inl e \<Rightarrow> try_each f e ks)"

definition connect_with_key_and_options :: "(string \<Rightarrow> 'c result) \<Rightarrow> string \<Rightarrow> 'c result" where
  "connect_with_key_and_options one endpoint =
    (if CHR ''|'' \<in> set endpoint
     then try_each one (invalid_input ''MST5 endpoint list is empty'') (endpoint_candidates endpoint)
     else one endpoint)"

definition pinned_key :: "string \<Rightarrow> bytes result" where
  "pinned_key pinned_public_key_b64 =
    rbind (decode_base64 (str_trim pinned_public_key_b64)) (\<lambda>decoded.
      if length decoded \<noteq> 32 then Inl (invalid_input ''MST5 server public key must decode to 32 bytes'')
      else Inr decoded)"

definition connect_with_options :: "(bytes \<Rightarrow> string \<Rightarrow> 'c result) \<Rightarrow> string \<Rightarrow> string \<Rightarrow> 'c result" where
  "connect_with_options one pinned_public_key_b64 endpoint =
    rbind (pinned_key pinned_public_key_b64) (\<lambda>key. connect_with_key_and_options (one key) endpoint)"

definition connect_with_public_keys :: "(bytes \<Rightarrow> string \<Rightarrow> 'c result) \<Rightarrow> string list \<Rightarrow> string \<Rightarrow> 'c result" where
  "connect_with_public_keys one keys endpoint =
    (if keys = [] then Inl (invalid_input ''at least one MST5 pinned public key is required'')
     else try_each (\<lambda>k. connect_with_options one k endpoint) (invalid_data ''MST5 key rotation failed'') keys)"

definition connect_with_keys :: "(bytes \<Rightarrow> string \<Rightarrow> 'c result) \<Rightarrow> bytes list \<Rightarrow> string \<Rightarrow> 'c result" where
  "connect_with_keys one keys endpoint =
    (if keys = [] then Inl (invalid_input ''at least one MST5 pinned public key is required'')
     else try_each (\<lambda>k. connect_with_key_and_options (one k) endpoint) (invalid_data ''MST5 key rotation failed'') keys)"

section \<open>Responses and structured errors\<close>

record response =
  rs_kind :: u8
  rs_flags :: u8
  rs_status :: u16
  rs_id :: u64
  rs_request_nonce :: bytes
  rs_deadline_ms :: u64
  rs_payload :: bytes

record api_error =
  ae_status :: u16
  ae_code :: string
  ae_message :: string
  ae_retryable :: bool
  ae_retry_after_ms :: "u64 option"
  ae_details :: Value
  ae_trace_id :: "string option"

definition response_from_frame :: "frame \<Rightarrow> response" where
  "response_from_frame f = \<lparr>rs_kind = f_kind f, rs_flags = f_flags f, rs_status = f_code f, rs_id = f_id f,
     rs_request_nonce = f_request_nonce f, rs_deadline_ms = f_deadline_ms f, rs_payload = f_payload f\<rparr>"

definition is_error :: "response \<Rightarrow> bool" where
  "is_error r = (rs_kind r = kind_ERROR \<or> rs_status r \<ge> 400)"

definition response_cbor :: "response \<Rightarrow> Value result" where
  "response_cbor r = (if rs_payload r = [] then Inr (Map []) else decode_cbor (rs_payload r))"

definition api_error_from_value :: "u16 \<Rightarrow> Value \<Rightarrow> api_error" where
  "api_error_from_value status v =
    \<lparr>ae_status = ucast (unwrap_or (get_u64 v ''status'') (ucast status)),
     ae_code = unwrap_or (get_str v ''code'') ''APPLICATION_ERROR'',
     ae_message = unwrap_or (get_str v ''message'') ''MST5 request failed'',
     ae_retryable = unwrap_or (Option.bind (value_get v ''retryable'') as_bool) False,
     ae_retry_after_ms = get_u64 v ''retry_after_ms'',
     ae_details = unwrap_or (value_get v ''details'') (Map []),
     ae_trace_id = get_str v ''trace_id''\<rparr>"

definition api_error_display :: "api_error \<Rightarrow> string" where
  "api_error_display e = ''MST5 '' @ ae_code e @ '' ('' @ decimal (unat (ae_status e)) @ ''): '' @ ae_message e"

definition api_response_error :: "u16 \<Rightarrow> Value \<Rightarrow> io_error" where
  "api_response_error status v = IoError
    (if status = 401 \<or> status = 403 then PermissionDenied
     else if status = 404 then NotFound
     else if status = 408 then TimedOut
     else if status = 409 then AlreadyExists
     else if 400 \<le> status \<and> status \<le> 499 then InvalidInput
     else OtherError) (api_error_display (api_error_from_value status v))"

definition into_result :: "response \<Rightarrow> Value result" where
  "into_result r = rbind (response_cbor r) (\<lambda>v.
     if is_error r then Inl (api_response_error (rs_status r) v) else Inr v)"

definition into_api_result :: "response \<Rightarrow> api_error + Value" where
  "into_api_result r = (case response_cbor r of
      Inl e \<Rightarrow> Inl \<lparr>ae_status = rs_status r, ae_code = ''INVALID_ERROR_PAYLOAD'', ae_message = err_msg e,
        ae_retryable = False, ae_retry_after_ms = None, ae_details = Map [], ae_trace_id = None\<rparr>
    | Inr v \<Rightarrow> if \<not> is_error r then Inr v else Inl (api_error_from_value (rs_status r) v))"

definition response_api_error :: "response \<Rightarrow> api_error option result" where
  "response_api_error r = (if \<not> is_error r then Inr None
     else rbind (response_cbor r) (\<lambda>v. Inr (Some (api_error_from_value (rs_status r) v))))"

definition value_as_string :: "Value \<Rightarrow> string option" where
  "value_as_string v = (case v of
      Text s \<Rightarrow> Some s
    | Unsigned n \<Rightarrow> Some (u64_to_string n)
    | Integer n \<Rightarrow> Some (i64_to_string n)
    | _ \<Rightarrow> None)"

section \<open>Authentication\<close>

definition or_else :: "'b option \<Rightarrow> 'b option \<Rightarrow> 'b option" where
  "or_else a b = (case a of Some x \<Rightarrow> Some x | None \<Rightarrow> b)"

definition auth_info_from_value :: "Value \<Rightarrow> auth_info result" where
  "auth_info_from_value v =
    rbind (case value_get v ''scopes'' of
        Some (Array vs) \<Rightarrow> Inr (List.map_filter as_str vs)
      | None \<Rightarrow> Inr []
      | Some Null \<Rightarrow> Inr []
      | Some _ \<Rightarrow> Inl (invalid_data ''invalid scopes in MST5 AUTH response'')) (\<lambda>scopes.
    Inr \<lparr>ai_principal_type = unwrap_or (Option.bind (or_else (or_else (value_get v ''principal_type'')
             (value_get v ''principal'')) (value_get v ''type'')) as_str) ''anonymous'',
         ai_principal_id = Option.bind (or_else (value_get v ''principal_id'') (value_get v ''id'')) value_as_string,
         ai_scopes = scopes,
         ai_session_id = Option.bind (value_get v ''session_id'') value_as_string,
         ai_expires_at = Option.bind (value_get v ''expires_at'') as_i64,
         ai_raw = v\<rparr>)"

record request_call =
  rq_kind :: u8
  rq_opcode :: u16
  rq_nonce :: bytes
  rq_deadline_ms :: u64
  rq_payload :: bytes

text \<open>\<open>exchange\<close> is the outcome of \<open>Mst5Connection::request\<close>.\<close>

definition set_principal :: "auth_info \<Rightarrow> client \<Rightarrow> client" where
  "set_principal info c = c\<lparr>cl_principal := Some info\<rparr>"

definition auth_call :: "Value \<Rightarrow> request_call" where
  "auth_call payload = \<lparr>rq_kind = kind_AUTH, rq_opcode = 0, rq_nonce = replicate 16 0, rq_deadline_ms = 0,
     rq_payload = encode_cbor payload\<rparr>"

definition authenticate_info_with_client_metadata ::
    "(request_call \<Rightarrow> frame result) \<Rightarrow> string \<Rightarrow> string \<Rightarrow> string \<Rightarrow> client \<Rightarrow> auth_info result \<times> client" where
  "authenticate_info_with_client_metadata exchange token client_name device_model c =
    (case
      (if length (str_chars client_name) > 64 then
         Inl (invalid_input ''client_name must contain at most 64 characters'')
       else if length (str_chars device_model) > 128 \<or> any_control device_model then
         Inl (invalid_input ''device_model must contain at most 128 printable characters'')
       else rbind (exchange (auth_call (Map [(''token'', Text token), (''client_name'', Text (str_trim client_name)),
           (''device_model'', Text (str_trim device_model))]))) (\<lambda>f.
         rbind (into_result (response_from_frame f)) auth_info_from_value)) of
       Inl e \<Rightarrow> (Inl e, c)
     | Inr info \<Rightarrow> (Inr info, set_principal info c))"

definition prefix_error :: "string \<Rightarrow> 'b result \<Rightarrow> 'b result" where
  "prefix_error p r = (case r of Inl e \<Rightarrow> Inl (IoError PermissionDenied (p @ err_msg e)) | Inr v \<Rightarrow> Inr v)"

definition connect_media ::
    "(request_call \<Rightarrow> frame result) \<Rightarrow> client result \<Rightarrow> string \<Rightarrow> client result" where
  "connect_media exchange conn ticket =
    rbind conn (\<lambda>c.
    if sh_features (cl_server_hello c) AND FEATURE_MEDIA_STREAMS = 0
    then Inl (invalid_data ''media node omitted MEDIA_STREAMS'')
    else rbind (exchange (auth_call (Map [(''mechanism'', Text ''media_ticket''), (''ticket'', Text ticket)]))) (\<lambda>f.
    rbind (prefix_error ''media authentication failed: '' (into_result (response_from_frame f))) (\<lambda>raw.
    Inr (set_principal \<lparr>ai_principal_type = ''media_ticket'', ai_principal_id = None, ai_scopes = [''media.transfer''],
      ai_session_id = None, ai_expires_at = None, ai_raw = raw\<rparr> c))))"

definition connect_media_internal ::
    "(request_call \<Rightarrow> frame result) \<Rightarrow> client result \<Rightarrow> string \<Rightarrow> client result" where
  "connect_media_internal exchange conn node_secret =
    rbind conn (\<lambda>c.
    if sh_features (cl_server_hello c) AND FEATURE_MEDIA_STREAMS = 0
    then Inl (invalid_data ''media node omitted MEDIA_STREAMS'')
    else rbind (exchange (auth_call (Map [(''mechanism'', Text ''node_secret''), (''secret'', Text node_secret)]))) (\<lambda>f.
    rbind (into_result (response_from_frame f)) (\<lambda>raw.
    Inr (set_principal \<lparr>ai_principal_type = ''node'', ai_principal_id = None, ai_scopes = [''media.internal''],
      ai_session_id = None, ai_expires_at = None, ai_raw = raw\<rparr> c))))"

definition is_authenticated :: "client \<Rightarrow> bool" where
  "is_authenticated c = (case cl_principal c of None \<Rightarrow> False
     | Some info \<Rightarrow> ai_principal_type info \<notin> {''anonymous'', ''unauthenticated''})"

definition is_anonymous :: "client \<Rightarrow> bool" where
  "is_anonymous c = (case cl_principal c of None \<Rightarrow> False | Some info \<Rightarrow> ai_principal_type info = ''anonymous'')"

section \<open>Requests\<close>

record request_options =
  ro_request_nonce :: "bytes option"
  ro_deadline_ms :: "u64 option"

definition has_principal :: "client \<Rightarrow> bool" where
  "has_principal c = (cl_principal c \<noteq> None)"

definition request_nonce_for :: "bytes option \<Rightarrow> u8 \<Rightarrow> request_options \<Rightarrow> bytes result" where
  "request_nonce_for random frame_kind options =
    (if frame_kind = kind_COMMAND then (case ro_request_nonce options of
       Some v \<Rightarrow> if v = replicate 16 0 then Inl (invalid_input ''COMMAND request nonce must be non-zero'') else Inr v
     | None \<Rightarrow> rbind (ok_or random (invalid_data ''OS CSPRNG failed'')) (\<lambda>v.
         Inr (if v = replicate 16 0 then v[0 := 1] else v)))
     else if ro_request_nonce options \<noteq> None then Inl (invalid_input ''request nonce is only valid for COMMAND'')
     else Inr (replicate 16 0))"

text \<open>\<open>now\<close> and \<open>now'\<close> are the two readings of the clock; the timeout goes with the call.\<close>

definition request_call_for ::
    "u64 \<Rightarrow> u64 \<Rightarrow> u64 \<Rightarrow> bytes option \<Rightarrow> client \<Rightarrow> u8 \<Rightarrow> u16 \<Rightarrow> bytes \<Rightarrow> request_options
     \<Rightarrow> (request_call \<times> u64) result" where
  "request_call_for read_timeout now now' random c frame_kind opcode payload options =
    (if \<not> has_principal c then
       Inl (IoError PermissionDenied ''authenticate() must be called before MST5 queries or commands'')
     else if frame_kind \<noteq> kind_QUERY \<and> frame_kind \<noteq> kind_COMMAND then
       Inl (invalid_input ''request kind must be QUERY or COMMAND'')
     else rbind (request_nonce_for random frame_kind options) (\<lambda>nonce.
     let deadline_ms = unwrap_or (ro_deadline_ms options) (saturating_add now read_timeout) in
     rbind (deadline_timeout now' deadline_ms read_timeout) (\<lambda>timeout.
     Inr (\<lparr>rq_kind = frame_kind, rq_opcode = opcode, rq_nonce = nonce, rq_deadline_ms = deadline_ms,
       rq_payload = payload\<rparr>, timeout))))"

definition request_cbor_with_options ::
    "(request_call \<Rightarrow> u64 \<Rightarrow> frame result) \<Rightarrow> u64 \<Rightarrow> u64 \<Rightarrow> u64 \<Rightarrow> bytes option \<Rightarrow> client \<Rightarrow> u8 \<Rightarrow> u16 \<Rightarrow> bytes
     \<Rightarrow> request_options \<Rightarrow> response result" where
  "request_cbor_with_options exchange read_timeout now now' random c frame_kind opcode payload options =
    rbind (request_call_for read_timeout now now' random c frame_kind opcode payload options) (\<lambda>(call, timeout).
    rbind (exchange call timeout) (\<lambda>f. Inr (response_from_frame f)))"

definition query_payload :: "string \<Rightarrow> Value" where
  "query_payload query = (if query = [] then Map [] else Map [(''query'', Text query)])"

definition ping_result :: "frame result \<Rightarrow> unit result" where
  "ping_result r = rbind r (\<lambda>f. if f_kind f = kind_PONG then Inr ()
     else Inl (invalid_data ''unexpected MST5 response to PING''))"

section \<open>Trimming and candidate lists\<close>

lemma utf8_next_append: "utf8_next bs = Some (c, r) \<Longrightarrow> bs = take (length bs - length r) bs @ r"
  by (cases bs) (auto simp: Let_def numeral_2_eq_2 numeral_3_eq_3 split: if_splits list.splits)

lemma utf8_next_replace: "utf8_next (p @ r) = Some (c, r) \<Longrightarrow> utf8_next (p @ r') = Some (c, r')"
  using utf8_next_shorter [of "p @ r" c r] by (cases p) (auto simp: Let_def split: if_splits list.splits)

lemma utf8_next_truncate: "utf8_next (b # r1 @ r2) = None \<Longrightarrow> utf8_next (b # r1) = None"
  by (auto simp: Let_def split: if_splits list.splits)

lemma utf8_split_Nil [simp]: "utf8_split [] = []"
  by (simp add: utf8_split.simps)

lemma utf8_split_concat: "concat (map snd (utf8_split bs)) = bs"
proof (induction bs rule: utf8_split.induct)
  case (1 bs)
  show ?case
  proof (cases "bs = []")
    case False
    then show ?thesis
      using 1 utf8_next_append [of bs]
      by (subst utf8_split.simps) (auto split: option.split)
  qed simp
qed

lemma utf8_split_pieces: "utf8_split bs = xs @ ys \<Longrightarrow>
    utf8_split (concat (map snd xs)) = xs \<and> utf8_split (concat (map snd ys)) = ys"
proof (induction bs arbitrary: xs rule: utf8_split.induct)
  case (1 bs)
  show ?case
  proof (cases "xs = [] \<or> bs = []")
    case True
    then show ?thesis using 1 utf8_split_concat [of bs] by auto
  next
    case False
    then obtain x xs' where xs: "xs = x # xs'" and ne: "bs \<noteq> []" by (cases xs) auto
    show ?thesis
    proof (cases "utf8_next bs")
      case None
      with 1 ne xs have x: "x = (65533, [hd bs])" and t: "utf8_split (tl bs) = xs' @ ys"
        by (auto simp: utf8_split.simps [of bs])
      from 1(1) [OF ne None t] have ih: "utf8_split (concat (map snd xs')) = xs'"
        "utf8_split (concat (map snd ys)) = ys" by auto
      have "bs = hd bs # concat (map snd xs') @ concat (map snd ys)"
        using ne utf8_split_concat [of "tl bs"] t by (metis concat_append list.collapse map_append)
      with None have "utf8_next (hd bs # concat (map snd xs')) = None" by (metis utf8_next_truncate)
      with ih x xs show ?thesis by (simp add: utf8_split.simps [of "hd bs # _"])
    next
      case (Some a)
      then obtain c r where a: "utf8_next bs = Some (c, r)" by (cases a) auto
      define p where "p = take (length bs - length r) bs"
      have bs: "bs = p @ r" using utf8_next_append [OF a] by (simp add: p_def)
      have pne: "p \<noteq> []" using utf8_next_shorter [OF a] bs by auto
      from a 1 ne xs have x: "x = (c, p)" and t: "utf8_split r = xs' @ ys"
        by (auto simp: utf8_split.simps [of bs] p_def)
      from 1(2) [OF ne a refl t] have ih: "utf8_split (concat (map snd xs')) = xs'"
        "utf8_split (concat (map snd ys)) = ys" by auto
      have "utf8_next (p @ concat (map snd xs')) = Some (c, concat (map snd xs'))"
        using a bs by (metis utf8_next_replace)
      with ih x xs pne show ?thesis by (simp add: utf8_split.simps [of "p @ _"])
    qed
  qed
qed

lemma dropWhile_rev_split:
  obtains us ws where "xs = us @ dropWhile P (rev (dropWhile P (rev xs))) @ ws"
    "\<And>y ys. dropWhile P (rev (dropWhile P (rev xs))) = y # ys \<Longrightarrow> \<not> P y \<and> \<not> P (last (y # ys))"
proof -
  let ?m = "rev (dropWhile P (rev xs))"
  have "xs = ?m @ rev (takeWhile P (rev xs))"
    by (metis rev_append rev_rev_ident takeWhile_dropWhile_id)
  moreover have "?m = takeWhile P ?m @ dropWhile P ?m" by simp
  ultimately have 1: "xs = takeWhile P ?m @ dropWhile P ?m @ rev (takeWhile P (rev xs))"
    by (metis append.assoc)
  have 2: "\<not> P y \<and> \<not> P (last (y # ys))" if "dropWhile P ?m = y # ys" for y ys
  proof
    show "\<not> P y" using that by (metis hd_dropWhile list.sel(1) list.distinct(1))
    have "last (y # ys) = last ?m"
      using that by (metis last_append list.distinct(1) takeWhile_dropWhile_id)
    moreover have "dropWhile P (rev xs) \<noteq> []"
      using that by (metis dropWhile.simps(1) list.distinct(1) rev.simps(1))
    ultimately show "\<not> P (last (y # ys))" by (simp add: last_rev hd_dropWhile)
  qed
  show thesis by (rule that [OF 1 2])
qed

lemma dropWhile_rev_idem:
  assumes "\<And>y ys. m = y # ys \<Longrightarrow> \<not> P y \<and> \<not> P (last (y # ys))"
  shows "dropWhile P (rev (dropWhile P (rev m))) = m"
proof (cases m)
  case (Cons y ys)
  with assms have "\<not> P y" "\<not> P (last m)" by auto
  moreover have "rev m = last m # rev (butlast m)"
    using Cons rev_append [of "butlast m" "[last m]"] by simp
  ultimately show ?thesis using Cons by simp
qed simp

lemma str_trim_parts:
  obtains u w where "as_bytes s = u @ as_bytes (str_trim s) @ w" "str_trim (str_trim s) = str_trim s"
proof -
  define P where "P = (\<lambda>(c, _ :: bytes). char_is_whitespace c)"
  define m where "m = dropWhile P (rev (dropWhile P (rev (utf8_split (as_bytes s)))))"
  have trim: "str_trim x = string_of_bytes (concat (map snd (dropWhile P (rev (dropWhile P (rev (utf8_split (as_bytes x))))))))"
    for x by (simp only: str_trim_def Let_def P_def)
  obtain us ws where s: "utf8_split (as_bytes s) = us @ m @ ws"
    and e: "\<And>y ys. m = y # ys \<Longrightarrow> \<not> P y \<and> \<not> P (last (y # ys))"
    by (rule dropWhile_rev_split [of "utf8_split (as_bytes s)" P, folded m_def], rule that)
  have t: "str_trim s = string_of_bytes (concat (map snd m))" by (simp only: trim m_def)
  have "utf8_split (concat (map snd (m @ ws))) = m @ ws" using utf8_split_pieces [OF s] by (rule conjunct2)
  then have m: "utf8_split (concat (map snd m)) = m" by (rule utf8_split_pieces [THEN conjunct1])
  have "as_bytes s = concat (map snd us) @ as_bytes (str_trim s) @ concat (map snd ws)"
    using utf8_split_concat [of "as_bytes s"] unfolding s t by simp
  moreover have "str_trim (str_trim s) = str_trim s"
    unfolding t by (simp only: trim as_bytes_string_of_bytes m dropWhile_rev_idem [OF e])
  ultimately show thesis by (rule that)
qed

lemma str_trim_trimmed [simp]: "str_trim (str_trim s) = str_trim s"
  by (rule str_trim_parts [of s])

lemma string_of_bytes_append [simp]: "string_of_bytes (a @ b) = string_of_bytes a @ string_of_bytes b"
  by (simp add: string_of_bytes_def)

lemma str_trim_set: "set (str_trim s) \<subseteq> set s"
proof (rule str_trim_parts [of s])
  fix u w
  assume "as_bytes s = u @ as_bytes (str_trim s) @ w"
  then have "string_of_bytes (as_bytes s) = string_of_bytes (u @ as_bytes (str_trim s) @ w)" by simp
  then have "s = string_of_bytes u @ str_trim s @ string_of_bytes w" by simp
  then show ?thesis by (metis set_append subset_Un_eq sup.left_idem sup_left_commute)
qed

lemma split_on_pieces: "zs \<in> set (split_on x ys) \<Longrightarrow> x \<notin> set zs"
  by (induction ys arbitrary: zs) (auto split: if_splits list.splits)

lemma split_on_set: "zs \<in> set (split_on x ys) \<Longrightarrow> set zs \<subseteq> set ys"
  by (induction ys arbitrary: zs) (fastforce split: if_splits list.splits)+

text \<open>A candidate as the connector and the transport selection leave it.\<close>

definition candidate_ok :: "string \<Rightarrow> bool" where
  "candidate_ok c \<longleftrightarrow> c \<noteq> [] \<and> str_trim c = c \<and> CHR ''|'' \<notin> set c"

lemma endpoint_candidates_ok: "c \<in> set (endpoint_candidates configured) \<Longrightarrow> candidate_ok c"
  using str_trim_set split_on_pieces by (fastforce simp: endpoint_candidates_def candidate_ok_def)

lemma endpoint_candidates_single: "candidate_ok c \<Longrightarrow> endpoint_candidates c = [c]"
  by (simp add: endpoint_candidates_def candidate_ok_def split_on_none)

lemma endpoint_candidates_Cons:
  "candidate_ok c \<Longrightarrow> endpoint_candidates (c @ CHR ''|'' # rest) = c # endpoint_candidates rest"
  by (simp add: endpoint_candidates_def candidate_ok_def split_on_append split_on_none)

lemma try_each_Inr: "try_each f e ks = Inr c \<Longrightarrow> \<exists>k \<in> set ks. f k = Inr c"
proof (induction ks arbitrary: e)
  case (Cons k ks)
  then show ?case by (cases "f k") auto
qed simp

lemma try_each_append:
  "try_each f e (xs @ ys) = Inr c \<Longrightarrow>
    (\<exists>k \<in> set xs. f k = Inr c) \<or> (\<forall>k \<in> set xs. \<not> is_ok (f k)) \<and> (\<exists>k \<in> set ys. f k = Inr c)"
proof (induction xs arbitrary: e)
  case Nil
  then show ?case by (simp add: try_each_Inr)
next
  case (Cons k xs)
  then show ?case by (cases "f k") auto
qed

lemma try_each_ok: "is_ok (try_each f e ks) \<longleftrightarrow> (\<exists>k \<in> set ks. is_ok (f k))"
proof (induction ks arbitrary: e)
  case (Cons k ks)
  then show ?case by (cases "f k") (simp_all add: is_ok_def)
qed (simp add: is_ok_def)

lemma try_each_cong: "(\<And>k. k \<in> set ks \<Longrightarrow> f k = g k) \<Longrightarrow> try_each f e ks = try_each g e ks"
  by (induction ks arbitrary: e) (auto split: sum.split)

section \<open>Lemmas on the HELLO exchange\<close>

lemma route_bytes_ok: "parse_endpoint endpoint = Inr e \<Longrightarrow> \<exists>preface. route_bytes e = Inr preface"
  using parse_endpoint_ok [of endpoint e]
  by (auto simp: route_bytes_def endpoint_ok_def router_preface_def split: option.splits)

lemma encode_cbor_head_length: "length (encode_cbor_head m v) \<le> 9"
  by (simp add: encode_cbor_head_def Let_def)

lemma encode_unsigned_map_length:
  "list_all (\<lambda>(k, v). length k \<le> 20 \<and> (\<exists>n. v = Unsigned n)) es \<Longrightarrow>
    length (encode_cbor (Map es)) \<le> 9 + 40 * length es"
proof -
  let ?enc = "\<lambda>(key, v). encode_cbor_head 3 (word_of_nat (length key)) @ as_bytes key @ encode_cbor_value v"
  assume "list_all (\<lambda>(k, v). length k \<le> 20 \<and> (\<exists>n. v = Unsigned n)) es"
  then have "length (concat (map ?enc es)) \<le> 40 * length es"
  proof (induction es)
    case (Cons e es)
    obtain k n where e: "e = (k, Unsigned n)" "length k \<le> 20" using Cons.prems by (cases e) auto
    then have "length (?enc e) \<le> 38"
      using encode_cbor_head_length [of 3 "word_of_nat (length k)"] encode_cbor_head_length [of 0 n]
      by (simp add: as_bytes_def)
    moreover have "length (concat (map ?enc es)) \<le> 40 * length es" using Cons by simp
    ultimately show ?case by simp
  qed simp
  with encode_cbor_head_length [of 5 "word_of_nat (length es)"] show ?thesis by (simp add: encode_cbor_def)
qed

lemma hello_payload_length: "length (encode_cbor hello_payload) \<le> 249"
  unfolding hello_payload_def by (rule order.trans [OF encode_unsigned_map_length]) simp_all

lemma hello_payload_fits: "length (encode_cbor hello_payload) \<le> MST5_MAX_PLAIN_PAYLOAD"
  using hello_payload_length by (simp add: const_defs)

lemma hello_kind: "valid_kind kind_HELLO"
  by (simp add: valid_kind_def const_defs)

lemma frame_new_encodes:
  assumes "valid_kind knd" "length payload \<le> MST5_MAX_PLAIN_PAYLOAD"
  obtains f where "frame_new knd code fid payload = Inr f" "frame_encode f = Inr (frame_header f @ f_payload f)"
    "f_kind f = knd" "f_code f = code" "f_id f = fid" "f_payload f = payload"
    "\<And>deflate z. frame_decode deflate (Some z) (frame_header f @ f_payload f) = Inr f"
    "length (frame_header f @ f_payload f) \<le> MAX_TRANSPORT_PAYLOAD"
proof -
  define f where "f = \<lparr>f_kind = knd, f_flags = 0, f_code = code, f_id = fid, f_request_nonce = replicate 16 0,
    f_deadline_ms = 0, f_payload = payload\<rparr>"
  have new: "frame_new knd code fid payload = Inr f" using assms by (simp add: frame_new_def f_def)
  have wf: "frame_wf f" "f_flags f = 0" using frame_new_wf [OF new] by simp_all
  have n: "length (f_request_nonce f) = 16" by (simp add: f_def)
  have "length (frame_header f @ f_payload f) \<le> MAX_TRANSPORT_PAYLOAD"
    using length_frame_header [OF n] assms(2) by (simp add: f_def const_defs)
  then show thesis
    using new frame_encode_ok [OF wf] decode_encoded_frame [OF wf] by (intro that [of f]) (simp_all add: f_def frame_decode_def ok_or_def)
qed

lemma deadline_timeout_bounds:
  assumes "deadline_timeout now deadline fallback = Inr timeout"
  shows "timeout \<le> fallback" "deadline \<noteq> 0 \<longrightarrow> unat now + unat timeout \<le> unat deadline"
proof -
  show "timeout \<le> fallback" using assms by (auto simp: deadline_timeout_def Let_def split: if_splits)
  show "deadline \<noteq> 0 \<longrightarrow> unat now + unat timeout \<le> unat deadline"
  proof
    assume "deadline \<noteq> 0"
    then have "timeout \<le> saturating_sub deadline now" "saturating_sub deadline now \<noteq> 0"
      using assms by (auto simp: deadline_timeout_def Let_def split: if_splits)
    then show "unat now + unat timeout \<le> unat deadline"
      by (auto simp: word_le_nat_alt unat_saturating_sub unat_eq_0 [symmetric])
  qed
qed

lemma nonzero_update: "length v = 16 \<Longrightarrow> v[0 := 1] \<noteq> replicate 16 (0 :: u8)"
  by (metis length_replicate nth_list_update_eq nth_replicate zero_less_numeral zero_neq_one)

section \<open>Properties\<close>

text \<open>
  C2: connecting to a server that follows the Noise NK pattern for the pinned key and
  answers the \<open>HELLO\<close> with an acceptable capability map succeeds.  The client has
  written exactly the route preface (of a routed native endpoint only), its
  handshake message and one record with its own \<open>HELLO\<close>, which the server reads;
  it holds the server's capabilities, has consumed exactly the server's answer,
  and both sides are in step in both directions.
\<close>

theorem connect_interop:
  assumes laws: "aead_laws C" "hash_laws C" "dh_laws C"
    and nonzero: "\<not> list_all (\<lambda>b. b = 0) (c_dh C ck (c_public C sk))" "\<not> list_all (\<lambda>b. b = 0) (c_dh C ck (c_public C ek))"
    and endpoint: "parse_endpoint endpoint = Inr e"
    and caps: "cbor_ok 0 hv" "length (encode_cbor hv) \<le> MST5_MAX_PLAIN_PAYLOAD" "server_hello_from (cbor_norm hv) = Inr sh"
  shows "\<exists>preface hello reply msg answer c srv srv1 srv2 f g.
      route_bytes e = Inr preface \<and> (pe_m5oh e \<noteq> None \<or> pe_route e = None \<longrightarrow> preface = [])
      \<and> nk_respond C sk ek hello = Inr (reply, srv)
      \<and> rbind (frame_new kind_HELLO 0 0 (encode_cbor hello_payload)) frame_encode = Inr f
      \<and> session_read_frame C msg srv = (Inr (Some f), [], srv1)
      \<and> rbind (frame_new kind_HELLO 200 0 (encode_cbor hv)) frame_encode = Inr g
      \<and> session_write_frame C g [] srv1 = (Inr (), answer, srv2)
      \<and> connect_one C deflate (Some z) (\<lambda>_. Inr (reply @ answer @ rest)) ck (c_public C sk) endpoint = Inr c
      \<and> cl_sent c = preface @ hello @ msg \<and> cl_input c = rest \<and> cl_server_hello c = sh \<and> \<not> has_principal c
      \<and> in_sync (cl_session c) srv2 \<and> in_sync srv2 (cl_session c)"
proof -
  obtain preface where pre: "route_bytes e = Inr preface" using route_bytes_ok [OF endpoint] by blast
  have pre0: "pe_m5oh e \<noteq> None \<or> pe_route e = None \<longrightarrow> preface = []"
    using pre by (auto simp: route_bytes_def split: option.splits)
  obtain hello reply srv s where hs: "\<And>rest. client_handshake C ck (c_public C sk) (reply @ rest) = Inr (hello, s, rest)"
    "nk_respond C sk ek hello = Inr (reply, srv)" "in_sync s srv" "in_sync srv s"
    "s_seal s = cipher_new (cs_key (s_seal s))" "s_open s = cipher_new (cs_key (s_open s))"
    by (rule handshake_with_responder [OF laws nonzero]) (rule that; assumption)
  have ready: "channel_ready (Suc 0) (s_seal s)" "channel_ready (Suc 0) (s_open s)"
    using fresh_channel_ready [OF _ client_handshake_keys(1) [OF hs(1) laws(2)], of "Suc 0"]
      fresh_channel_ready [OF _ client_handshake_keys(2) [OF hs(1) laws(2)], of "Suc 0"] hs(5,6) by simp_all
  obtain f where f: "frame_new kind_HELLO 0 0 (encode_cbor hello_payload) = Inr f"
    "frame_encode f = Inr (frame_header f @ f_payload f)" "length (frame_header f @ f_payload f) \<le> MAX_TRANSPORT_PAYLOAD"
    by (rule frame_new_encodes [OF hello_kind hello_payload_fits, of 0 0]) (rule that; assumption)
  obtain g where g: "frame_new kind_HELLO 200 0 (encode_cbor hv) = Inr g"
    "frame_encode g = Inr (frame_header g @ f_payload g)" "length (frame_header g @ f_payload g) \<le> MAX_TRANSPORT_PAYLOAD"
    "f_kind g = kind_HELLO" "f_code g = 200" "f_id g = 0" "f_payload g = encode_cbor hv"
    "\<And>deflate z. frame_decode deflate (Some z) (frame_header g @ f_payload g) = Inr g"
    by (rule frame_new_encodes [OF hello_kind caps(2), of 200 0]) (rule that; assumption)
  obtain msg s1 srv1 where c2s: "\<And>out. session_write_frame C (frame_header f @ f_payload f) out s = (Inr (), out @ msg, s1)"
    "\<And>rest. session_read_frame C (msg @ rest) srv = (Inr (Some (frame_header f @ f_payload f)), rest, srv1)" "in_sync s1 srv1"
    by (rule session_frame_step [OF laws(1,2) hs(3) ready(1) f(3)]) (rule that; assumption)
  have k1: "s_open s1 = s_open s" "s_hash s1 = s_hash s" using session_write_frame_keeps [OF c2s(1) [of "[]"]] by simp_all
  have k2: "s_seal srv1 = s_seal srv" "s_hash srv1 = s_hash srv"
    using session_read_frame_keeps [OF c2s(2) [of "[]"]] by simp_all
  have sync1: "in_sync srv1 s1" "channel_ready (Suc 0) (s_seal srv1)"
    using hs(4) k1 k2 ready by (simp_all add: in_sync_def)
  obtain answer srv2 s2 where s2c: "\<And>out. session_write_frame C (frame_header g @ f_payload g) out srv1 = (Inr (), out @ answer, srv2)"
    "\<And>rest. session_read_frame C (answer @ rest) s1 = (Inr (Some (frame_header g @ f_payload g)), rest, s2)" "in_sync srv2 s2"
    by (rule session_frame_step [OF laws(1,2) sync1(1,2) g(3)]) (rule that; assumption)
  have sync2: "in_sync s2 srv2"
    using c2s(3) session_write_frame_keeps [OF s2c(1) [of "[]"]] session_read_frame_keeps [OF s2c(2) [of "[]"]]
    by (simp add: in_sync_def)
  have dec: "decode_cbor (encode_cbor hv) = Inr (cbor_norm hv)"
    using decode_encode_cbor [OF caps(1)] caps(2) by (simp add: const_defs)
  have "negotiate_stream C deflate (Some z) (preface @ hello) (answer @ rest) s = Inr (sh, (preface @ hello) @ msg, rest, s2)"
    unfolding negotiate_stream_def by (simp add: f g g(8) [unfolded g(7)] c2s s2c s2c(2) [unfolded g(7)] s2c(1) [unfolded g(7)] dec caps(3))
  then have con: "connect_one C deflate (Some z) (\<lambda>_. Inr (reply @ answer @ rest)) ck (c_public C sk) endpoint
      = Inr \<lparr>cl_session = s2, cl_principal = None, cl_server_hello = sh, cl_sent = preface @ hello @ msg, cl_input = rest\<rparr>"
      (is "_ = Inr ?c")
    unfolding connect_one_def by (simp add: endpoint pre hs(1))
  have frames: "rbind (frame_new kind_HELLO 0 0 (encode_cbor hello_payload)) frame_encode = Inr (frame_header f @ f_payload f)"
    "rbind (frame_new kind_HELLO 200 0 (encode_cbor hv)) frame_encode = Inr (frame_header g @ f_payload g)"
    by (simp_all add: f g)
  have wire: "session_read_frame C msg srv = (Inr (Some (frame_header f @ f_payload f)), [], srv1)"
    "session_write_frame C (frame_header g @ f_payload g) [] srv1 = (Inr (), answer, srv2)"
    using c2s(2) [of "[]"] s2c(1) [of "[]"] by simp_all
  have c: "cl_sent ?c = preface @ hello @ msg" "cl_input ?c = rest" "cl_server_hello ?c = sh" "\<not> has_principal ?c"
    "in_sync (cl_session ?c) srv2" "in_sync srv2 (cl_session ?c)"
    using sync2 s2c(3) by (simp_all add: has_principal_def)
  show ?thesis by (intro exI conjI) (rule pre pre0 hs(2) frames wire con c)+
qed

lemma sample_server_hello:
  "cbor_ok 0 hello_payload" "cbor_norm hello_payload = hello_payload" "is_ok (server_hello_from hello_payload)"
proof -
  have "utf8_valid (as_bytes k)" if "k \<in> {''transport_major'', ''rpc_major'', ''rpc_minor'', ''features'',
      ''required_features'', ''max_frame''}" for k
    using that by (elim insertE emptyE; hypsubst; code_simp)
  then show "cbor_ok 0 hello_payload" by (simp add: hello_payload_def const_defs)
  show "cbor_norm hello_payload = hello_payload" by (simp add: hello_payload_def)
  have "CLIENT_FEATURES AND REQUIRED_FEATURES = REQUIRED_FEATURES" by (simp add: const_defs)
  then show "is_ok (server_hello_from hello_payload)"
    by (simp add: server_hello_from_def hello_payload_def get_u64_def unwrap_or_def)
qed

theorem connect_interop_witness:
  "\<exists>reply answer c srv. connect_one toy_crypto (\<lambda>_ _. None) (Some (\<lambda>_ _. None)) (\<lambda>_. Inr (reply @ answer @ [])) [1]
      (c_public toy_crypto [2]) ''tcp://a:1'' = Inr c
    \<and> in_sync (cl_session c) srv \<and> in_sync srv (cl_session c)"
proof -
  have nz: "\<not> list_all (\<lambda>b. b = 0) (c_dh toy_crypto [1] (c_public toy_crypto [2]))"
    "\<not> list_all (\<lambda>b. b = 0) (c_dh toy_crypto [1] (c_public toy_crypto [3]))"
    by (simp_all add: toy_crypto_def)
  obtain sh where "server_hello_from (cbor_norm hello_payload) = Inr sh"
    using sample_server_hello by (auto simp: is_ok_iff)
  from connect_interop [OF toy_laws(1,2) toy_dh_laws nz sample_endpoint sample_server_hello(1) hello_payload_fits this,
      of "\<lambda>_ _. None" "\<lambda>_ _. None" "[]"]
  show ?thesis by (elim exE conjE) blast
qed

text \<open>
  A request that passes the client's guards is one of an authenticated client, is
  a query or a command, and carries a sixteen-byte nonce that is zero exactly
  for queries.  Its waiting time is at most the read timeout and never reaches
  past its deadline, and the connection can build a frame for it exactly when
  the payload is within the limit.
\<close>

theorem request_call_wellformed:
  assumes "request_call_for read_timeout now now' random c frame_kind opcode payload options = Inr (call, timeout)"
    "\<forall>r. random = Some r \<longrightarrow> length r = 16" "\<forall>n. ro_request_nonce options = Some n \<longrightarrow> length n = 16"
  shows "has_principal c \<and> (rq_kind call = kind_QUERY \<or> rq_kind call = kind_COMMAND)
    \<and> length (rq_nonce call) = 16 \<and> (rq_nonce call = replicate 16 0 \<longleftrightarrow> rq_kind call = kind_QUERY)
    \<and> timeout \<le> read_timeout
    \<and> (rq_deadline_ms call \<noteq> 0 \<longrightarrow> unat now' + unat timeout \<le> unat (rq_deadline_ms call))
    \<and> (is_ok (frame_request (rq_kind call) (rq_opcode call) fid (rq_nonce call) (rq_deadline_ms call) (rq_payload call))
        \<longleftrightarrow> length payload \<le> MST5_MAX_PLAIN_PAYLOAD)"
proof -
  define deadline where "deadline = unwrap_or (ro_deadline_ms options) (saturating_add now read_timeout)"
  have kinds: "kind_QUERY \<noteq> kind_COMMAND" "valid_kind kind_QUERY" "valid_kind kind_COMMAND"
    by (simp_all add: valid_kind_def const_defs)
  obtain nonce where run: "has_principal c" "frame_kind = kind_QUERY \<or> frame_kind = kind_COMMAND"
    "request_nonce_for random frame_kind options = Inr nonce" "deadline_timeout now' deadline read_timeout = Inr timeout"
    "call = \<lparr>rq_kind = frame_kind, rq_opcode = opcode, rq_nonce = nonce, rq_deadline_ms = deadline, rq_payload = payload\<rparr>"
    using assms(1) unfolding request_call_for_def Let_def deadline_def by (auto simp: result_simps split: if_splits)
  have time: "timeout \<le> read_timeout" "deadline \<noteq> 0 \<longrightarrow> unat now' + unat timeout \<le> unat deadline"
    using run(4) by (rule deadline_timeout_bounds)+
  have nonce: "length nonce = 16 \<and> (nonce = replicate 16 0 \<longleftrightarrow> frame_kind = kind_QUERY)"
    using run(2,3) assms(2,3) kinds(1) nonzero_update
    by (auto simp: request_nonce_for_def ok_or_def split: option.splits if_splits)
  show ?thesis using run nonce time kinds by (auto simp: frame_request_ok_iff)
qed

definition sample_client :: client where
  "sample_client = \<lparr>cl_session = \<lparr>s_seal = cipher_new [], s_open = cipher_new [], s_hash = []\<rparr>,
     cl_principal = Some \<lparr>ai_principal_type = ''user'', ai_principal_id = None, ai_scopes = [], ai_session_id = None,
       ai_expires_at = None, ai_raw = Null\<rparr>,
     cl_server_hello = \<lparr>sh_transport_major = 5, sh_rpc_major = 1, sh_rpc_minor = 2, sh_features = 63, sh_max_frame = 0,
       sh_connection_id = None\<rparr>, cl_sent = [], cl_input = []\<rparr>"

theorem request_call_wellformed_witness:
  "\<exists>call. request_call_for 40000 5 6 (Some (replicate 16 0)) sample_client kind_COMMAND 40 [1]
      \<lparr>ro_request_nonce = None, ro_deadline_ms = None\<rparr> = Inr (call, 39999)
    \<and> rq_nonce call \<noteq> replicate 16 0 \<and> unat (6 :: u64) + unat (39999 :: u64) \<le> unat (rq_deadline_ms call)"
proof -
  have run: "request_call_for 40000 5 6 (Some (replicate 16 0)) sample_client kind_COMMAND 40 [1]
      \<lparr>ro_request_nonce = None, ro_deadline_ms = None\<rparr>
    = Inr (\<lparr>rq_kind = kind_COMMAND, rq_opcode = 40, rq_nonce = (replicate 16 0)[0 := 1], rq_deadline_ms = 40005, rq_payload = [1]\<rparr>, 39999)"
    by (simp add: request_call_for_def request_nonce_for_def has_principal_def sample_client_def deadline_timeout_def
        saturating_add_def saturating_sub_def unwrap_or_def const_defs)
  have "kind_COMMAND \<noteq> kind_QUERY" by (simp add: const_defs)
  with request_call_wellformed [OF run] run show ?thesis by simp
qed

end
