(* ===== verification/Messenger.thy ===== *)
theory Messenger
  imports Opcodes Account Cbor Media Client
begin

text \<open>
  The messenger core of \<open>src/messenger.rs\<close>: the choice of transport, the
  mapping of paths to operation codes, JSON to CBOR and back, the JSON command
  boundary, group messages and group media keys in JSON, and the session file.
  The JSON text parser and printer are parameters; a JSON value is a datatype
  with the number representation and the key order of \<open>serde_json\<close>.
\<close>

section \<open>Transport selection\<close>

datatype transport_mode = Auto | Mst5 | M5oh

definition transport_mode_parse :: "string \<Rightarrow> transport_mode" where
  "transport_mode_parse v = (let w = to_ascii_lowercase (str_trim v) in
     if w = ''mst5'' then Mst5 else if w = ''m5oh'' \<or> w = ''m5ohs'' then M5oh else Auto)"

fun transport_mode_as_str :: "transport_mode \<Rightarrow> string" where
  "transport_mode_as_str Auto = ''auto''"
| "transport_mode_as_str Mst5 = ''mst5''"
| "transport_mode_as_str M5oh = ''m5oh''"

definition is_m5oh :: "string \<Rightarrow> bool" where
  "is_m5oh v = (let lower = to_ascii_lowercase v in starts_with ''http://'' lower \<or> starts_with ''https://'' lower)"

definition selected_endpoints :: "transport_mode \<Rightarrow> string list \<Rightarrow> string list" where
  "selected_endpoints mode cs = (case mode of
      Auto \<Rightarrow> filter (\<lambda>c. \<not> is_m5oh c) cs @ filter is_m5oh cs
    | Mst5 \<Rightarrow> filter (\<lambda>c. \<not> is_m5oh c) cs
    | M5oh \<Rightarrow> filter is_m5oh cs)"

definition select_endpoint :: "string \<Rightarrow> transport_mode \<Rightarrow> string result" where
  "select_endpoint configured mode =
    (let candidates = endpoint_candidates configured in
     if candidates = [] then Inl (invalid_input ''MST5 endpoint list is empty'')
     else let selected = selected_endpoints mode candidates in
     if selected = [] then Inl (invalid_input (case mode of
         Auto \<Rightarrow> ''MST5 endpoint list is empty''
       | Mst5 \<Rightarrow> ''no MST5 endpoint is configured''
       | M5oh \<Rightarrow> ''no M5oH endpoint is configured''))
     else Inr (join ''|'' selected))"

section \<open>Operations\<close>

definition operation_table :: "((string \<times> string) \<times> u16) list" where
  "operation_table = [
    ((''POST'', ''/register''), op_REGISTER),
    ((''POST'', ''/login''), op_LOGIN),
    ((''POST'', ''/auth/email/start''), op_EMAIL_AUTH_START),
    ((''POST'', ''/auth/email/verify''), op_EMAIL_AUTH_VERIFY),
    ((''POST'', ''/auth/qr/start''), op_QR_LOGIN_START),
    ((''GET'', ''/auth/qr/poll''), op_QR_LOGIN_POLL),
    ((''POST'', ''/auth/qr/approve''), op_QR_LOGIN_APPROVE),
    ((''GET'', ''/me''), op_ME),
    ((''POST'', ''/account/delete''), op_ACCOUNT_DELETE),
    ((''GET'', ''/account/inactivity''), op_ACCOUNT_INACTIVITY_GET),
    ((''POST'', ''/account/inactivity''), op_ACCOUNT_INACTIVITY_SET),
    ((''POST'', ''/username''), op_SET_USERNAME),
    ((''POST'', ''/name''), op_SET_NAME),
    ((''POST'', ''/privacy''), op_SET_PRIVACY),
    ((''GET'', ''/contacts''), op_CONTACTS),
    ((''POST'', ''/contacts/add''), op_CONTACT_ADD),
    ((''POST'', ''/contacts/delete''), op_CONTACT_DELETE),
    ((''POST'', ''/groups''), op_CREATE_GROUP),
    ((''POST'', ''/channels''), op_CREATE_CHANNEL),
    ((''POST'', ''/chats/title''), op_SET_CHAT_TITLE),
    ((''POST'', ''/channels/username''), op_SET_CHANNEL_USERNAME),
    ((''POST'', ''/channels/comments/settings''), op_SET_CHANNEL_COMMENTS),
    ((''POST'', ''/channels/comments/send''), op_SEND_CHANNEL_COMMENT),
    ((''GET'', ''/channels/comments''), op_CHANNEL_COMMENTS),
    ((''POST'', ''/chats/members/add''), op_ADD_CHAT_MEMBER),
    ((''POST'', ''/chats/members/remove''), op_REMOVE_CHAT_MEMBER),
    ((''POST'', ''/cloud-password''), op_SET_CLOUD_PASSWORD),
    ((''POST'', ''/cloud-password/reset''), op_RESET_CLOUD_PASSWORD),
    ((''GET'', ''/sessions''), op_SESSIONS),
    ((''POST'', ''/sessions/revoke''), op_REVOKE_SESSION),
    ((''POST'', ''/sessions/revoke-others''), op_REVOKE_OTHER_SESSIONS),
    ((''POST'', ''/bots''), op_CREATE_BOT),
    ((''POST'', ''/bots/token/reset''), op_RESET_BOT_TOKEN),
    ((''GET'', ''/bots/commands''), op_BOT_COMMANDS),
    ((''GET'', ''/stickers/packs''), op_STICKER_PACKS),
    ((''GET'', ''/stickers/pack''), op_STICKER_PACK),
    ((''POST'', ''/stickers/packs''), op_STICKER_CREATE),
    ((''POST'', ''/stickers/packs/purchase''), op_STICKER_PURCHASE),
    ((''POST'', ''/stickers/send''), op_STICKER_SEND),
    ((''POST'', ''/stickers/packs/price''), op_STICKER_PRICE),
    ((''POST'', ''/e2e/key''), op_SET_E2E_KEY),
    ((''GET'', ''/e2e/key''), op_GET_E2E_KEY),
    ((''POST'', ''/e2e/backup''), op_SET_E2E_BACKUP),
    ((''GET'', ''/e2e/backup''), op_GET_E2E_BACKUP),
    ((''POST'', ''/e2e/reset''), op_RESET_E2E),
    ((''GET'', ''/wallet''), op_WALLET),
    ((''POST'', ''/wallet/send''), op_WALLET_SEND),
    ((''GET'', ''/wallet/history''), op_WALLET_HISTORY),
    ((''POST'', ''/call''), op_CALL),
    ((''POST'', ''/voice-ticket''), op_VOICE_TICKET),
    ((''GET'', ''/voice/participants''), op_VOICE_PARTICIPANTS),
    ((''POST'', ''/send''), op_SEND),
    ((''POST'', ''/edit''), op_EDIT),
    ((''POST'', ''/pin''), op_PIN),
    ((''POST'', ''/polls/vote''), op_POLL_VOTE),
    ((''GET'', ''/chats/favorites''), op_CHAT_FAVORITES),
    ((''POST'', ''/chats/favorite''), op_CHAT_FAVORITE),
    ((''POST'', ''/callback''), op_CALLBACK),
    ((''POST'', ''/reactions''), op_REACT),
    ((''POST'', ''/reactions/paid''), op_REACT_PAID),
    ((''POST'', ''/read''), op_READ),
    ((''POST'', ''/delete''), op_DELETE),
    ((''POST'', ''/favorite''), op_FAVORITE),
    ((''GET'', ''/nodes/status''), op_NODES_STATUS),
    ((''GET'', ''/chats''), op_CHATS),
    ((''POST'', ''/chats/delete''), op_DELETE_CHAT),
    ((''POST'', ''/users/ban''), op_BAN_USER),
    ((''POST'', ''/users/unban''), op_UNBAN_USER),
    ((''GET'', ''/history''), op_HISTORY),
    ((''GET'', ''/updates''), op_SYNC),
    ((''GET'', ''/oauth/device/request''), op_OAUTH_DEVICE_REQUEST),
    ((''POST'', ''/oauth/device/decision''), op_OAUTH_DEVICE_DECISION),
    ((''GET'', ''/file/ticket''), op_FILE_TICKET),
    ((''POST'', ''/forward''), op_FORWARD),
    ((''POST'', ''/media/quote''), op_MEDIA_QUOTE),
    ((''POST'', ''/messages/prepare''), op_MESSAGE_PREPARE),
    ((''POST'', ''/messages/commit''), op_MESSAGE_COMMIT),
    ((''POST'', ''/messages/cancel''), op_MESSAGE_CANCEL),
    ((''POST'', ''/avatars/prepare''), op_AVATAR_PREPARE),
    ((''POST'', ''/avatars/commit''), op_AVATAR_COMMIT),
    ((''POST'', ''/avatars/delete''), op_AVATAR_DELETE),
    ((''POST'', ''/profiles/description''), op_SET_PROFILE_DESCRIPTION)]"

definition operation :: "string \<Rightarrow> string \<Rightarrow> u16 result" where
  "operation meth path = ok_or (map_of operation_table (meth, path))
     (invalid_input (''unsupported MST5 operation '' @ meth @ '' '' @ path))"

section \<open>JSON values\<close>

datatype json_number = PosInt u64 | NegInt i64 | FloatNum u64

datatype json =
    JNull
  | JBool bool
  | JNumber json_number
  | JString string
  | JArray "json list"
  | JObject "(string \<times> json) list"

definition f64_is_finite :: "u64 \<Rightarrow> bool" where
  "f64_is_finite bits = (drop_bit 52 bits AND 0x7ff \<noteq> 0x7ff)"

fun num_as_u64 :: "json_number \<Rightarrow> u64 option" where
  "num_as_u64 (PosInt v) = Some v"
| "num_as_u64 _ = None"

definition number_from_i64 :: "i64 \<Rightarrow> json_number" where
  "number_from_i64 v = (if sint v < 0 then NegInt v else PosInt v)"

fun json_get :: "json \<Rightarrow> string \<Rightarrow> json option" where
  "json_get (JObject es) k = map_of es k"
| "json_get _ k = None"

fun json_as_str :: "json \<Rightarrow> string option" where
  "json_as_str (JString s) = Some s"
| "json_as_str _ = None"

fun json_as_u64 :: "json \<Rightarrow> u64 option" where
  "json_as_u64 (JNumber n) = num_as_u64 n"
| "json_as_u64 _ = None"

fun json_as_object :: "json \<Rightarrow> (string \<times> json) list option" where
  "json_as_object (JObject es) = Some es"
| "json_as_object _ = None"

text \<open>Insertion into an object: sorted by key, the last value of a key wins.\<close>

fun json_insert :: "string \<Rightarrow> json \<Rightarrow> (string \<times> json) list \<Rightarrow> (string \<times> json) list" where
  "json_insert k v [] = [(k, v)]"
| "json_insert k v ((k', v') # es) =
    (if k = k' then (k, v) # es
     else if bytes_le (as_bytes k) (as_bytes k') then (k, v) # (k', v') # es
     else (k', v') # json_insert k v es)"

section \<open>JSON and CBOR\<close>

fun json_number_to_cbor :: "json_number \<Rightarrow> Value result" where
  "json_number_to_cbor (PosInt v) = Inr (Unsigned v)"
| "json_number_to_cbor (NegInt v) = Inr (Integer v)"
| "json_number_to_cbor (FloatNum b) = (if f64_is_finite b then Inr (Float b)
     else Inl (invalid_input ''messenger JSON contains a non-finite number''))"

fun json_to_cbor :: "json \<Rightarrow> Value result"
  and json_list_to_cbor :: "json list \<Rightarrow> Value list result"
  and json_entries_to_cbor :: "(string \<times> json) list \<Rightarrow> (string \<times> Value) list result" where
  "json_to_cbor JNull = Inr Null"
| "json_to_cbor (JBool b) = Inr (Bool b)"
| "json_to_cbor (JNumber n) = json_number_to_cbor n"
| "json_to_cbor (JString s) = Inr (Text s)"
| "json_to_cbor (JArray vs) = rbind (json_list_to_cbor vs) (\<lambda>ws. Inr (Array ws))"
| "json_to_cbor (JObject es) = rbind (json_entries_to_cbor es) (\<lambda>ws. Inr (Map ws))"
| "json_list_to_cbor [] = Inr []"
| "json_list_to_cbor (v # vs) = rbind (json_to_cbor v) (\<lambda>w. rbind (json_list_to_cbor vs) (\<lambda>ws. Inr (w # ws)))"
| "json_entries_to_cbor [] = Inr []"
| "json_entries_to_cbor ((k, v) # es) =
    rbind (json_to_cbor v) (\<lambda>w. rbind (json_entries_to_cbor es) (\<lambda>ws. Inr ((k, w) # ws)))"

fun cbor_to_json :: "Value \<Rightarrow> json" where
  "cbor_to_json Null = JNull"
| "cbor_to_json (Bool b) = JBool b"
| "cbor_to_json (Unsigned v) = JNumber (PosInt v)"
| "cbor_to_json (Integer v) = JNumber (number_from_i64 v)"
| "cbor_to_json (Float b) = (if f64_is_finite b then JNumber (FloatNum b) else JNull)"
| "cbor_to_json (Bytes bs) = JArray (map (\<lambda>b. JNumber (PosInt (ucast b))) bs)"
| "cbor_to_json (Text s) = JString s"
| "cbor_to_json (Array vs) = JArray (map cbor_to_json vs)"
| "cbor_to_json (Map es) = JObject (fold (\<lambda>(k, v). json_insert k v) (map (\<lambda>(k, v). (k, cbor_to_json v)) es) [])"

section \<open>The command boundary\<close>

definition split_query :: "string \<Rightarrow> string \<times> string option" where
  "split_query path = (case split_once CHR ''?'' path of Some (a, b) \<Rightarrow> (a, Some b) | None \<Rightarrow> (path, None))"

definition string_field :: "json \<Rightarrow> string \<Rightarrow> string result" where
  "string_field obj key = ok_or (Option.bind (json_get obj key) json_as_str)
     (invalid_input (''messenger JSON command is missing string '' @ key))"

definition string_field_or :: "json \<Rightarrow> string \<Rightarrow> string \<Rightarrow> string" where
  "string_field_or obj key fallback = (case Option.bind (json_get obj key) json_as_str of Some s \<Rightarrow> s | None \<Rightarrow> fallback)"

definition ascii_upper :: "char \<Rightarrow> char" where
  "ascii_upper c = (let n = of_char c :: nat in if 97 \<le> n \<and> n \<le> 122 then char_of (n - 32) else c)"

record messenger_config =
  mc_endpoint :: string
  mc_pinned_public_key_b64 :: string
  mc_device_model :: string
  mc_transport_mode :: transport_mode
  mc_client_name :: string

definition messenger_config_new :: "string \<Rightarrow> string \<Rightarrow> string \<Rightarrow> transport_mode \<Rightarrow> messenger_config" where
  "messenger_config_new endpoint pinned model mode = \<lparr>mc_endpoint = endpoint, mc_pinned_public_key_b64 = pinned,
     mc_device_model = model, mc_transport_mode = mode, mc_client_name = ''OVE.rs Android''\<rparr>"

record messenger_core =
  mo_account :: account
  mo_endpoint :: string
  mo_transport_mode :: transport_mode

definition messenger_account_config :: "messenger_config \<Rightarrow> string \<Rightarrow> account_config" where
  "messenger_account_config cfg endpoint =
    (let c = with_device_model (mc_device_model cfg)
           (account_config_new endpoint (mc_pinned_public_key_b64 cfg) [] (mc_client_name cfg)) in
     c\<lparr>cf_options := (cf_options c)\<lparr>co_read_timeout := 120000, co_write_timeout := 30000\<rparr>\<rparr>)"

definition messenger_core_new :: "messenger_config \<Rightarrow> messenger_core result" where
  "messenger_core_new cfg =
    rbind (select_endpoint (mc_endpoint cfg) (mc_transport_mode cfg)) (\<lambda>endpoint.
    rbind (account_new (messenger_account_config cfg endpoint)) (\<lambda>acc.
    Inr \<lparr>mo_account = acc, mo_endpoint = endpoint, mo_transport_mode = mc_transport_mode cfg\<rparr>))"

definition messenger_close :: "messenger_core \<Rightarrow> messenger_core" where
  "messenger_close m = m\<lparr>mo_account := account_close (mo_account m)\<rparr>"

record messenger_request =
  mr_token :: string
  mr_kind :: u8
  mr_opcode :: u16
  mr_payload :: bytes
  mr_deadline_ms :: u64

definition command_request :: "u64 \<Rightarrow> json \<Rightarrow> messenger_request result" where
  "command_request now input =
    rbind (ok_or (json_as_object input) (invalid_input ''messenger JSON command must be an object'')) (\<lambda>_.
    rbind (string_field input ''token'') (\<lambda>token.
    let meth = map ascii_upper (string_field_or input ''method'' ''GET'');
        raw_path = string_field_or input ''path'' ''/'';
        timeout_ms = max 1 (min 120000
          (case Option.bind (json_get input ''timeout_ms'') json_as_u64 of Some t \<Rightarrow> t | None \<Rightarrow> 10000));
        (path, query) = split_query raw_path in
    rbind (operation meth path) (\<lambda>opcode.
    let payload_json = (if meth = ''GET'' then
          (case query of
             Some v \<Rightarrow> if v \<noteq> [] then JObject [(''query'', JString v)] else JObject []
           | None \<Rightarrow> JObject [])
        else (case json_get input ''body'' of Some b \<Rightarrow> b | None \<Rightarrow> JObject [])) in
    rbind (json_to_cbor payload_json) (\<lambda>v.
    Inr \<lparr>mr_token = token, mr_kind = (if meth = ''GET'' then kind_QUERY else kind_COMMAND), mr_opcode = opcode,
         mr_payload = encode_cbor v, mr_deadline_ms = saturating_add now timeout_ms\<rparr>))))"

definition messenger_request_cbor ::
    "bytes option \<Rightarrow> string \<Rightarrow> u8 \<Rightarrow> u16 \<Rightarrow> bytes \<Rightarrow> bytes option \<Rightarrow> iteration list \<Rightarrow> messenger_core
     \<Rightarrow> (u8 \<times> bytes) result option \<times> sent_request list \<times> messenger_core" where
  "messenger_request_cbor random token frame_kind opcode payload nonce its m =
    (case set_credentials token ''OVE.rs Android'' (mo_account m) of
       (Inl e, s) \<Rightarrow> (Some (Inl e), [], m\<lparr>mo_account := s\<rparr>)
     | (Inr _, s) \<Rightarrow> (case account_request random frame_kind opcode payload nonce its s of
         (r, log, s) \<Rightarrow> (r, log, m\<lparr>mo_account := s\<rparr>)))"

definition command_response :: "u8 \<Rightarrow> u16 \<Rightarrow> bytes \<Rightarrow> json result" where
  "command_response rkind status payload = (case decode_cbor payload of
      Inl e \<Rightarrow> Inl (invalid_data (''invalid MST5 CBOR response: '' @ err_msg e))
    | Inr body \<Rightarrow> Inr (JObject [(''body'', cbor_to_json body), (''code'', JNumber (PosInt (ucast status))),
        (''kind'', JNumber (PosInt (ucast rkind)))]))"

section \<open>Group messages in JSON\<close>

definition invalid_group :: io_error where
  "invalid_group = invalid_data ''invalid group E2E envelope''"

definition required_str :: "json \<Rightarrow> string \<Rightarrow> string result" where
  "required_str j key = ok_or (Option.bind (json_get j key) json_as_str) invalid_group"

definition entry_ciphertext :: "json \<Rightarrow> bytes result" where
  "entry_ciphertext entry =
    rbind (required_str entry ''ciphertext'') (\<lambda>c.
    rbind (decode_base64 c) (\<lambda>ciphertext.
    (case Option.bind (json_get entry ''tag'') json_as_str of
       Some tag \<Rightarrow> if tag = [] then Inr ciphertext
         else rbind (decode_base64 tag) (\<lambda>t. if length t \<noteq> 16 then Inl invalid_group else Inr (ciphertext @ t))
     | None \<Rightarrow> Inr ciphertext)))"

definition open_group_json ::
    "'a e2e_crypto_scheme \<Rightarrow> identity \<Rightarrow> bytes \<Rightarrow> string \<Rightarrow> string \<Rightarrow> json \<Rightarrow> bytes result" where
  "open_group_json E idn sender_key sender recipient v =
    (if Option.bind (json_get v ''version'') json_as_u64 \<noteq> Some 5 then Inl invalid_group
     else rbind (ok_or (Option.bind (json_get v ''recipients'') json_as_object) invalid_group) (\<lambda>recipients.
     if recipients = [] \<or> length recipients > 256 then Inl invalid_group
     else rbind (ok_or (map_of recipients recipient)
         (IoError PermissionDenied ''group E2E recipient is unavailable'')) (\<lambda>entry.
     rbind (ok_or (Option.bind (json_get entry ''version'') json_as_u64) invalid_group) (\<lambda>version.
     if version \<noteq> 3 \<and> version \<noteq> 4 then Inl invalid_group
     else rbind (required_str entry ''nonce'') (\<lambda>n.
     rbind (decode_base64 n) (\<lambda>nonce.
     if length nonce \<noteq> 24 then Inl invalid_group
     else rbind (entry_ciphertext entry) (\<lambda>ciphertext.
     open_group E idn sender_key sender recipient \<lparr>ge_version = 5, ge_recipients =
       [recipient \<mapsto> \<lparr>en_version = ucast version, en_nonce = nonce, en_ciphertext = ciphertext\<rparr>]\<rparr>)))))))"

definition open_group_message ::
    "'a e2e_crypto_scheme \<Rightarrow> (string \<Rightarrow> json option) \<Rightarrow> identity \<Rightarrow> bytes \<Rightarrow> string \<Rightarrow> string \<Rightarrow> string \<Rightarrow> bytes result" where
  "open_group_message E parse idn sender_key sender recipient raw =
    (if length raw > 16 * 1024 * 1024 \<or> recipient = [] \<or> length recipient > 64 then Inl invalid_group
     else rbind (ok_or (parse raw) invalid_group) (open_group_json E idn sender_key sender recipient))"

definition invalid_group_media :: io_error where
  "invalid_group_media = invalid_data ''invalid group media envelope''"

definition group_media_decryptor ::
    "'a e2e_crypto_scheme \<Rightarrow> (string \<Rightarrow> json option) \<Rightarrow> (json \<Rightarrow> string) \<Rightarrow> identity \<Rightarrow> bytes \<Rightarrow> string \<Rightarrow> string \<Rightarrow> string
     \<Rightarrow> media_decryptor result" where
  "group_media_decryptor E parse print idn sender_key sender recipient raw =
    (if length raw > 16 * 1024 * 1024 then Inl invalid_group_media
     else rbind (ok_or (parse raw) invalid_group_media) (\<lambda>v.
     if Option.bind (json_get v ''version'') json_as_u64 \<noteq> Some 5 then Inl invalid_group_media
     else rbind (ok_or (map_option JObject (Option.bind (json_get v ''media'') json_as_object)) invalid_group_media) (\<lambda>media.
     rbind (ok_or (json_get media ''key_recipients'') invalid_group_media) (\<lambda>recipients.
     rbind (open_group_message E parse idn sender_key sender recipient
         (print (JObject [(''recipients'', recipients), (''version'', JNumber (PosInt 5))]))) (\<lambda>key.
     if length key \<noteq> 32 then Inl invalid_group_media
     else rbind (case json_get media ''aad'' of
         None \<Rightarrow> Inr []
       | Some a \<Rightarrow> rbind (ok_or (json_as_str a) invalid_group_media) (\<lambda>s. if s = [] then Inr [] else decode_base64 s)) (\<lambda>aad.
     media_decryptor_new key aad))))))"

section \<open>The session file\<close>

definition SESSION_VERSION :: u8 where [const_defs]: "SESSION_VERSION = 1"
definition MAX_SESSION_BYTES :: nat where [const_defs]: "MAX_SESSION_BYTES = 1024 * 1024"
definition MAX_SESSION_KEY_CHARS :: nat where [const_defs]: "MAX_SESSION_KEY_CHARS = 256"
definition MAX_SESSION_VALUE_BYTES :: nat where [const_defs]: "MAX_SESSION_VALUE_BYTES = 256 * 1024"

type_synonym session_values = "(string \<times> string) list"

fun validate_session_values :: "session_values \<Rightarrow> unit result" where
  "validate_session_values [] = Inr ()"
| "validate_session_values ((k, v) # es) =
    (if k = [] \<or> length (str_chars k) > MAX_SESSION_KEY_CHARS \<or> any_control k
     then Inl (invalid_input ''invalid messenger session key'')
     else if length v > MAX_SESSION_VALUE_BYTES \<or> CHR 0x00 \<in> set v
     then Inl (invalid_input ''invalid messenger session value'')
     else validate_session_values es)"

record session_storage =
  ss_file :: "bytes option"
  ss_temporary :: "bytes option"
  ss_values :: session_values
  ss_exists :: bool

text \<open>\<open>parse\<close> and \<open>print\<close> are the JSON codec of the session document (its version and values).\<close>

definition session_open ::
    "(bytes \<Rightarrow> (u8 \<times> session_values) option) \<Rightarrow> bytes option \<Rightarrow> session_storage result" where
  "session_open parse content = (case content of
      None \<Rightarrow> Inr \<lparr>ss_file = None, ss_temporary = None, ss_values = [], ss_exists = False\<rparr>
    | Some raw \<Rightarrow>
        if length raw > MAX_SESSION_BYTES then Inl (invalid_data ''messenger session file exceeds size limit'')
        else rbind (ok_or (parse raw) (invalid_data ''invalid messenger session file'')) (\<lambda>(version, vs).
        if version \<noteq> SESSION_VERSION then Inl (invalid_data ''unsupported messenger session file version'')
        else rbind (validate_session_values vs) (\<lambda>_.
        Inr \<lparr>ss_file = content, ss_temporary = None, ss_values = vs, ss_exists = True\<rparr>)))"

text \<open>\<open>k\<close> is the number of the three file operations (create, write, rename) that succeed before one fails.\<close>

definition session_write_steps :: "bytes \<Rightarrow> (session_storage \<Rightarrow> session_storage) list" where
  "session_write_steps encoded =
    [\<lambda>s. s\<lparr>ss_temporary := Some []\<rparr>,
     \<lambda>s. s\<lparr>ss_temporary := Some encoded\<rparr>,
     \<lambda>s. s\<lparr>ss_file := ss_temporary s, ss_temporary := None\<rparr>]"

definition session_replace ::
    "(string \<Rightarrow> session_values option) \<Rightarrow> (u8 \<times> session_values \<Rightarrow> bytes) \<Rightarrow> nat \<Rightarrow> string \<Rightarrow> session_storage
     \<Rightarrow> unit result \<times> session_storage" where
  "session_replace parse print k raw s =
    (case rbind (ok_or (parse raw) (invalid_input ''invalid messenger session JSON'')) (\<lambda>vs.
       rbind (validate_session_values vs) (\<lambda>_.
       let encoded = print (SESSION_VERSION, vs) in
       if length encoded > MAX_SESSION_BYTES then Inl (invalid_input ''messenger session exceeds size limit'')
       else Inr (vs, encoded))) of
       Inl e \<Rightarrow> (Inl e, s)
     | Inr (vs, encoded) \<Rightarrow> (case run_steps k (session_write_steps encoded) s of
         (False, s') \<Rightarrow> (Inl (IoError OtherError ''file operation failed''), s')
       | (True, s') \<Rightarrow> (Inr (), s'\<lparr>ss_values := vs, ss_exists := True\<rparr>)))"

definition snapshot :: "session_storage \<Rightarrow> json" where
  "snapshot s = JObject [(''exists'', JBool (ss_exists s)),
     (''values'', JObject (map (\<lambda>(k, v). (k, JString v)) (ss_values s))),
     (''version'', JNumber (PosInt (ucast SESSION_VERSION)))]"

section \<open>Lemmas on transport selection\<close>

lemma endpoint_candidates_join:
  "cs \<noteq> [] \<Longrightarrow> list_all candidate_ok cs \<Longrightarrow> endpoint_candidates (join ''|'' cs) = cs"
  by (induction "''|''" cs rule: join.induct) (simp_all add: endpoint_candidates_single endpoint_candidates_Cons)

definition allowed :: "transport_mode \<Rightarrow> string \<Rightarrow> bool" where
  "allowed mode c = (case mode of Auto \<Rightarrow> True | Mst5 \<Rightarrow> \<not> is_m5oh c | M5oh \<Rightarrow> is_m5oh c)"

lemma set_selected_endpoints: "set (selected_endpoints mode cs) = {c \<in> set cs. allowed mode c}"
  by (cases mode) (auto simp: selected_endpoints_def allowed_def)

lemma selected_endpoints_order:
  "\<exists>native m5oh. selected_endpoints mode cs = native @ m5oh
    \<and> list_all (\<lambda>c. \<not> is_m5oh c) native \<and> list_all is_m5oh m5oh"
proof -
  let ?n = "filter (\<lambda>c. \<not> is_m5oh c) cs" and ?m = "filter is_m5oh cs"
  have "selected_endpoints mode cs = (if mode = M5oh then [] else ?n) @ (if mode = Mst5 then [] else ?m)"
    by (cases mode) (simp_all add: selected_endpoints_def)
  moreover have "list_all (\<lambda>c. \<not> is_m5oh c) (if mode = M5oh then [] else ?n)"
    "list_all is_m5oh (if mode = Mst5 then [] else ?m)" by (simp_all add: list_all_iff)
  ultimately show ?thesis by blast
qed

lemma selected_endpoints_ok:
  "list_all candidate_ok (selected_endpoints mode (endpoint_candidates configured))"
  using endpoint_candidates_ok by (auto simp: list_all_iff set_selected_endpoints)

lemma connect_join:
  assumes "cs \<noteq> []" "list_all candidate_ok cs"
  shows "\<exists>e. connect_with_key_and_options one (join ''|'' cs) = try_each one e cs"
proof (cases "tl cs = []")
  case True
  with assms obtain c where c: "cs = [c]" "candidate_ok c" by (cases cs) auto
  then have "connect_with_key_and_options one (join ''|'' cs) = one c"
    by (simp add: connect_with_key_and_options_def candidate_ok_def)
  moreover have "one c = try_each one (case one c of Inl e \<Rightarrow> e | Inr _ \<Rightarrow> invalid_group) cs"
    using c by (simp split: sum.split)
  ultimately show ?thesis by metis
next
  case False
  with assms obtain c d ds where "cs = c # d # ds" by (cases cs; cases "tl cs") auto
  then have "CHR ''|'' \<in> set (join ''|'' cs)" by simp
  then show ?thesis
    using endpoint_candidates_join [OF assms] by (auto simp: connect_with_key_and_options_def)
qed

lemma select_endpoint_Inr:
  "select_endpoint configured mode = Inr chain \<longleftrightarrow>
    selected_endpoints mode (endpoint_candidates configured) \<noteq> []
    \<and> chain = join ''|'' (selected_endpoints mode (endpoint_candidates configured))"
  by (cases mode) (auto simp: select_endpoint_def Let_def selected_endpoints_def)

lemma select_endpoint_Inl:
  "select_endpoint configured mode = Inl e \<Longrightarrow>
    err_kind e = InvalidInput \<and> selected_endpoints mode (endpoint_candidates configured) = []"
  by (cases mode) (auto simp: select_endpoint_def Let_def selected_endpoints_def invalid_input_def split: if_splits)

section \<open>Lemmas on JSON and CBOR\<close>

text \<open>A value as the parser gives it: sorted distinct keys, canonical numbers, UTF-8 strings.\<close>

definition key_less :: "string \<times> 'b \<Rightarrow> string \<times> 'b \<Rightarrow> bool" where
  "key_less a b \<longleftrightarrow> fst a \<noteq> fst b \<and> bytes_le (as_bytes (fst a)) (as_bytes (fst b))"

fun number_ok :: "json_number \<Rightarrow> bool" where
  "number_ok (PosInt v) = True"
| "number_ok (NegInt v) = (sint v < 0)"
| "number_ok (FloatNum b) = f64_is_finite b"

fun json_ok :: "nat \<Rightarrow> json \<Rightarrow> bool" where
  "json_ok depth (JNumber n) = (depth \<le> 64 \<and> number_ok n)"
| "json_ok depth (JString s) = (depth \<le> 64 \<and> length s < 2 ^ 64 \<and> utf8_valid (as_bytes s))"
| "json_ok depth (JArray vs) = (depth \<le> 64 \<and> length vs \<le> MST5_MAX_PLAIN_PAYLOAD \<and> list_all (json_ok (depth + 1)) vs)"
| "json_ok depth (JObject es) = (depth \<le> 64 \<and> length es \<le> MST5_MAX_PLAIN_PAYLOAD \<and> sorted_wrt key_less es
     \<and> list_all (\<lambda>(k, v). length k < 2 ^ 64 \<and> utf8_valid (as_bytes k) \<and> json_ok (depth + 1) v) es)"
| "json_ok depth _ = (depth \<le> 64)"

lemma json_insert_last:
  "list_all (\<lambda>e. key_less e (k, v)) es \<Longrightarrow> json_insert k v es = es @ [(k, v)]"
proof (induction es)
  case (Cons e es)
  then show ?case
    using bytes_le_antisym [of "as_bytes k" "as_bytes (fst e)"]
    by (cases e) (auto simp: key_less_def)
qed simp

lemma fold_json_insert:
  "sorted_wrt key_less (acc @ es) \<Longrightarrow> fold (\<lambda>(k, v). json_insert k v) es acc = acc @ es"
proof (induction es arbitrary: acc)
  case (Cons e es)
  have "list_all (\<lambda>x. key_less x e) acc" using Cons.prems by (simp add: sorted_wrt_append list_all_iff)
  then have "json_insert (fst e) (snd e) acc = acc @ [e]" using json_insert_last [of "fst e" "snd e" acc] by simp
  then show ?case using Cons.IH [of "acc @ [e]"] Cons.prems by (simp add: case_prod_unfold)
qed simp

text \<open>What the conversion of one value gives.\<close>

definition json_converts :: "nat \<Rightarrow> json \<Rightarrow> bool" where
  "json_converts depth j \<longleftrightarrow>
    (\<exists>v. json_to_cbor j = Inr v \<and> cbor_ok depth v \<and> cbor_norm v = v \<and> cbor_to_json v = j)"

lemma json_list_converts:
  "list_all (json_converts depth) vs \<Longrightarrow> \<exists>ws. json_list_to_cbor vs = Inr ws \<and> length ws = length vs
    \<and> list_all (cbor_ok depth) ws \<and> map cbor_norm ws = ws \<and> map cbor_to_json ws = vs"
proof (induction vs)
  case (Cons v vs)
  then obtain w ws where "json_to_cbor v = Inr w" "cbor_ok depth w" "cbor_norm w = w" "cbor_to_json w = v"
    "json_list_to_cbor vs = Inr ws" "length ws = length vs" "list_all (cbor_ok depth) ws" "map cbor_norm ws = ws"
    "map cbor_to_json ws = vs" by (auto simp: json_converts_def)
  then show ?case by (intro exI [of _ "w # ws"]) simp
qed simp

lemma json_entries_convert:
  "list_all (\<lambda>(k, v). length k < 2 ^ 64 \<and> utf8_valid (as_bytes k) \<and> json_converts depth v) es \<Longrightarrow>
    \<exists>ws. json_entries_to_cbor es = Inr ws \<and> length ws = length es
      \<and> list_all (\<lambda>(k, v). length k < 2 ^ 64 \<and> utf8_valid (as_bytes k) \<and> cbor_ok depth v) ws
      \<and> map (\<lambda>(k, v). (k, cbor_norm v)) ws = ws \<and> map (\<lambda>(k, v). (k, cbor_to_json v)) ws = es"
proof (induction es)
  case (Cons e es)
  obtain k v where e: "e = (k, v)" by (cases e)
  with Cons obtain w ws where "json_to_cbor v = Inr w" "cbor_ok depth w" "cbor_norm w = w" "cbor_to_json w = v"
    "json_entries_to_cbor es = Inr ws" "length ws = length es"
    "list_all (\<lambda>(k, v). length k < 2 ^ 64 \<and> utf8_valid (as_bytes k) \<and> cbor_ok depth v) ws"
    "map (\<lambda>(k, v). (k, cbor_norm v)) ws = ws" "map (\<lambda>(k, v). (k, cbor_to_json v)) ws = es"
    by (auto simp: json_converts_def)
  with e Cons.prems show ?case by (intro exI [of _ "(k, w) # ws"]) simp
qed simp

lemma json_convertsI:
  "json_to_cbor j = Inr v \<Longrightarrow> cbor_ok depth v \<Longrightarrow> cbor_norm v = v \<Longrightarrow> cbor_to_json v = j \<Longrightarrow> json_converts depth j"
  unfolding json_converts_def by blast

lemma json_number_converts: "number_ok n \<Longrightarrow> depth \<le> 64 \<Longrightarrow> json_converts depth (JNumber n)"
proof (cases n)
  case (PosInt v)
  then show "depth \<le> 64 \<Longrightarrow> ?thesis" by (intro json_convertsI [of _ "Unsigned v"]) simp_all
next
  case (NegInt v)
  then show "number_ok n \<Longrightarrow> depth \<le> 64 \<Longrightarrow> ?thesis"
    by (intro json_convertsI [of _ "Integer v"]) (simp_all add: number_from_i64_def)
next
  case (FloatNum b)
  then show "number_ok n \<Longrightarrow> depth \<le> 64 \<Longrightarrow> ?thesis"
    by (intro json_convertsI [of _ "Float b"]) simp_all
qed

lemma json_ok_converts: "json_ok depth j \<Longrightarrow> json_converts depth j"
proof (induction j arbitrary: depth)
  case JNull
  then show ?case by (intro json_convertsI [of _ Null]) simp_all
next
  case (JBool b)
  then show ?case by (intro json_convertsI [of _ "Bool b"]) simp_all
next
  case (JString t)
  then show ?case by (intro json_convertsI [of _ "Text t"]) simp_all
next
  case (JNumber n)
  then show ?case by (simp add: json_number_converts)
next
  case (JArray vs)
  have ok: "depth \<le> 64" "length vs \<le> MST5_MAX_PLAIN_PAYLOAD" "list_all (json_ok (depth + 1)) vs"
    using JArray.prems by simp_all
  then have "list_all (json_converts (depth + 1)) vs"
    unfolding list_all_iff using JArray.IH by blast
  from json_list_converts [OF this] obtain ws where "json_list_to_cbor vs = Inr ws" "length ws = length vs"
    "list_all (cbor_ok (depth + 1)) ws" "map cbor_norm ws = ws" "map cbor_to_json ws = vs" by blast
  with ok show ?case by (intro json_convertsI [of _ "Array ws"]) simp_all
next
  case (JObject es)
  have ok: "depth \<le> 64" "length es \<le> MST5_MAX_PLAIN_PAYLOAD" "sorted_wrt key_less es"
    "list_all (\<lambda>(k, v). length k < 2 ^ 64 \<and> utf8_valid (as_bytes k) \<and> json_ok (depth + 1) v) es"
    using JObject.prems by simp_all
  have "json_converts (depth + 1) v" if "(k, v) \<in> set es" "json_ok (depth + 1) v" for k v
    using JObject.IH [of "(k, v)" v] that by (simp add: snds.simps)
  with ok(4) have "list_all (\<lambda>(k, v). length k < 2 ^ 64 \<and> utf8_valid (as_bytes k) \<and> json_converts (depth + 1) v) es"
    unfolding list_all_iff by blast
  from json_entries_convert [OF this] obtain ws where ws: "json_entries_to_cbor es = Inr ws" "length ws = length es"
    "list_all (\<lambda>(k, v). length k < 2 ^ 64 \<and> utf8_valid (as_bytes k) \<and> cbor_ok (depth + 1) v) ws"
    "map (\<lambda>(k, v). (k, cbor_norm v)) ws = ws" "map (\<lambda>(k, v). (k, cbor_to_json v)) ws = es" by blast
  have "fold (\<lambda>(k, v). json_insert k v) es [] = es" using fold_json_insert [of "[]" es] ok(3) by simp
  with ws ok show ?case by (intro json_convertsI [of _ "Map ws"]) simp_all
qed

section \<open>Lemmas on commands and the session file\<close>

lemma command_request_shape:
  assumes "command_request now input = Inr r"
  shows "mr_kind r \<in> {kind_QUERY, kind_COMMAND}" "mr_opcode r \<in> snd ` set operation_table"
    "\<exists>v. mr_payload r = encode_cbor v"
    "mr_deadline_ms r \<le> saturating_add now 120000" "saturating_add now 1 \<le> mr_deadline_ms r"
proof -
  have mono: "saturating_add now a \<le> saturating_add now b" if "a \<le> b" for a b :: u64
    using that unfolding word_le_nat_alt unat_saturating_add by (simp add: min_le_iff_disj)
  obtain path query where q: "split_query (string_field_or input ''path'' ''/'') = (path, query)" by fastforce
  define t where "t = (case Option.bind (json_get input ''timeout_ms'') json_as_u64 of Some t \<Rightarrow> t | None \<Rightarrow> 10000)"
  define m where "m = map ascii_upper (string_field_or input ''method'' ''GET'')"
  obtain tok op v where "operation m path = Inr op"
    "r = \<lparr>mr_token = tok, mr_kind = (if m = ''GET'' then kind_QUERY else kind_COMMAND), mr_opcode = op,
       mr_payload = encode_cbor v, mr_deadline_ms = saturating_add now (max 1 (min 120000 t))\<rparr>"
    using assms unfolding command_request_def Let_def q prod.case t_def [symmetric] m_def [symmetric]
    by (auto simp: result_simps)
  then have t: "mr_deadline_ms r = saturating_add now (max 1 (min 120000 t))"
    "mr_kind r \<in> {kind_QUERY, kind_COMMAND}" "\<exists>v. mr_payload r = encode_cbor v"
    "\<exists>m p. operation m p = Inr (mr_opcode r)" by auto
  then show "mr_kind r \<in> {kind_QUERY, kind_COMMAND}" "\<exists>v. mr_payload r = encode_cbor v" by blast+
  show "mr_opcode r \<in> snd ` set operation_table"
    using t(4) by (force simp: operation_def ok_or_def split: option.splits dest: map_of_SomeD)
  show "mr_deadline_ms r \<le> saturating_add now 120000" "saturating_add now 1 \<le> mr_deadline_ms r"
    unfolding t(1) by (rule mono; simp)+
qed

lemma session_replace_atomic:
  "case session_replace parse print k raw s of
      (Inl e, s') \<Rightarrow> ss_file s' = ss_file s \<and> ss_values s' = ss_values s \<and> ss_exists s' = ss_exists s
    | (Inr _, s') \<Rightarrow> \<exists>vs. parse raw = Some vs \<and> validate_session_values vs = Inr () \<and> ss_values s' = vs \<and> ss_exists s'
        \<and> ss_file s' = Some (print (SESSION_VERSION, vs)) \<and> length (print (SESSION_VERSION, vs)) \<le> MAX_SESSION_BYTES"
proof -
  have steps: "run_steps k (session_write_steps x) s =
      (if k = 0 then (False, s)
       else if k = 1 then (False, s\<lparr>ss_temporary := Some []\<rparr>)
       else if k = 2 then (False, s\<lparr>ss_temporary := Some x\<rparr>)
       else (True, s\<lparr>ss_file := Some x, ss_temporary := None\<rparr>))" for x
  proof -
    consider "k = 0" | "k = 1" | "k = 2" | m where "k = Suc (Suc (Suc m))"
      by (metis One_nat_def numeral_2_eq_2 old.nat.exhaust)
    then show ?thesis
      by cases (simp_all add: session_write_steps_def numeral_2_eq_2)
  qed
  show ?thesis
    by (auto simp: session_replace_def steps result_simps Let_def split: sum.split if_splits)
qed

lemma session_reopens:
  assumes "session_replace parse print k raw s = (Inr (), s')" "\<And>d. load (print d) = Some d"
  shows "\<exists>r. session_open load (ss_file s') = Inr r \<and> ss_values r = ss_values s' \<and> ss_exists r"
  using assms session_replace_atomic [where parse = parse and print = print and k = k and raw = raw and s = s]
  by (auto simp: session_open_def ok_or_def)

section \<open>Properties\<close>

text \<open>
  C31: connecting over the chain that \<open>select_endpoint\<close> returns succeeds exactly when
  some configured candidate that the mode allows can be reached.  The
  connection it gives is then one to such a candidate, so a forced mode never
  falls back to the other transport, and an HTTP candidate is used only when
  every allowed native candidate has failed, in whatever order the
  configuration lists them.
\<close>

theorem transport_policy:
  assumes "select_endpoint configured mode = Inr chain"
  shows "(is_ok (connect_with_key_and_options one chain) \<longleftrightarrow>
        (\<exists>k \<in> set (endpoint_candidates configured). allowed mode k \<and> is_ok (one k)))
    \<and> (\<forall>c. connect_with_key_and_options one chain = Inr c \<longrightarrow>
        (\<exists>k \<in> set (endpoint_candidates configured). allowed mode k \<and> one k = Inr c
          \<and> (is_m5oh k \<longrightarrow> (\<forall>k' \<in> set (endpoint_candidates configured).
                allowed mode k' \<and> \<not> is_m5oh k' \<longrightarrow> \<not> is_ok (one k')))))"
proof -
  let ?sel = "selected_endpoints mode (endpoint_candidates configured)"
  have sel: "?sel \<noteq> []" "chain = join ''|'' ?sel" using assms by (simp_all add: select_endpoint_Inr)
  obtain e where e: "connect_with_key_and_options one chain = try_each one e ?sel"
    using connect_join [OF sel(1) selected_endpoints_ok] sel(2) by blast
  obtain native m5oh where order: "?sel = native @ m5oh" "list_all (\<lambda>c. \<not> is_m5oh c) native" "list_all is_m5oh m5oh"
    using selected_endpoints_order by blast
  have mem: "k \<in> set ?sel \<longleftrightarrow> k \<in> set (endpoint_candidates configured) \<and> allowed mode k" for k
    by (simp add: set_selected_endpoints)
  have first: "\<exists>k \<in> set ?sel. one k = Inr c \<and> (is_m5oh k \<longrightarrow> (\<forall>k' \<in> set ?sel. \<not> is_m5oh k' \<longrightarrow> \<not> is_ok (one k')))"
    if c: "try_each one e ?sel = Inr c" for c
  proof -
    consider k where "k \<in> set native" "one k = Inr c"
      | k where "k \<in> set m5oh" "one k = Inr c" "\<forall>k \<in> set native. \<not> is_ok (one k)"
      using try_each_append [OF c [unfolded order(1)]] by blast
    then show ?thesis
    proof cases
      case 1
      then show ?thesis unfolding order(1) using order(2) by (intro bexI [of _ k]) (auto simp: list_all_iff)
    next
      case 2
      then show ?thesis unfolding order(1) using order(3) by (intro bexI [of _ k]) (auto simp: list_all_iff)
    qed
  qed
  show ?thesis
  proof (intro conjI allI impI)
    show "is_ok (connect_with_key_and_options one chain) \<longleftrightarrow>
        (\<exists>k \<in> set (endpoint_candidates configured). allowed mode k \<and> is_ok (one k))"
      unfolding e try_each_ok Bex_def mem by simp
  next
    fix c
    assume "connect_with_key_and_options one chain = Inr c"
    with first [of c] e obtain k where k: "k \<in> set ?sel" "one k = Inr c"
      "is_m5oh k \<longrightarrow> (\<forall>k' \<in> set ?sel. \<not> is_m5oh k' \<longrightarrow> \<not> is_ok (one k'))" by auto
    show "\<exists>k \<in> set (endpoint_candidates configured). allowed mode k \<and> one k = Inr c
          \<and> (is_m5oh k \<longrightarrow> (\<forall>k' \<in> set (endpoint_candidates configured).
                allowed mode k' \<and> \<not> is_m5oh k' \<longrightarrow> \<not> is_ok (one k')))"
      using k mem by (intro bexI [of _ k]) simp_all
  qed
qed

lemma sample_candidates:
  "endpoint_candidates ''http://a|b'' = [''http://a'', ''b'']" "endpoint_candidates ''b|http://a'' = [''b'', ''http://a'']"
  "is_m5oh ''http://a''" "\<not> is_m5oh ''b''"
proof -
  have "str_trim ''http://a'' = ''http://a''" "str_trim ''b'' = ''b''" by (simp_all add: str_trim_def text_eval)
  then show "endpoint_candidates ''http://a|b'' = [''http://a'', ''b'']" "endpoint_candidates ''b|http://a'' = [''b'', ''http://a'']"
    by (simp_all add: endpoint_candidates_def)
  show "is_m5oh ''http://a''" "\<not> is_m5oh ''b''"
    by (simp_all add: is_m5oh_def to_ascii_lowercase_def ascii_lower_def starts_with_def Let_def)
qed

theorem transport_policy_witness:
  "select_endpoint ''http://a|b'' Auto = Inr ''b|http://a''
    \<and> is_ok (connect_with_key_and_options (\<lambda>k. if is_m5oh k then Inr k else Inl invalid_group) ''b|http://a'')"
proof -
  have sel: "select_endpoint ''http://a|b'' Auto = Inr ''b|http://a''"
    by (simp add: select_endpoint_def Let_def selected_endpoints_def sample_candidates)
  show ?thesis
    using transport_policy [OF sel, of "\<lambda>k. if is_m5oh k then Inr k else Inl invalid_group"] sel
    by (simp add: sample_candidates allowed_def)
qed

text \<open>
  C8: a JSON value within the limits converts to CBOR, and a response whose
  payload is that encoding is reported with exactly this value as its body: the
  JSON boundary loses nothing through the wire format.
\<close>

theorem messenger_json_round_trip:
  assumes "json_ok 0 j" "\<forall>v. json_to_cbor j = Inr v \<longrightarrow> length (encode_cbor v) < 2 ^ 64"
  shows "\<exists>v. json_to_cbor j = Inr v \<and> command_response rkind status (encode_cbor v)
    = Inr (JObject [(''body'', j), (''code'', JNumber (PosInt (ucast status))), (''kind'', JNumber (PosInt (ucast rkind)))])"
proof -
  obtain v where v: "json_to_cbor j = Inr v" "cbor_ok 0 v" "cbor_norm v = v" "cbor_to_json v = j"
    using json_ok_converts [OF assms(1)] unfolding json_converts_def by blast
  have "decode_cbor (encode_cbor v) = Inr v" using decode_encode_cbor [OF v(2)] assms(2) v(1,3) by simp
  with v show ?thesis by (simp add: command_response_def)
qed

theorem messenger_json_round_trip_witness:
  "\<exists>v. json_to_cbor (JObject [(''a'', JArray [JNumber (PosInt 1), JNumber (NegInt (- 3)), JNull]), (''b'', JString ''x'')]) = Inr v
    \<and> command_response 4 200 (encode_cbor v)
    = Inr (JObject [(''body'', JObject [(''a'', JArray [JNumber (PosInt 1), JNumber (NegInt (- 3)), JNull]), (''b'', JString ''x'')]),
        (''code'', JNumber (PosInt 200)), (''kind'', JNumber (PosInt 4))])"
proof -
  let ?j = "JObject [(''a'', JArray [JNumber (PosInt 1), JNumber (NegInt (- 3)), JNull]), (''b'', JString ''x'')]"
  have "utf8_valid (as_bytes ''a'')" "utf8_valid (as_bytes ''b'')" "utf8_valid (as_bytes ''x'')" by code_simp+
  moreover have "bytes_le (as_bytes ''a'') (as_bytes ''b'')" by code_simp
  ultimately have "json_ok 0 ?j" by (simp add: const_defs key_less_def)
  moreover have "length (encode_cbor (Map [(''a'', Array [Unsigned 1, Integer (- 3), Null]), (''b'', Text ''x'')])) < 100"
    by code_simp
  then have "\<forall>v. json_to_cbor ?j = Inr v \<longrightarrow> length (encode_cbor v) < 2 ^ 64" by simp
  ultimately show ?thesis using messenger_json_round_trip [of ?j 4 200] by simp
qed

end
