(* ===== verification/Web.thy ===== *)
theory Web
  imports Messenger M5oh
begin

text \<open>
  The browser client of \<open>wasm/src/lib.rs\<close>: routes and fetch targets, its own
  symmetric state, handshake, record and frame codec, the mailbox reader, the
  request exchange and the capability negotiation.  An error is the string given
  to JavaScript.  The base64 and CBOR crates, the inflate stream and the network
  are arguments: the record \<open>web_env\<close> holds the codecs, and a session state holds
  the bodies the mailbox will deliver and the outcome of each upload.  A result
  \<open>None\<close> means that the code still polls.
\<close>

type_synonym 'a js_result = "string + 'a"

record web_env = crypto +
  w_std_encode :: "bytes \<Rightarrow> string"
  w_std_decode :: "string \<Rightarrow> bytes option"
  w_url_encode :: "bytes \<Rightarrow> string"
  w_url_decode :: "string \<Rightarrow> bytes option"
  w_cbor_encode :: "json \<Rightarrow> bytes option"
  w_cbor_decode :: "bytes \<Rightarrow> json option"
  w_inflate :: "bytes \<Rightarrow> nat \<Rightarrow> bytes option"

section \<open>Constants\<close>

definition WEB_MAX_GET_TARGET :: nat where [const_defs]: "WEB_MAX_GET_TARGET = 23 * 1024"
definition WEB_GET_TARGET_PREFIX :: nat where [const_defs]: "WEB_GET_TARGET_PREFIX = 4"
definition PACKET_ROUTE_BYTES :: nat where [const_defs]: "PACKET_ROUTE_BYTES = 8"
definition MAX_GET_RECORD_BYTES :: nat where [const_defs]:
  "MAX_GET_RECORD_BYTES = (WEB_MAX_GET_TARGET - WEB_GET_TARGET_PREFIX) div 4 * 3 - PACKET_ROUTE_BYTES"
definition MAX_RECORD_BYTES :: nat where [const_defs]: "MAX_RECORD_BYTES = 4 * 1024 * 1024"
definition REQUIRED_MEDIA_FEATURES :: u64 where [const_defs]:
  "REQUIRED_MEDIA_FEATURES = FEATURE_STRUCTURED_ERRORS OR FEATURE_MEDIA_STREAMS"
definition BROWSER_MEDIA_CHUNK :: nat where [const_defs]: "BROWSER_MEDIA_CHUNK = 16 * 1024"
definition MAX_BROWSER_DOWNLOAD_BYTES :: nat where [const_defs]: "MAX_BROWSER_DOWNLOAD_BYTES = 128 * 1024 * 1024"

section \<open>Routes and fetch targets\<close>

fun collect_some :: "'b option list \<Rightarrow> 'b list option" where
  "collect_some [] = Some []"
| "collect_some (x # xs) = (case x of None \<Rightarrow> None | Some y \<Rightarrow> map_option ((#) y) (collect_some xs))"

definition route_wire :: "bytes \<Rightarrow> u16 \<Rightarrow> u16 \<Rightarrow> bytes" where
  "route_wire octets port resv =
    (let l = to_be_bytes port @ [octets ! 0, octets ! 1, octets ! 2, octets ! 3] @ to_be_bytes resv in
     [l ! 0, l ! 7, l ! 3, l ! 5, l ! 1, l ! 6, l ! 4, l ! 2])"

definition encode_route :: "'a web_env_scheme \<Rightarrow> string \<Rightarrow> u16 \<Rightarrow> u16 \<Rightarrow> string js_result" where
  "encode_route E ipv4 port resv =
    rbind (ok_or (collect_some (map (parse_unsigned 255) (split_on CHR ''.'' ipv4))) ''route IPv4 address is invalid'')
      (\<lambda>octets.
    if length octets \<noteq> 4 then Inl ''route IPv4 address is invalid''
    else Inr (w_url_encode E (route_wire (map word_of_nat octets) port resv)))"

record m5oh_fetch =
  mf_endpoint :: string
  mf_route :: string

definition m5oh_fetch_new :: "string \<Rightarrow> string \<Rightarrow> m5oh_fetch js_result" where
  "m5oh_fetch_new endpoint route =
    (let endpoint = trim_end_char CHR ''/'' endpoint in
     if \<not> starts_with ''https://'' endpoint then Inl ''browser M5oHS endpoint must use HTTPS''
     else if length route \<noteq> 11 \<or> \<not> list_all (\<lambda>b. is_ascii_alphanumeric b \<or> b = 0x2d \<or> b = 0x5f) (as_bytes route)
     then Inl ''M5oH route must be an eight-byte base64url selector''
     else Inr \<lparr>mf_endpoint = endpoint, mf_route = route\<rparr>)"

definition fetch_url :: "'a web_env_scheme \<Rightarrow> m5oh_fetch \<Rightarrow> bytes option \<Rightarrow> string js_result" where
  "fetch_url E t body = (case body of
      Some r \<Rightarrow> rbind (ok_or (w_url_decode E (mf_route t)) ''invalid M5oH route selector'') (\<lambda>packet.
        Inr (mf_endpoint t @ ''/?r='' @ w_url_encode E (packet @ r)))
    | None \<Rightarrow> Inr (mf_endpoint t @ ''/?r='' @ mf_route t))"

text \<open>\<open>status\<close> and \<open>body\<close> are the HTTP response: its status, the status header and the body.\<close>

definition fetch_body :: "nat \<Rightarrow> string option \<Rightarrow> bytes \<Rightarrow> bytes js_result" where
  "fetch_body status header body =
    (if \<not> (200 \<le> status \<and> status \<le> 299) then Inl (''M5oH HTTP '' @ decimal status)
     else if header = Some ''OK'' then Inr [] else Inr body)"

definition decode_server_key :: "'a web_env_scheme \<Rightarrow> string \<Rightarrow> bytes js_result" where
  "decode_server_key E v =
    rbind (ok_or (w_std_decode E (str_trim v)) ''invalid MST5 server public key'') (\<lambda>bs.
    if length bs \<noteq> 32 then Inl ''MST5 server public key must be 32 bytes'' else Inr bs)"

definition parse_destination :: "string \<Rightarrow> (string \<times> u16) js_result" where
  "parse_destination v =
    rbind (ok_or (rsplit_once CHR '':'' v) ''invalid M5oH destination'') (\<lambda>(ip, port).
    rbind (ok_or (parse_u16 port) ''invalid M5oH port'') (\<lambda>p. Inr (ip, p)))"

fun split_once_str :: "string \<Rightarrow> string \<Rightarrow> (string \<times> string) option" where
  "split_once_str p [] = (if p = [] then Some ([], []) else None)"
| "split_once_str p (c # cs) = (if starts_with p (c # cs) then Some ([], drop (length p) (c # cs))
     else map_option (\<lambda>(a, b). (c # a, b)) (split_once_str p cs))"

definition parse_media_destination :: "string \<Rightarrow> string js_result" where
  "parse_media_destination v =
    rbind (ok_or (find (\<lambda>c. starts_with ''http://'' c \<or> starts_with ''https://'' c) (map str_trim (split_on CHR ''|'' v)))
        ''media node has no browser M5oH endpoint'') (\<lambda>fallback.
    rbind (ok_or (map_option snd (split_once_str ''://'' fallback)) ''invalid browser media endpoint'') (\<lambda>after_scheme.
    rbind (ok_or (split_once CHR ''/'' after_scheme) ''browser media endpoint lacks a destination'') (\<lambda>(_, path).
    let destination = takeWhile (\<lambda>c. c \<noteq> CHR ''/'' \<and> c \<noteq> CHR ''?'' \<and> c \<noteq> CHR ''#'') path in
    rbind (parse_destination destination) (\<lambda>(ip, port).
    if length (split_on CHR ''.'' ip) \<noteq> 4 \<or> list_ex (\<lambda>p. parse_unsigned 255 p = None) (split_on CHR ''.'' ip)
    then Inl ''browser media destination must be IPv4''
    else Inr (ip @ '':'' @ decimal (unat port))))))"

definition web_hex :: "bytes \<Rightarrow> string" where
  "web_hex bs = string_of_bytes (concat (map (\<lambda>b.
     [as_bytes ''0123456789abcdef'' ! unat (drop_bit 4 b), as_bytes ''0123456789abcdef'' ! unat (b AND 0x0f)]) bs))"

definition browser_tunnel_id :: "bytes option \<Rightarrow> string js_result" where
  "browser_tunnel_id random = rbind (ok_or random ''browser random generator is unavailable'') (\<lambda>r. Inr (web_hex r))"

section \<open>Cipher helpers\<close>

definition web_aead_nonce :: "u64 \<Rightarrow> bytes" where
  "web_aead_nonce v = replicate 4 0 @ to_le_bytes v"

definition web_aead_encrypt :: "'a crypto_scheme \<Rightarrow> bytes \<Rightarrow> u64 \<Rightarrow> bytes \<Rightarrow> bytes \<Rightarrow> bytes js_result" where
  "web_aead_encrypt C key nonce aad v =
    (if length key \<noteq> 32 then Inl ''invalid cipher key''
     else ok_or (c_encrypt C key (web_aead_nonce nonce) aad v) ''MST5 encryption failed'')"

definition web_aead_decrypt :: "'a crypto_scheme \<Rightarrow> bytes \<Rightarrow> u64 \<Rightarrow> bytes \<Rightarrow> bytes \<Rightarrow> bytes js_result" where
  "web_aead_decrypt C key nonce aad v =
    (if length key \<noteq> 32 then Inl ''invalid cipher key''
     else ok_or (c_decrypt C key (web_aead_nonce nonce) aad v) ''MST5 authentication failed'')"

definition web_hkdf :: "'a crypto_scheme \<Rightarrow> bytes \<Rightarrow> bytes \<Rightarrow> bytes \<times> bytes" where
  "web_hkdf C key input = (let out = c_hkdf C key input [] 64 in (take 32 out, drop 32 out))"

definition web_record_aad :: "bytes \<Rightarrow> nat \<Rightarrow> u64 \<Rightarrow> bytes js_result" where
  "web_record_aad h len sequence =
    (if len \<ge> 2 ^ 32 then Inl ''record too large''
     else Inr (RECORD_LABEL @ h @ to_be_bytes (word_of_nat len :: u32) @ to_be_bytes sequence))"

definition require_shared :: "bytes \<Rightarrow> unit js_result" where
  "require_shared v = (if list_all (\<lambda>b. b = 0) v then Inl ''invalid MST5 key exchange'' else Inr ())"

section \<open>Symmetric state\<close>

record web_symmetric =
  ws_key :: bytes
  ws_hash :: bytes
  ws_cipher :: "bytes option"
  ws_nonce :: u64

record web_cipher =
  wc_key :: bytes
  wc_nonce :: u64

definition web_mix_hash :: "'a crypto_scheme \<Rightarrow> bytes \<Rightarrow> web_symmetric \<Rightarrow> web_symmetric" where
  "web_mix_hash C data s = s\<lparr>ws_hash := c_sha256 C (ws_hash s @ data)\<rparr>"

definition web_symmetric_new :: "'a crypto_scheme \<Rightarrow> bytes \<Rightarrow> web_symmetric" where
  "web_symmetric_new C server = web_mix_hash C server (web_mix_hash C PROLOGUE
     \<lparr>ws_key = PROTOCOL_NAME, ws_hash = PROTOCOL_NAME, ws_cipher = None, ws_nonce = 0\<rparr>)"

definition web_mix_key :: "'a crypto_scheme \<Rightarrow> bytes \<Rightarrow> web_symmetric \<Rightarrow> web_symmetric" where
  "web_mix_key C input s = (case web_hkdf C (ws_key s) input of (key, cipher) \<Rightarrow>
     s\<lparr>ws_key := key, ws_cipher := Some cipher, ws_nonce := 0\<rparr>)"

definition web_encrypt_and_hash :: "'a crypto_scheme \<Rightarrow> bytes \<Rightarrow> web_symmetric \<Rightarrow> (bytes \<times> web_symmetric) js_result" where
  "web_encrypt_and_hash C v s = (case ws_cipher s of
      Some key \<Rightarrow> rbind (web_aead_encrypt C key (ws_nonce s) (ws_hash s) v) (\<lambda>output.
        Inr (output, web_mix_hash C output (s\<lparr>ws_nonce := ws_nonce s + 1\<rparr>)))
    | None \<Rightarrow> Inr (v, web_mix_hash C v s))"

definition web_decrypt_and_hash :: "'a crypto_scheme \<Rightarrow> bytes \<Rightarrow> web_symmetric \<Rightarrow> (bytes \<times> web_symmetric) js_result" where
  "web_decrypt_and_hash C v s = (case ws_cipher s of
      Some key \<Rightarrow> rbind (web_aead_decrypt C key (ws_nonce s) (ws_hash s) v) (\<lambda>output.
        Inr (output, web_mix_hash C v (s\<lparr>ws_nonce := ws_nonce s + 1\<rparr>)))
    | None \<Rightarrow> Inr (v, web_mix_hash C v s))"

definition web_split :: "'a crypto_scheme \<Rightarrow> web_symmetric \<Rightarrow> web_cipher \<times> web_cipher" where
  "web_split C s = (case web_hkdf C (ws_key s) [] of (first, second) \<Rightarrow>
     (\<lparr>wc_key = first, wc_nonce = 0\<rparr>, \<lparr>wc_key = second, wc_nonce = 0\<rparr>))"

section \<open>Records\<close>

definition web_padded :: "nat \<Rightarrow> nat" where
  "web_padded base =
    (let block = (if base \<le> LARGE_PADDING_THRESHOLD then PADDING_BLOCK else LARGE_PADDING_BLOCK)
     in (base + block - 1) div block * block)"

definition web_seal_record ::
    "'a crypto_scheme \<Rightarrow> bytes \<Rightarrow> bytes \<Rightarrow> web_cipher \<Rightarrow> bytes js_result \<times> web_cipher" where
  "web_seal_record C h payload c =
    (let base = 5 + length payload;
         plain = [0] @ to_be_bytes (word_of_nat (length payload) :: u32) @ payload @ replicate (web_padded base - base) 0;
         sequence = wc_nonce c;
         len = 8 + length plain + TAG_LEN in
     case rbind (web_record_aad h len sequence) (\<lambda>aad. web_aead_encrypt C (wc_key c) sequence aad plain) of
       Inl e \<Rightarrow> (Inl e, c)
     | Inr encrypted \<Rightarrow> (Inr (to_be_bytes sequence @ encrypted), c\<lparr>wc_nonce := wc_nonce c + 1\<rparr>))"

definition web_parse_plaintext :: "bytes \<Rightarrow> bytes js_result" where
  "web_parse_plaintext plain =
    (if length plain < 5 \<or> plain ! 0 \<noteq> 0 then Inl ''invalid MST5 secure transport plaintext''
     else let len = unat (from_be_bytes (take 4 (drop 1 plain)) :: u32) in
     if 5 + len > length plain \<or> list_ex (\<lambda>b. b \<noteq> 0) (drop (5 + len) plain) then Inl ''invalid secure transport padding''
     else Inr (take len (drop 5 plain)))"

definition web_open_record ::
    "'a crypto_scheme \<Rightarrow> bytes \<Rightarrow> bytes \<Rightarrow> web_cipher \<Rightarrow> bytes js_result \<times> web_cipher" where
  "web_open_record C h r c =
    (if length r < 24 then (Inl ''short MST5 encrypted record'', c)
     else let sequence = from_be_bytes (take 8 r) in
     if sequence \<noteq> wc_nonce c then (Inl ''MST5 encrypted record sequence mismatch'', c)
     else case rbind (web_record_aad h (length r) sequence) (\<lambda>aad. web_aead_decrypt C (wc_key c) sequence aad (drop 8 r)) of
       Inl e \<Rightarrow> (Inl e, c)
     | Inr plain \<Rightarrow> (web_parse_plaintext plain, c\<lparr>wc_nonce := wc_nonce c + 1\<rparr>))"

section \<open>Frames\<close>

record web_frame =
  wf_kind :: u8
  wf_code :: u16
  wf_id :: u64
  wf_payload :: bytes

definition web_frame_encode :: "bytes option \<Rightarrow> u8 \<Rightarrow> u16 \<Rightarrow> u64 \<Rightarrow> bytes \<Rightarrow> bytes js_result" where
  "web_frame_encode random knd code fid payload =
    (if length payload > MAX_RECORD_BYTES then Inl ''MST5 frame too large''
     else rbind (if knd = 2 then ok_or random ''browser random generator is unavailable'' else Inr (replicate 16 0))
       (\<lambda>request_nonce.
     Inr ([knd, 0] @ to_be_bytes code @ to_be_bytes fid @ request_nonce @ to_be_bytes (0 :: u64)
       @ to_be_bytes (word_of_nat (length payload) :: u32) @ payload)))"

definition web_frame_decode :: "'a web_env_scheme \<Rightarrow> bytes \<Rightarrow> web_frame js_result" where
  "web_frame_decode E input =
    (if length input < 40 then Inl ''invalid MST5 frame''
     else let flags = input ! 1 in
     if flags AND NOT MST5_FLAG_DEFLATE \<noteq> 0 then Inl ''unsupported MST5 frame compression''
     else let frame_size = unat (from_be_bytes (take 4 (drop 36 input)) :: u32) in
     if length input \<noteq> 40 + frame_size then Inl ''invalid MST5 frame size''
     else rbind (if flags = MST5_FLAG_DEFLATE then
         rbind (ok_or (w_inflate E (drop 40 input) (MAX_RECORD_BYTES + 1)) ''invalid MST5 deflate payload'') (\<lambda>output.
         if length output > MAX_RECORD_BYTES then Inl ''MST5 deflate payload exceeds the frame limit'' else Inr output)
       else Inr (drop 40 input)) (\<lambda>payload.
     Inr \<lparr>wf_kind = input ! 0, wf_code = from_be_bytes (take 2 (drop 2 input)),
          wf_id = from_be_bytes (take 8 (drop 4 input)), wf_payload = payload\<rparr>))"

definition successful_response :: "u8 \<Rightarrow> u8 \<Rightarrow> u16 \<Rightarrow> bool" where
  "successful_response request_kind response_kind code =
    (response_kind = (if request_kind = 11 then 11 else 4) \<and> 200 \<le> code \<and> code < 300)"

definition frame_error :: "'a web_env_scheme \<Rightarrow> string \<Rightarrow> web_frame \<Rightarrow> string" where
  "frame_error E context f = context @ '': '' @
    (case Option.bind (w_cbor_decode E (wf_payload f)) (\<lambda>v. Option.bind (json_get v ''message'') json_as_str) of
       Some m \<Rightarrow> m | None \<Rightarrow> ''MST5 status '' @ decimal (unat (wf_code f)))"

section \<open>Operations\<close>

definition wasm_operation_table :: "((string \<times> string) \<times> u16) list" where
  "wasm_operation_table = [
    ((''POST'', ''/register''), 1),
    ((''POST'', ''/login''), 2),
    ((''POST'', ''/auth/email/start''), 3),
    ((''POST'', ''/auth/email/verify''), 4),
    ((''POST'', ''/auth/qr/start''), 98),
    ((''GET'', ''/auth/qr/poll''), 99),
    ((''POST'', ''/auth/qr/approve''), 100),
    ((''GET'', ''/me''), 5),
    ((''POST'', ''/account/delete''), 6),
    ((''POST'', ''/username''), 7),
    ((''POST'', ''/name''), 8),
    ((''POST'', ''/privacy''), 9),
    ((''GET'', ''/contacts''), 10),
    ((''POST'', ''/contacts/add''), 11),
    ((''POST'', ''/contacts/delete''), 12),
    ((''POST'', ''/groups''), 13),
    ((''POST'', ''/channels''), 14),
    ((''POST'', ''/chats/title''), 15),
    ((''POST'', ''/channels/username''), 16),
    ((''POST'', ''/channels/comments/settings''), 17),
    ((''POST'', ''/channels/comments/send''), 18),
    ((''GET'', ''/channels/comments''), 19),
    ((''POST'', ''/chats/members/add''), 20),
    ((''POST'', ''/chats/members/remove''), 21),
    ((''POST'', ''/cloud-password''), 22),
    ((''POST'', ''/cloud-password/reset''), 23),
    ((''GET'', ''/sessions''), 24),
    ((''POST'', ''/sessions/revoke''), 25),
    ((''POST'', ''/sessions/revoke-others''), 26),
    ((''POST'', ''/bots''), 27),
    ((''POST'', ''/bots/token/reset''), 28),
    ((''POST'', ''/e2e/key''), 29),
    ((''GET'', ''/e2e/key''), 30),
    ((''POST'', ''/e2e/backup''), 31),
    ((''GET'', ''/e2e/backup''), 32),
    ((''POST'', ''/e2e/reset''), 33),
    ((''GET'', ''/wallet''), 34),
    ((''POST'', ''/wallet/send''), 35),
    ((''GET'', ''/wallet/history''), 36),
    ((''POST'', ''/call''), 37),
    ((''POST'', ''/voice-ticket''), 38),
    ((''GET'', ''/voice/participants''), 39),
    ((''POST'', ''/send''), 40),
    ((''POST'', ''/edit''), 41),
    ((''POST'', ''/callback''), 42),
    ((''POST'', ''/reactions''), 43),
    ((''POST'', ''/reactions/paid''), 44),
    ((''POST'', ''/read''), 45),
    ((''POST'', ''/delete''), 46),
    ((''POST'', ''/favorite''), 47),
    ((''GET'', ''/nodes/status''), 50),
    ((''GET'', ''/chats''), 51),
    ((''POST'', ''/chats/delete''), 52),
    ((''POST'', ''/users/ban''), 53),
    ((''POST'', ''/users/unban''), 54),
    ((''GET'', ''/history''), 55),
    ((''GET'', ''/updates''), 56),
    ((''GET'', ''/oauth/device/request''), 60),
    ((''POST'', ''/oauth/device/decision''), 61),
    ((''GET'', ''/file/ticket''), 65),
    ((''POST'', ''/forward''), 69),
    ((''POST'', ''/media/quote''), 70),
    ((''POST'', ''/messages/prepare''), 71),
    ((''POST'', ''/messages/commit''), 72),
    ((''POST'', ''/messages/cancel''), 73),
    ((''POST'', ''/pin''), 92),
    ((''POST'', ''/polls/vote''), 93),
    ((''GET'', ''/chats/favorites''), 94),
    ((''POST'', ''/chats/favorite''), 95),
    ((''GET'', ''/chats/folders''), 96),
    ((''POST'', ''/chats/folder''), 97),
    ((''POST'', ''/avatars/prepare''), 86),
    ((''POST'', ''/avatars/commit''), 87),
    ((''POST'', ''/avatars/delete''), 88),
    ((''POST'', ''/profiles/description''), 74),
    ((''GET'', ''/bots/commands''), 79),
    ((''GET'', ''/stickers/packs''), 80),
    ((''GET'', ''/stickers/pack''), 81),
    ((''POST'', ''/stickers/packs''), 82),
    ((''POST'', ''/stickers/packs/purchase''), 83),
    ((''POST'', ''/stickers/send''), 84),
    ((''POST'', ''/stickers/packs/price''), 85)]"

definition web_operation :: "string \<Rightarrow> string \<Rightarrow> u16 js_result" where
  "web_operation meth path = ok_or (map_of wasm_operation_table (meth, path))
     (''unsupported MST5 operation '' @ meth @ '' '' @ path)"

section \<open>The mailbox\<close>

text \<open>
  \<open>wn_inbox\<close> are the bodies of the coming downstream requests (an empty body asks
  to poll again), \<open>wn_outcome\<close> the error of the upstream request with a sequence
  number, \<open>wn_sent\<close> the upstream records that were accepted.
\<close>

record web_net =
  wn_inbox :: "bytes js_result list"
  wn_outcome :: "u64 \<Rightarrow> string option"
  wn_sent :: "(u64 \<times> bytes) list"

definition upstream_bytes ::
    "'a web_env_scheme \<Rightarrow> m5oh_fetch \<Rightarrow> u64 \<Rightarrow> bytes \<Rightarrow> web_net \<Rightarrow> unit js_result \<times> web_net" where
  "upstream_bytes E t sequence r net =
    (if length r > MAX_GET_RECORD_BYTES then (Inl ''M5oH encrypted GET record exceeds CDN limit'', net)
     else case fetch_url E t (Some r) of
       Inl e \<Rightarrow> (Inl e, net)
     | Inr _ \<Rightarrow> (case wn_outcome net sequence of
         Some e \<Rightarrow> (Inl e, net)
       | None \<Rightarrow> (Inr (), net\<lparr>wn_sent := wn_sent net @ [(sequence, r)]\<rparr>)))"

text \<open>The polling loop, until \<open>len\<close> bytes have been received.\<close>

fun read_loop ::
    "(u64 \<Rightarrow> u64 js_result) \<Rightarrow> nat \<Rightarrow> bytes js_result list \<Rightarrow> bytes \<Rightarrow> u64
     \<Rightarrow> (unit js_result \<times> bytes js_result list \<times> bytes \<times> u64) option" where
  "read_loop next_seq len inbox received sequence =
    (if len \<le> length received then Some (Inr (), inbox, received, sequence)
     else case inbox of
       [] \<Rightarrow> None
     | Inl e # rest \<Rightarrow> Some (Inl e, rest, received, sequence)
     | Inr body # rest \<Rightarrow> (case next_seq sequence of
         Inl e \<Rightarrow> Some (Inl e, rest, received, sequence)
       | Inr sequence' \<Rightarrow> read_loop next_seq len rest (received @ body) sequence'))"

declare read_loop.simps [simp del]

section \<open>Handshake\<close>

record browser_session =
  bs_transport :: m5oh_fetch
  bs_tunnel_id :: string
  bs_upstream_seq :: u64
  bs_downstream_seq :: u64
  bs_received :: bytes
  bs_seal :: web_cipher
  bs_open :: web_cipher
  bs_hash :: bytes
  bs_next_request :: u64
  bs_net :: web_net

definition web_client_hello :: "'a crypto_scheme \<Rightarrow> bytes \<Rightarrow> bytes \<Rightarrow> (bytes \<times> web_symmetric) js_result" where
  "web_client_hello C client_private server_key =
    (let public = c_public C client_private;
         state = web_mix_hash C public (web_symmetric_new C server_key);
         es = c_dh C client_private server_key in
     rbind (require_shared es) (\<lambda>_.
     rbind (web_encrypt_and_hash C [] (web_mix_key C es state)) (\<lambda>(tag, state).
       Inr (CLIENT_MAGIC @ to_be_bytes (48 :: u16) @ public @ tag, state))))"

definition web_finish ::
    "'a crypto_scheme \<Rightarrow> bytes \<Rightarrow> web_symmetric \<Rightarrow> bytes \<Rightarrow> (web_cipher \<times> web_cipher \<times> bytes) js_result" where
  "web_finish C client_private state received =
    (if take 4 received \<noteq> SERVER_MAGIC \<or> (from_be_bytes (take 2 (drop 4 received)) :: u16) \<noteq> 48
     then Inl ''invalid MST5 server hello''
     else let ephemeral = take 32 (drop 6 received);
              state = web_mix_hash C ephemeral state;
              ee = c_dh C client_private ephemeral in
     rbind (require_shared ee) (\<lambda>_.
     rbind (web_decrypt_and_hash C (take 16 (drop 38 received)) (web_mix_key C ee state)) (\<lambda>(payload, state).
       if payload \<noteq> [] then Inl ''invalid MST5 server handshake''
       else case web_split C state of (seal, opn) \<Rightarrow> Inr (seal, opn, ws_hash state))))"

definition web_handshake ::
    "'a web_env_scheme \<Rightarrow> bytes \<Rightarrow> m5oh_fetch \<Rightarrow> string \<Rightarrow> bytes \<Rightarrow> web_net \<Rightarrow> browser_session js_result option" where
  "web_handshake E client_private t tunnel_id server_key net =
    (case web_client_hello E client_private server_key of
       Inl e \<Rightarrow> Some (Inl e)
     | Inr (hello, state) \<Rightarrow> (case upstream_bytes E t 1 hello net of
         (Inl e, _) \<Rightarrow> Some (Inl e)
       | (Inr _, net) \<Rightarrow> (case read_loop (\<lambda>d. Inr (d + 1)) 54 (wn_inbox net) [] 0 of
           None \<Rightarrow> None
         | Some (Inl e, _) \<Rightarrow> Some (Inl e)
         | Some (Inr _, inbox, received, down) \<Rightarrow> Some (
             rbind (web_finish E client_private state received) (\<lambda>(seal, opn, h).
             Inr \<lparr>bs_transport = t, bs_tunnel_id = tunnel_id, bs_upstream_seq = 2, bs_downstream_seq = down,
                  bs_received = drop 54 received, bs_seal = seal, bs_open = opn, bs_hash = h, bs_next_request = 1,
                  bs_net = net\<lparr>wn_inbox := inbox\<rparr>\<rparr>)))))"

section \<open>Operations of a session\<close>

type_synonym 'a web_op = "browser_session \<Rightarrow> ('a js_result \<times> browser_session) option"

definition wret :: "'a \<Rightarrow> 'a web_op" where
  "wret x s = Some (Inr x, s)"

definition wlift :: "'a js_result \<Rightarrow> 'a web_op" where
  "wlift r s = Some (r, s)"

definition wbind :: "'a web_op \<Rightarrow> ('a \<Rightarrow> 'b web_op) \<Rightarrow> 'b web_op" where
  "wbind m f s = (case m s of
      None \<Rightarrow> None
    | Some (Inl e, s') \<Rightarrow> Some (Inl e, s')
    | Some (Inr x, s') \<Rightarrow> f x s')"

definition take_request_id :: "u64 web_op" where
  "take_request_id s = (case checked_add (bs_next_request s) 1 of
      None \<Rightarrow> Some (Inl ''MST5 request id exhausted'', s)
    | Some n \<Rightarrow> Some (Inr (bs_next_request s), s\<lparr>bs_next_request := n\<rparr>))"

definition web_write_record :: "'a web_env_scheme \<Rightarrow> bytes \<Rightarrow> unit web_op" where
  "web_write_record E frame_bytes s = Some (case web_seal_record E (bs_hash s) frame_bytes (bs_seal s) of
      (Inl e, c) \<Rightarrow> (Inl e, s\<lparr>bs_seal := c\<rparr>)
    | (Inr r, c) \<Rightarrow>
        (case upstream_bytes E (bs_transport s) (bs_upstream_seq s) (to_be_bytes (word_of_nat (length r) :: u32) @ r) (bs_net s) of
           (Inl e, net) \<Rightarrow> (Inl e, s\<lparr>bs_seal := c, bs_net := net\<rparr>)
         | (Inr _, net) \<Rightarrow> (case checked_add (bs_upstream_seq s) 1 of
             None \<Rightarrow> (Inl ''M5oH upload sequence exhausted'', s\<lparr>bs_seal := c, bs_net := net\<rparr>)
           | Some n \<Rightarrow> (Inr (), s\<lparr>bs_seal := c, bs_net := net, bs_upstream_seq := n\<rparr>))))"

definition web_read_exact :: "nat \<Rightarrow> bytes web_op" where
  "web_read_exact len s =
    (case read_loop (\<lambda>d. ok_or (checked_add d 1) ''M5oH download sequence exhausted'') len
        (wn_inbox (bs_net s)) (bs_received s) (bs_downstream_seq s) of
       None \<Rightarrow> None
     | Some (r, inbox, received, down) \<Rightarrow>
         let s = s\<lparr>bs_net := (bs_net s)\<lparr>wn_inbox := inbox\<rparr>, bs_downstream_seq := down\<rparr> in
         (case r of
            Inl e \<Rightarrow> Some (Inl e, s\<lparr>bs_received := received\<rparr>)
          | Inr _ \<Rightarrow> Some (Inr (take len received), s\<lparr>bs_received := drop len received\<rparr>)))"

definition web_read_record :: "'a web_env_scheme \<Rightarrow> bytes web_op" where
  "web_read_record E =
    wbind (web_read_exact 4) (\<lambda>len_bytes.
    let len = unat (from_be_bytes len_bytes :: u32) in
    if len < 24 \<or> len > MAX_RECORD_BYTES + 512 then wlift (Inl ''invalid MST5 record length'')
    else wbind (web_read_exact len) (\<lambda>r s.
      case web_open_record E (bs_hash s) r (bs_open s) of (p, c) \<Rightarrow> Some (p, s\<lparr>bs_open := c\<rparr>)))"

definition web_write_frame :: "'a web_env_scheme \<Rightarrow> bytes option \<Rightarrow> u8 \<Rightarrow> u16 \<Rightarrow> u64 \<Rightarrow> bytes \<Rightarrow> unit web_op" where
  "web_write_frame E random knd code fid payload =
    wbind (wlift (web_frame_encode random knd code fid payload)) (web_write_record E)"

definition web_read_frame :: "'a web_env_scheme \<Rightarrow> web_frame web_op" where
  "web_read_frame E = wbind (web_read_record E) (\<lambda>plain. wlift (web_frame_decode E plain))"

text \<open>Every frame consumes bytes, so looking for a matching frame ends or waits for the mailbox.\<close>

fun body_size :: "bytes js_result \<Rightarrow> nat" where
  "body_size (Inr body) = length body"
| "body_size (Inl e) = 0"

definition available :: "browser_session \<Rightarrow> nat" where
  "available s = length (bs_received s) + sum_list (map body_size (wn_inbox (bs_net s)))"

lemma read_loop_size:
  "read_loop next_seq len inbox received sequence = Some (r, inbox', received', sequence') \<Longrightarrow>
    length received' + sum_list (map body_size inbox') \<le> length received + sum_list (map body_size inbox)
    \<and> (\<forall>u. r = Inr u \<longrightarrow> len \<le> length received')"
proof (induction next_seq len inbox received sequence rule: read_loop.induct)
  case (1 next_seq len inbox received sequence)
  show ?case
  proof (cases "len \<le> length received")
    case True
    then show ?thesis using 1(2) by (auto simp: read_loop.simps)
  next
    case False
    then show ?thesis
      using 1 by (fastforce simp: read_loop.simps [of next_seq len inbox] split: list.splits sum.splits)
  qed
qed

lemma web_read_exact_size:
  "web_read_exact len s = Some (Inr bs, s') \<Longrightarrow> available s' + len \<le> available s \<and> length bs = len"
  by (auto simp: web_read_exact_def available_def Let_def split: option.splits sum.splits prod.splits
      dest!: read_loop_size)

lemma web_read_exact_le: "web_read_exact len s = Some (r, s') \<Longrightarrow> available s' \<le> available s"
  by (auto simp: web_read_exact_def available_def Let_def split: option.splits sum.splits prod.splits
      dest!: read_loop_size)

lemma web_read_frame_size: "web_read_frame E s = Some (Inr f, s') \<Longrightarrow> available s' < available s"
proof -
  assume "web_read_frame E s = Some (Inr f, s')"
  then obtain len_bytes s1 r s2 p c where r: "web_read_exact 4 s = Some (Inr len_bytes, s1)"
    "web_read_exact (unat (from_be_bytes len_bytes :: u32)) s1 = Some (Inr r, s2)"
    "s' = s2\<lparr>bs_open := c\<rparr>"
    by (auto simp: web_read_frame_def web_read_record_def wbind_def wlift_def Let_def
        split: option.splits sum.splits prod.splits if_splits)
  then have "available s' = available s2" by (simp add: available_def)
  then show ?thesis using web_read_exact_size [OF r(1)] web_read_exact_size [OF r(2)] by linarith
qed

function read_matching_frame :: "'a web_env_scheme \<Rightarrow> u64 \<Rightarrow> web_frame web_op" where
  "read_matching_frame E fid s = (case web_read_frame E s of
      None \<Rightarrow> None
    | Some (Inl e, s') \<Rightarrow> Some (Inl e, s')
    | Some (Inr f, s') \<Rightarrow> if wf_id f = fid then Some (Inr f, s') else read_matching_frame E fid s')"
  by pat_completeness auto
termination
  by (relation "measure (\<lambda>(E, fid, s). available s)") (auto dest: web_read_frame_size)

declare read_matching_frame.simps [simp del]

definition request_reason :: "json \<Rightarrow> string" where
  "request_reason v = (case Option.bind (json_get v ''message'') json_as_str of Some m \<Rightarrow> m | None \<Rightarrow> ''MST5 request failed'')"

definition web_request ::
    "'a web_env_scheme \<Rightarrow> bytes option \<Rightarrow> u8 \<Rightarrow> u16 \<Rightarrow> json \<Rightarrow> (bool \<times> string \<times> json) web_op" where
  "web_request E random knd code body =
    wbind (if knd = 11 then wret 0 else take_request_id) (\<lambda>fid.
    wbind (wlift (ok_or (w_cbor_encode E body) ''cannot encode MST5 command'')) (\<lambda>payload.
    wbind (web_write_frame E random knd code fid payload) (\<lambda>_.
    wbind (read_matching_frame E fid) (\<lambda>decoded.
    wbind (wlift (ok_or (w_cbor_decode E (wf_payload decoded)) ''invalid CBOR response'')) (\<lambda>v.
    wret (successful_response knd (wf_kind decoded) (wf_code decoded), request_reason v, v))))))"

section \<open>Negotiation, authentication and commands\<close>

definition web_hello_body :: "u64 \<Rightarrow> json" where
  "web_hello_body required = JObject [(''features'', JNumber (PosInt required)),
     (''max_frame'', JNumber (PosInt (word_of_nat MAX_RECORD_BYTES))), (''required_features'', JNumber (PosInt required)),
     (''rpc_major'', JNumber (PosInt RPC_MAJOR)), (''rpc_minor'', JNumber (PosInt RPC_MINOR)),
     (''transport_major'', JNumber (PosInt TRANSPORT_MAJOR))]"

definition json_u64 :: "json \<Rightarrow> string \<Rightarrow> u64 option" where
  "json_u64 v key = Option.bind (json_get v key) json_as_u64"

definition web_hello_ok :: "u64 \<Rightarrow> json \<Rightarrow> unit js_result" where
  "web_hello_ok required v =
    rbind (ok_or (json_as_object v) ''MST5 SERVER_HELLO is invalid'') (\<lambda>_.
    if json_u64 v ''transport_major'' \<noteq> Some TRANSPORT_MAJOR \<or> json_u64 v ''rpc_major'' \<noteq> Some RPC_MAJOR
      \<or> unwrap_or (json_u64 v ''features'') 0 AND required \<noteq> required
    then Inl ''MST5 SERVER_HELLO omitted required capabilities'' else Inr ())"

definition web_negotiate :: "'a web_env_scheme \<Rightarrow> u64 \<Rightarrow> unit web_op" where
  "web_negotiate E required =
    wbind (web_request E None 11 0 (web_hello_body required)) (\<lambda>(ok, reason, v).
    if \<not> ok then wlift (Inl (''MST5 HELLO failed: '' @ reason)) else wlift (web_hello_ok required v))"

definition establish_session_with_key ::
    "'a web_env_scheme \<Rightarrow> bytes option \<Rightarrow> bytes \<Rightarrow> web_net \<Rightarrow> string \<Rightarrow> string \<Rightarrow> bytes \<Rightarrow> u64
     \<Rightarrow> browser_session js_result option" where
  "establish_session_with_key E random client_private net endpoint destination key required =
    (case rbind (parse_destination destination) (\<lambda>(ip, port).
       rbind (encode_route E ip port 0) (\<lambda>route.
       rbind (m5oh_fetch_new endpoint route) (\<lambda>t.
       rbind (browser_tunnel_id random) (\<lambda>tunnel_id.
       (case upstream_bytes E t 0 [] net of (Inl e, _) \<Rightarrow> Inl e | (Inr _, net) \<Rightarrow> Inr (t, tunnel_id, net)))))) of
       Inl e \<Rightarrow> Some (Inl e)
     | Inr (t, tunnel_id, net) \<Rightarrow> (case web_handshake E client_private t tunnel_id key net of
         None \<Rightarrow> None
       | Some (Inl e) \<Rightarrow> Some (Inl e)
       | Some (Inr s) \<Rightarrow> (case web_negotiate E required s of
           None \<Rightarrow> None
         | Some (Inl e, _) \<Rightarrow> Some (Inl e)
         | Some (Inr _, s) \<Rightarrow> Some (Inr s))))"

definition establish_media_session ::
    "'a web_env_scheme \<Rightarrow> bytes option \<Rightarrow> bytes \<Rightarrow> web_net \<Rightarrow> string \<Rightarrow> string \<Rightarrow> string \<Rightarrow> browser_session js_result option" where
  "establish_media_session E random client_private net endpoint media_endpoint media_public_key =
    (case rbind (parse_media_destination media_endpoint) (\<lambda>d.
       rbind (decode_server_key E media_public_key) (\<lambda>key. Inr (d, key))) of
       Inl e \<Rightarrow> Some (Inl e)
     | Inr (d, key) \<Rightarrow> establish_session_with_key E random client_private net endpoint d key REQUIRED_MEDIA_FEATURES)"

definition media_authenticate :: "'a web_env_scheme \<Rightarrow> string \<Rightarrow> unit web_op" where
  "media_authenticate E ticket =
    wbind (web_request E None 1 0 (JObject [(''mechanism'', JString ''media_ticket''), (''ticket'', JString ticket)])) (\<lambda>(ok, reason, _).
    if ok then wret () else wlift (Inl (''MST5 media authentication failed: '' @ reason)))"

definition take_chars :: "nat \<Rightarrow> string \<Rightarrow> string" where
  "take_chars n s = string_of_bytes (concat (map snd (take n (utf8_split (as_bytes s)))))"

definition authenticate_session :: "'a web_env_scheme \<Rightarrow> string \<Rightarrow> string \<Rightarrow> unit web_op" where
  "authenticate_session E token device_model =
    wbind (web_request E None 1 0 (JObject [(''client_name'', JString ''OVE Web''),
        (''device_model'', JString (take_chars 128 device_model)), (''token'', JString token)])) (\<lambda>(ok, reason, _).
    if ok then wret () else wlift (Inl (''MST5 authentication failed: '' @ reason)))"

definition auth_session_token :: "json \<Rightarrow> string option" where
  "auth_session_token v = (case Option.bind (json_get v ''token'') json_as_str of
      Some t \<Rightarrow> if trim_is_empty t then None else Some t | None \<Rightarrow> None)"

definition start_email_auth :: "'a web_env_scheme \<Rightarrow> bytes option \<Rightarrow> string \<Rightarrow> unit web_op" where
  "start_email_auth E random email =
    (if str_trim email = [] then wlift (Inl ''e-mail is required'')
     else wbind (web_request E random 2 3 (JObject [(''email'', JString (str_trim email))])) (\<lambda>(ok, reason, _).
       if ok then wret () else wlift (Inl reason)))"

definition verify_email_auth :: "'a web_env_scheme \<Rightarrow> bytes option \<Rightarrow> string \<Rightarrow> string \<Rightarrow> string \<Rightarrow> string web_op" where
  "verify_email_auth E random email code cloud_password =
    wbind (web_request E random 2 4 (JObject [(''cloud_password'', JString cloud_password), (''code'', JString (str_trim code)),
        (''email'', JString (str_trim email))])) (\<lambda>(ok, reason, v).
    if \<not> ok then wlift (Inl reason)
    else wlift (ok_or (auth_session_token v) ''MST5 auth response did not contain a session''))"

text \<open>The command of the web client: method, path and payload of the request it makes.\<close>

definition web_command_request :: "json \<Rightarrow> (u8 \<times> u16 \<times> json) js_result" where
  "web_command_request input =
    rbind (ok_or (json_as_object input) ''messenger command must be an object'') (\<lambda>_.
    let meth = map ascii_upper (string_field_or input ''method'' ''GET'');
        raw_path = string_field_or input ''path'' ''/'';
        (path, query) = split_query raw_path in
    rbind (web_operation meth path) (\<lambda>code.
    Inr (if meth = ''GET'' then 3 else 2, code,
      if meth = ''GET'' then (case query of Some v \<Rightarrow> JObject [(''query'', JString v)] | None \<Rightarrow> JObject [])
      else (case json_get input ''body'' of Some b \<Rightarrow> b | None \<Rightarrow> JObject []))))"

definition web_command :: "'a web_env_scheme \<Rightarrow> bytes option \<Rightarrow> json \<Rightarrow> json web_op" where
  "web_command E random input =
    wbind (wlift (web_command_request input)) (\<lambda>(knd, code, payload).
    wbind (web_request E random knd code payload) (\<lambda>(ok, reason, v).
    if \<not> ok then wlift (Inl reason) else wret v))"

section \<open>Records of the browser and of the native client\<close>

text \<open>The browser's cipher state has the key and the nonce of the native one, and no counters for rekeying.\<close>

definition web_cipher_of :: "cipher_state \<Rightarrow> web_cipher" where
  "web_cipher_of c = \<lparr>wc_key = cs_key c, wc_nonce = cs_nonce c\<rparr>"

definition rekeys_after :: "nat \<Rightarrow> cipher_state \<Rightarrow> bool" where
  "rekeys_after n c \<longleftrightarrow> unat (cs_nonce c) + 1 \<ge> 2 ^ 18 \<or> unat (cs_bytes c) + padded_len (5 + n) \<ge> 2 ^ 28"

lemma web_padded_eq: "web_padded base = padded_len base"
  by (simp add: web_padded_def padded_len_def const_defs)

lemma web_aead_nonce_eq [simp]: "web_aead_nonce n = aead_nonce n"
  by (simp add: web_aead_nonce_def aead_nonce_def)

lemma web_hkdf_eq [simp]: "web_hkdf C k i = hkdf C k i"
  by (simp add: web_hkdf_def hkdf_def)

lemma web_aead_encrypt_Inr [simp]: "web_aead_encrypt C k n a m = Inr x \<longleftrightarrow> aead_encrypt C k n a m = Inr x"
  by (auto simp: web_aead_encrypt_def aead_encrypt_def ok_or_def split: option.splits)

lemma web_aead_decrypt_Inr: "aead_decrypt C k n a x = Inr m \<Longrightarrow> web_aead_decrypt C k n a x = Inr m"
  by (auto simp: web_aead_decrypt_def aead_decrypt_def ok_or_def split: option.splits if_splits)

lemma web_record_aad_Inr [simp]: "web_record_aad h len n = Inr a \<longleftrightarrow> record_aad h len n = Inr a"
  by (auto simp: web_record_aad_def record_aad_def)

lemma web_seal_matches:
  assumes "seal_cipher C h 0 payload c = (Inr r, c')"
  shows "web_seal_record C h payload (web_cipher_of c) = (Inr r, (web_cipher_of c)\<lparr>wc_nonce := cs_nonce c + 1\<rparr>)"
proof -
  obtain plain where plain: "transport_plaintext 0 payload = Inr plain"
    using assms by (auto simp: seal_cipher_def split: sum.splits)
  have shape: "[0] @ to_be_bytes (word_of_nat (length payload) :: u32) @ payload
      @ replicate (web_padded (5 + length payload) - (5 + length payload)) 0 = plain"
    using plain transport_plaintext_ok [of 0 payload] transport_plaintext_iff [of 0 payload]
    by (simp add: web_padded_eq)
  obtain aad x where "record_aad h (8 + length plain + TAG_LEN) (cs_nonce c) = Inr aad"
    "aead_encrypt C (cs_key c) (cs_nonce c) aad plain = Inr x" "r = to_be_bytes (cs_nonce c) @ x"
    using assms by (auto simp: seal_cipher_def plain Let_def split: sum.splits prod.splits if_splits)
  then have "rbind (web_record_aad h (8 + length plain + TAG_LEN) (cs_nonce c))
      (\<lambda>aad. web_aead_encrypt C (cs_key c) (cs_nonce c) aad plain) = Inr x" "r = to_be_bytes (cs_nonce c) @ x"
    by (simp_all add: rbind_eq_Inr)
  then show ?thesis
    unfolding web_seal_record_def Let_def shape by (simp add: web_cipher_of_def)
qed

lemma web_parse_matches:
  "parse_transport_plaintext plain = Inr (Application p) \<Longrightarrow> web_parse_plaintext plain = Inr p"
  by (auto simp: parse_transport_plaintext_def web_parse_plaintext_def Let_def split: if_splits)

lemma web_open_matches:
  assumes "open_cipher C h r c = (Inr (Application p), c')"
  shows "web_open_record C h r (web_cipher_of c) = (Inr p, (web_cipher_of c)\<lparr>wc_nonce := cs_nonce c + 1\<rparr>)"
proof -
  obtain aad plain where run: "\<not> length r < 24" "from_be_bytes (take 8 r) = cs_nonce c"
    "record_aad h (length r) (cs_nonce c) = Inr aad" "aead_decrypt C (cs_key c) (cs_nonce c) aad (drop 8 r) = Inr plain"
    "parse_transport_plaintext plain = Inr (Application p)"
    using assms by (auto simp: open_cipher_def Let_def TAG_LEN_def split: sum.splits prod.splits if_splits)
  have "rbind (web_record_aad h (length r) (cs_nonce c))
      (\<lambda>aad. web_aead_decrypt C (cs_key c) (cs_nonce c) aad (drop 8 r)) = Inr plain"
    using run(3,4) web_aead_decrypt_Inr by (simp add: rbind_eq_Inr)
  then show ?thesis
    using run(1,2) web_parse_matches [OF run(5)] by (simp add: web_open_record_def web_cipher_of_def Let_def)
qed

lemma web_seal_ok:
  assumes "aead_laws C" "length (wc_key w) = 32" "length payload \<le> MAX_TRANSPORT_PAYLOAD"
  shows "\<exists>r. web_seal_record C h payload w = (Inr r, w\<lparr>wc_nonce := wc_nonce w + 1\<rparr>)
    \<and> take 8 r = to_be_bytes (wc_nonce w) \<and> 24 \<le> length r \<and> length r \<le> max_record_len
    \<and> length r = 24 + padded_len (5 + length payload)"
proof -
  have ok: "sealable 0 payload" using assms(3) by (simp add: sealable_def)
  obtain plain where plain: "transport_plaintext 0 payload = Inr plain" using transport_plaintext_ok [OF ok] by blast
  note len = transport_plaintext_length [OF plain]
  have shape: "[0] @ to_be_bytes (word_of_nat (length payload) :: u32) @ payload
      @ replicate (web_padded (5 + length payload) - (5 + length payload)) 0 = plain"
    using plain transport_plaintext_ok [OF ok] by (simp add: web_padded_eq)
  have small: "8 + length plain + TAG_LEN < 2 ^ 32" "length plain < 2 ^ 32"
    using len(2) by (simp_all add: max_plaintext_def const_defs)
  define aad where "aad = RECORD_LABEL @ h @ to_be_bytes (word_of_nat (8 + length plain + TAG_LEN) :: u32) @ to_be_bytes (wc_nonce w)"
  have aad: "web_record_aad h (8 + length plain + TAG_LEN) (wc_nonce w) = Inr aad"
    using small(1) unfolding web_record_aad_def aad_def by simp
  obtain x where x: "aead_encrypt C (wc_key w) (wc_nonce w) aad plain = Inr x" "length x = length plain + 16"
    using aead_round_trip [OF assms(1,2) small(2)] by blast
  have "web_seal_record C h payload w = (Inr (to_be_bytes (wc_nonce w) @ x), w\<lparr>wc_nonce := wc_nonce w + 1\<rparr>)"
    unfolding web_seal_record_def Let_def shape aad rbind_Inr web_aead_encrypt_Inr [THEN iffD2, OF x(1)] by simp
  then show ?thesis using x(2) len(1,2) by (auto simp: max_record_len_eq TAG_LEN_def)
qed

lemma commit_spec_web:
  assumes "cipher_inv c"
  shows "\<not> rekeys_after n c \<Longrightarrow> web_cipher_of (commit_spec C (padded_len (5 + n)) h c) = (web_cipher_of c)\<lparr>wc_nonce := cs_nonce c + 1\<rparr>"
    and "rekeys_after n c \<Longrightarrow> cs_nonce (commit_spec C (padded_len (5 + n)) h c) \<noteq> cs_nonce c + 1"
proof -
  show "\<not> rekeys_after n c \<Longrightarrow> web_cipher_of (commit_spec C (padded_len (5 + n)) h c) = (web_cipher_of c)\<lparr>wc_nonce := cs_nonce c + 1\<rparr>"
    by (auto simp: rekeys_after_def commit_spec_def web_cipher_of_def)
  have "unat (cs_nonce c + 1) = Suc (unat (cs_nonce c))"
    using assms unat_add_lem [of "cs_nonce c" 1] by (simp add: cipher_inv_def)
  then have "cs_nonce c + 1 \<noteq> 0" by auto
  then show "rekeys_after n c \<Longrightarrow> cs_nonce (commit_spec C (padded_len (5 + n)) h c) \<noteq> cs_nonce c + 1"
    by (auto simp: rekeys_after_def commit_spec_def Let_def)
qed

section \<open>The handshake of the browser and of the native client\<close>

definition web_symmetric_of :: "symmetric_state \<Rightarrow> web_symmetric" where
  "web_symmetric_of s = \<lparr>ws_key = ss_chaining_key s, ws_hash = ss_hash s, ws_cipher = ss_cipher_key s, ws_nonce = ss_nonce s\<rparr>"

lemma web_symmetric_of_sel [simp]:
  "ws_key (web_symmetric_of s) = ss_chaining_key s" "ws_hash (web_symmetric_of s) = ss_hash s"
  "ws_cipher (web_symmetric_of s) = ss_cipher_key s" "ws_nonce (web_symmetric_of s) = ss_nonce s"
  by (simp_all add: web_symmetric_of_def)

lemma web_mix_hash_of: "web_mix_hash C d (web_symmetric_of s) = web_symmetric_of (mix_hash C d s)"
  by (simp add: web_mix_hash_def mix_hash_def web_symmetric_of_def)

lemma web_mix_key_of: "web_mix_key C i (web_symmetric_of s) = web_symmetric_of (mix_key C i s)"
  by (simp add: web_mix_key_def mix_key_def web_symmetric_of_def split: prod.split)

lemma web_symmetric_new_of: "web_symmetric_new C k = web_symmetric_of (symmetric_new C k)"
  unfolding web_symmetric_new_def symmetric_new_def web_mix_hash_of [symmetric]
  by (simp add: web_symmetric_of_def)

lemma web_encrypt_and_hash_of:
  "encrypt_and_hash C v s = Inr (x, s') \<Longrightarrow> web_encrypt_and_hash C v (web_symmetric_of s) = Inr (x, web_symmetric_of s')"
  by (auto simp: encrypt_and_hash_def web_encrypt_and_hash_def web_mix_hash_def mix_hash_def rbind_eq_Inr
      checked_add_def ok_or_def web_symmetric_of_def split: option.splits if_splits)

lemma web_decrypt_and_hash_of:
  "decrypt_and_hash C v s = Inr (x, s') \<Longrightarrow> web_decrypt_and_hash C v (web_symmetric_of s) = Inr (x, web_symmetric_of s')"
  by (auto simp: decrypt_and_hash_def web_decrypt_and_hash_def web_mix_hash_def mix_hash_def rbind_eq_Inr
      checked_add_def ok_or_def web_symmetric_of_def split: option.splits if_splits dest!: web_aead_decrypt_Inr)

lemma web_split_of:
  "web_split C (web_symmetric_of s) = (web_cipher_of (fst (split_keys C s)), web_cipher_of (snd (split_keys C s)))"
  by (simp add: web_split_def split_keys_def web_cipher_of_def cipher_new_def split: prod.split)

lemma require_shared_of: "require_nonzero_shared v = Inr () \<Longrightarrow> require_shared v = Inr ()"
  by (auto simp: require_nonzero_shared_def require_shared_def split: if_splits)

lemma web_client_hello_of:
  assumes "client_hello C p k = Inr (hello, st)"
  shows "web_client_hello C p k = Inr (hello, web_symmetric_of st)"
proof -
  obtain tag where t: "require_nonzero_shared (c_dh C p k) = Inr ()"
    "encrypt_and_hash C [] (mix_key C (c_dh C p k) (mix_hash C (c_public C p) (symmetric_new C k))) = Inr (tag, st)"
    "hello = CLIENT_MAGIC @ to_be_bytes (word_of_nat HANDSHAKE_MESSAGE_LEN :: u16) @ c_public C p @ tag"
    using assms by (auto simp: client_hello_def Let_def rbind_eq_Inr split: if_splits)
  then show ?thesis
    using web_encrypt_and_hash_of [OF t(2)] require_shared_of [OF t(1)]
    by (simp add: web_client_hello_def web_symmetric_new_of web_mix_hash_of web_mix_key_of HANDSHAKE_MESSAGE_LEN_def)
qed

lemma web_finish_of:
  assumes "client_finish C p st input = Inr (s, rest)" "54 \<le> length received" "\<exists>more. input = received @ more"
  shows "web_finish C p (web_symmetric_of st) received = Inr (web_cipher_of (s_seal s), web_cipher_of (s_open s), s_hash s)"
    and "rest = drop 54 input"
proof -
  obtain e tag st' where f: "input = SERVER_MAGIC @ to_be_bytes (word_of_nat HANDSHAKE_MESSAGE_LEN :: u16) @ e @ tag @ rest"
    "length e = 32" "length tag = 16"
    "decrypt_and_hash C tag (mix_key C (c_dh C p e) (mix_hash C e st)) = Inr ([], st')"
    "s = \<lparr>s_seal = fst (split_keys C st'), s_open = snd (split_keys C st'), s_hash = ss_hash st'\<rparr>"
    "\<not> list_all (\<lambda>b. b = 0) (c_dh C p e)"
    by (rule client_finish_InrD [OF assms(1)])
  obtain more where more: "input = received @ more" using assms(3) by blast
  define hd where "hd = SERVER_MAGIC @ to_be_bytes (word_of_nat HANDSHAKE_MESSAGE_LEN :: u16) @ e @ tag"
  have lh: "length hd = 54" using f(2,3) by (simp add: hd_def magic_lengths)
  have "take 54 input = hd" using f(1) lh by (simp add: hd_def)
  then have "take 54 received = hd" using more assms(2) by simp
  then have r: "received = hd @ drop 54 received" by (metis append_take_drop_id)
  have slices: "take 4 received = SERVER_MAGIC" "take 2 (drop 4 received) = to_be_bytes (word_of_nat HANDSHAKE_MESSAGE_LEN :: u16)"
    "take 32 (drop 6 received) = e" "take 16 (drop 38 received) = tag"
    by (subst r; simp add: hd_def magic_lengths f(2,3))+
  show "web_finish C p (web_symmetric_of st) received = Inr (web_cipher_of (s_seal s), web_cipher_of (s_open s), s_hash s)"
    unfolding web_finish_def slices Let_def
    using web_decrypt_and_hash_of [OF f(4)] f(5,6)
    by (simp add: web_mix_hash_of web_mix_key_of web_split_of require_shared_def HANDSHAKE_MESSAGE_LEN_def)
  show "rest = drop 54 input" using f(1) lh by (simp add: hd_def)
qed

lemma read_loop_delivers:
  "(\<And>d. is_ok (next_seq d)) \<Longrightarrow> len \<le> length received + length (concat bodies) \<Longrightarrow>
    \<exists>used unused sequence'. bodies = used @ unused \<and> len \<le> length (received @ concat used)
      \<and> read_loop next_seq len (map Inr bodies) received sequence = Some (Inr (), map Inr unused, received @ concat used, sequence')"
proof (induction bodies arbitrary: received sequence)
  case Nil
  then show ?case by (auto simp: read_loop.simps)
next
  case (Cons b bodies)
  show ?case
  proof (cases "len \<le> length received")
    case True
    then show ?thesis
      by (rule_tac x = "[]" in exI, rule_tac x = "b # bodies" in exI) (simp add: read_loop.simps)
  next
    case False
    obtain q where q: "next_seq sequence = Inr q" using Cons.prems(1) by (auto simp: is_ok_iff)
    obtain used unused sequence' where "bodies = used @ unused" "len \<le> length ((received @ b) @ concat used)"
      "read_loop next_seq len (map Inr bodies) (received @ b) q = Some (Inr (), map Inr unused, (received @ b) @ concat used, sequence')"
      using Cons.IH [of "received @ b" q] Cons.prems by auto
    then show ?thesis
      using False q
      by (rule_tac x = "b # used" in exI, rule_tac x = unused in exI)
        (simp add: read_loop.simps [of next_seq len "Inr b # _"])
  qed
qed

section \<open>Routes of the two clients\<close>

definition native_only_routes :: "(string \<times> string) list" where
  "native_only_routes = [(''GET'', ''/account/inactivity''), (''POST'', ''/account/inactivity'')]"

definition browser_only_routes :: "(string \<times> string) list" where
  "browser_only_routes = [(''GET'', ''/chats/folders''), (''POST'', ''/chats/folder'')]"

lemma native_table_in_browser:
  "list_all (\<lambda>(route, code). route \<in> set native_only_routes \<or> map_of wasm_operation_table route = Some code) operation_table"
  by code_simp

lemma browser_table_in_native:
  "list_all (\<lambda>(route, code). route \<in> set browser_only_routes \<or> map_of operation_table route = Some code) wasm_operation_table"
  by code_simp

lemma table_codes_distinct: "distinct (map snd operation_table)" "distinct (map snd wasm_operation_table)"
  by code_simp+

lemma native_only_unknown:
  "list_all (\<lambda>(m, p). is_ok (operation m p) \<and> \<not> is_ok (web_operation m p)) native_only_routes"
  by code_simp

lemma browser_only_unknown:
  "list_all (\<lambda>(m, p). is_ok (web_operation m p) \<and> \<not> is_ok (operation m p)) browser_only_routes"
  by code_simp

section \<open>The size of a record on the wire\<close>

lemma padded_len_limit: "padded_len base \<le> 17625 \<longleftrightarrow> base \<le> 17536"
proof (cases "base \<le> 1024")
  case True
  then show ?thesis using padded_len_bounds(2) [of base] by simp
next
  case False
  then have "padded_len base = (base + 127) div 128 * 128" by (simp add: padded_len_def const_defs)
  moreover have "(base + 127) div 128 < 138 \<longleftrightarrow> base + 127 < 138 * 128" by (rule div_less_iff_less_mult) simp
  ultimately show ?thesis by linarith
qed

lemma record_limit: "28 + padded_len (5 + n) \<le> MAX_GET_RECORD_BYTES \<longleftrightarrow> n \<le> 17531"
  using padded_len_limit [of "5 + n"] by (simp add: const_defs)

text \<open>A parameter for the examples: plain text for both base64 codecs, the CBOR of the native client, no compression.\<close>

definition toy_web :: web_env where
  "toy_web = \<lparr>c_sha256 = c_sha256 toy_crypto, c_hkdf = c_hkdf toy_crypto, c_encrypt = c_encrypt toy_crypto,
     c_encrypt_detached = c_encrypt_detached toy_crypto, c_decrypt = c_decrypt toy_crypto,
     c_public = c_public toy_crypto, c_dh = c_dh toy_crypto,
     w_std_encode = string_of_bytes, w_std_decode = (\<lambda>s. Some (as_bytes s)),
     w_url_encode = string_of_bytes, w_url_decode = (\<lambda>s. Some (as_bytes s)),
     w_cbor_encode = (\<lambda>j. case json_to_cbor j of Inl _ \<Rightarrow> None | Inr v \<Rightarrow> Some (encode_cbor v)),
     w_cbor_decode = (\<lambda>b. case decode_cbor b of Inl _ \<Rightarrow> None | Inr v \<Rightarrow> Some (cbor_to_json v)),
     w_inflate = (\<lambda>_ _. None)\<rparr>"

lemma toy_web_laws: "aead_laws toy_web" "hash_laws toy_web" "dh_laws toy_web"
  using toy_laws(1,2) toy_dh_laws
  by (simp_all add: aead_laws_def hash_laws_def dh_laws_def toy_web_def)

section \<open>Properties\<close>

text \<open>
  C33: on the key and nonce of a native cipher state the browser seals exactly the
  record the native client seals and opens what it opens.  After it the browser
  state is again the one of the native state, unless the native end rekeys
  after this record: then every further record the browser sends is rejected,
  since the browser code never rekeys.
\<close>

theorem web_record_interop:
  assumes "aead_laws C" "cipher_inv c" "cs_generation c \<noteq> - 1" "length payload \<le> MAX_TRANSPORT_PAYLOAD"
  shows "\<exists>r c'. seal_cipher C h 0 payload c = (Inr r, c') \<and> open_cipher C h r c = (Inr (Application payload), c')
    \<and> web_seal_record C h payload (web_cipher_of c) = (Inr r, (web_cipher_of c)\<lparr>wc_nonce := cs_nonce c + 1\<rparr>)
    \<and> web_open_record C h r (web_cipher_of c) = (Inr payload, (web_cipher_of c)\<lparr>wc_nonce := cs_nonce c + 1\<rparr>)
    \<and> (\<not> rekeys_after (length payload) c \<longrightarrow> web_cipher_of c' = (web_cipher_of c)\<lparr>wc_nonce := cs_nonce c + 1\<rparr>)
    \<and> (rekeys_after (length payload) c \<longrightarrow> (\<forall>p. length p \<le> MAX_TRANSPORT_PAYLOAD \<longrightarrow>
        (\<exists>r' w'. web_seal_record C h p ((web_cipher_of c)\<lparr>wc_nonce := cs_nonce c + 1\<rparr>) = (Inr r', w')
          \<and> open_cipher C h r' c' = (Inl (invalid_data ''MST5 encrypted record sequence mismatch''), c'))))"
proof -
  have ok: "sealable 0 payload" using assms(4) by (simp add: sealable_def)
  define c' where "c' = commit_spec C (padded_len (5 + length payload)) h c"
  obtain r where r: "seal_cipher C h 0 payload c = (Inr r, c')" "open_cipher C h r c = (Inr (Application payload), c')"
    by (rule seal_open_cipher [OF assms(1,2) ok assms(3), of h]) (simp add: c'_def record_of_def that)
  have "\<exists>r' w'. web_seal_record C h p ((web_cipher_of c)\<lparr>wc_nonce := cs_nonce c + 1\<rparr>) = (Inr r', w')
      \<and> open_cipher C h r' c' = (Inl (invalid_data ''MST5 encrypted record sequence mismatch''), c')"
    if again: "rekeys_after (length payload) c" "length p \<le> MAX_TRANSPORT_PAYLOAD" for p
  proof -
    let ?w = "(web_cipher_of c)\<lparr>wc_nonce := cs_nonce c + 1\<rparr>"
    have "length (wc_key ?w) = 32" using assms(2) by (simp add: cipher_inv_def web_cipher_of_def)
    then obtain r' where r': "web_seal_record C h p ?w = (Inr r', ?w\<lparr>wc_nonce := wc_nonce ?w + 1\<rparr>)"
      "take 8 r' = to_be_bytes (wc_nonce ?w)" "24 \<le> length r'" "length r' \<le> max_record_len"
      using web_seal_ok [OF assms(1) _ again(2), of ?w h] by blast
    have "from_be_bytes (take 8 r') \<noteq> cs_nonce c'"
      using commit_spec_web(2) [OF assms(2) again(1), of C h] by (simp add: r'(2) c'_def)
    then show ?thesis using r' stale_record_rejected [of r' c' C h] by (auto simp: TAG_LEN_def)
  qed
  then show ?thesis
    using r web_seal_matches [OF r(1)] web_open_matches [OF r(2)] commit_spec_web(1) [OF assms(2), of "length payload" C h]
    unfolding c'_def [symmetric] by blast
qed

theorem web_record_interop_witness:
  "\<exists>r w'. web_seal_record toy_crypto [] [7] (web_cipher_of ((cipher_new (replicate 32 1))\<lparr>cs_nonce := 0x3ffff\<rparr>)) = (Inr r, w')
    \<and> (\<exists>r' w'' c'. web_seal_record toy_crypto [] [8] w' = (Inr r', w'')
      \<and> open_cipher toy_crypto [] r' c' = (Inl (invalid_data ''MST5 encrypted record sequence mismatch''), c'))"
proof -
  let ?c = "(cipher_new (replicate 32 1))\<lparr>cs_nonce := 0x3ffff\<rparr>"
  have c: "cipher_inv ?c" "cs_generation ?c \<noteq> - 1" by (simp_all add: cipher_inv_def cipher_new_def)
  have "length [7 :: u8] \<le> MAX_TRANSPORT_PAYLOAD" "length [8 :: u8] \<le> MAX_TRANSPORT_PAYLOAD" "rekeys_after (length [7 :: u8]) ?c"
    by (simp_all add: const_defs rekeys_after_def cipher_new_def)
  with web_record_interop [OF toy_laws(1) c, of "[7]" "[]"] show ?thesis by blast
qed

text \<open>
  C34: the browser's own handshake code refines the native one.  Whatever the
  native handshake accepts from the server's bytes, the browser accepts however
  the mailbox slices these bytes; it sends the same handshake message and ends
  with the same keys and handshake hash, and no byte after the server's message
  is lost.
\<close>

theorem web_handshake_agreement:
  assumes "client_handshake E p key (concat bodies) = Inr (hello, s, rest)" "dh_laws E"
    "wn_inbox net = map Inr bodies" "wn_outcome net 1 = None" "w_url_decode E (mf_route t) = Some route"
  shows "\<exists>bs unused. web_handshake E p t tunnel_id key net = Some (Inr bs)
    \<and> bs_seal bs = web_cipher_of (s_seal s) \<and> bs_open bs = web_cipher_of (s_open s) \<and> bs_hash bs = s_hash s
    \<and> wn_sent (bs_net bs) = wn_sent net @ [(1, hello)]
    \<and> wn_inbox (bs_net bs) = map Inr unused \<and> bs_received bs @ concat unused = rest"
proof -
  obtain st where st: "client_hello E p key = Inr (hello, st)" "client_finish E p st (concat bodies) = Inr (s, rest)"
    using assms(1) by (auto simp: client_handshake_def rbind_eq_Inr)
  have hello: "length hello = 54"
    using st(1) assms(2)
    by (auto simp: client_hello_def Let_def rbind_eq_Inr dh_laws_def magic_lengths TAG_LEN_def split: if_splits)
  have up: "upstream_bytes E t 1 hello net = (Inr (), net\<lparr>wn_sent := wn_sent net @ [(1, hello)]\<rparr>)"
    using hello assms(4,5) by (simp add: upstream_bytes_def fetch_url_def const_defs ok_or_def)
  have "54 \<le> length (concat bodies)"
    by (rule client_finish_InrD [OF st(2)]) (simp add: magic_lengths)
  then obtain used unused d where rd: "bodies = used @ unused" "54 \<le> length (concat used)"
    "read_loop (\<lambda>d. Inr (d + 1)) 54 (map Inr bodies) [] 0 = Some (Inr (), map Inr unused, concat used, d)"
    using read_loop_delivers [of "\<lambda>d. Inr (d + 1)" 54 "[]" bodies 0] by auto
  have fin: "web_finish E p (web_symmetric_of st) (concat used) = Inr (web_cipher_of (s_seal s), web_cipher_of (s_open s), s_hash s)"
    "rest = drop 54 (concat bodies)"
    by (rule web_finish_of [OF st(2) rd(2)]; simp add: rd(1))+
  have "rest = drop 54 (concat used) @ concat unused" using fin(2) rd(1,2) by simp
  then show ?thesis
    using web_client_hello_of [OF st(1)] up rd(3) fin(1) assms(3) by (simp add: web_handshake_def)
qed

definition toy_fetch :: m5oh_fetch where
  "toy_fetch = \<lparr>mf_endpoint = ''https://cdn.example'', mf_route = ''route''\<rparr>"

definition toy_net :: "bytes js_result list \<Rightarrow> web_net" where
  "toy_net inbox = \<lparr>wn_inbox = inbox, wn_outcome = (\<lambda>_. None), wn_sent = []\<rparr>"

theorem web_handshake_agreement_witness:
  "\<exists>bodies hello s bs. length bodies = 2 \<and> client_handshake toy_web [1] (c_public toy_web [2]) (concat bodies) = Inr (hello, s, [9])
    \<and> web_handshake toy_web [1] toy_fetch ''tunnel'' (c_public toy_web [2]) (toy_net (map Inr bodies)) = Some (Inr bs)
    \<and> bs_seal bs = web_cipher_of (s_seal s) \<and> wn_sent (bs_net bs) = [(1, hello)]"
proof -
  have nz: "\<not> list_all (\<lambda>b. b = 0) (c_dh toy_web [1] (c_public toy_web [2]))"
    "\<not> list_all (\<lambda>b. b = 0) (c_dh toy_web [1] (c_public toy_web [3]))"
    by (simp_all add: toy_web_def toy_crypto_def)
  show ?thesis
  proof (rule handshake_with_responder [OF toy_web_laws nz])
    fix hello reply s
    assume "\<And>rest. client_handshake toy_web [1] (c_public toy_web [2]) (reply @ rest) = Inr (hello, s, rest)"
    then have run: "client_handshake toy_web [1] (c_public toy_web [2]) (concat [take 10 reply, drop 10 reply @ [9]]) = Inr (hello, s, [9])"
      by (metis append_assoc append_take_drop_id concat.simps append_Nil2)
    have "wn_inbox (toy_net (map Inr [take 10 reply, drop 10 reply @ [9]])) = map Inr [take 10 reply, drop 10 reply @ [9]]"
      "wn_outcome (toy_net (map Inr [take 10 reply, drop 10 reply @ [9]])) 1 = None"
      "w_url_decode toy_web (mf_route toy_fetch) = Some (as_bytes ''route'')"
      by (simp_all add: toy_net_def toy_fetch_def toy_web_def)
    from web_handshake_agreement [OF run toy_web_laws(3) this, of "''tunnel''"]
    obtain bs where "web_handshake toy_web [1] toy_fetch ''tunnel'' (c_public toy_web [2]) (toy_net (map Inr [take 10 reply, drop 10 reply @ [9]])) = Some (Inr bs)"
      "bs_seal bs = web_cipher_of (s_seal s)" "wn_sent (bs_net bs) = [(1, hello)]"
      by (auto simp: toy_net_def)
    moreover have "length [take 10 reply, drop 10 reply @ [9]] = 2" by simp
    ultimately show ?thesis using run by blast
  qed
qed

text \<open>
  C35: what the browser's record writer does with a frame.  A frame of at most 17531
  bytes (the largest whose padded record fits a GET target) is sent as one
  record, under the next upload number.  A larger one is refused, but only after
  the sealing counter has moved: nothing is sent, and every record the session
  seals afterwards is rejected by an end that has opened all earlier ones.
\<close>

theorem web_write_limit:
  assumes "aead_laws E" "bs_seal s = web_cipher_of c" "cipher_inv c" "cs_generation c \<noteq> - 1" "length f \<le> MAX_TRANSPORT_PAYLOAD"
    "w_url_decode E (mf_route (bs_transport s)) = Some route" "wn_outcome (bs_net s) (bs_upstream_seq s) = None"
    "unat (bs_upstream_seq s) + 1 < 2 ^ 64"
  shows "if length f \<le> 17531
    then \<exists>r c' s'. web_write_record E f s = Some (Inr (), s') \<and> open_cipher E (bs_hash s) r c = (Inr (Application f), c')
      \<and> wn_sent (bs_net s') = wn_sent (bs_net s) @ [(bs_upstream_seq s, to_be_bytes (word_of_nat (length r) :: u32) @ r)]
      \<and> bs_upstream_seq s' = bs_upstream_seq s + 1
    else \<exists>s'. web_write_record E f s = Some (Inl ''M5oH encrypted GET record exceeds CDN limit'', s') \<and> bs_net s' = bs_net s
      \<and> (\<forall>p. length p \<le> MAX_TRANSPORT_PAYLOAD \<longrightarrow> (\<exists>r w'. web_seal_record E (bs_hash s) p (bs_seal s') = (Inr r, w')
          \<and> open_cipher E (bs_hash s) r c = (Inl (invalid_data ''MST5 encrypted record sequence mismatch''), c)))"
proof -
  have ok: "sealable 0 f" using assms(5) by (simp add: sealable_def)
  have key: "length (wc_key (bs_seal s)) = 32" using assms(2,3) by (simp add: cipher_inv_def web_cipher_of_def)
  obtain r c' where r: "seal_cipher E (bs_hash s) 0 f c = (Inr r, c')" "open_cipher E (bs_hash s) r c = (Inr (Application f), c')"
    by (rule seal_open_cipher [OF assms(1,3) ok assms(4), of "bs_hash s"]) (simp add: record_of_def that)
  define w where "w = (bs_seal s)\<lparr>wc_nonce := cs_nonce c + 1\<rparr>"
  have sealed: "web_seal_record E (bs_hash s) f (bs_seal s) = (Inr r, w)"
    using web_seal_matches [OF r(1)] by (simp add: assms(2) w_def)
  have len: "length r = 24 + padded_len (5 + length f)"
    using web_seal_ok [OF assms(1) key assms(5), of "bs_hash s"] sealed by auto
  let ?wire = "to_be_bytes (word_of_nat (length r) :: u32) @ r"
  have wire: "length ?wire \<le> MAX_GET_RECORD_BYTES \<longleftrightarrow> length f \<le> 17531"
    using record_limit [of "length f"] by (simp add: len)
  show ?thesis
  proof (cases "length f \<le> 17531")
    case True
    have "length ?wire > 0" by simp
    then have "upstream_bytes E (bs_transport s) (bs_upstream_seq s) ?wire (bs_net s)
        = (Inr (), (bs_net s)\<lparr>wn_sent := wn_sent (bs_net s) @ [(bs_upstream_seq s, ?wire)]\<rparr>)"
      using wire True assms(6,7) by (simp add: upstream_bytes_def fetch_url_def ok_or_def)
    then show ?thesis
      using True r(2) sealed assms(8) by (auto simp: web_write_record_def checked_add_def)
  next
    case False
    have "\<exists>r w'. web_seal_record E (bs_hash s) p w = (Inr r, w')
        \<and> open_cipher E (bs_hash s) r c = (Inl (invalid_data ''MST5 encrypted record sequence mismatch''), c)"
      if p: "length p \<le> MAX_TRANSPORT_PAYLOAD" for p
    proof -
      have "length (wc_key w) = 32" using key by (simp add: w_def)
      from web_seal_ok [OF assms(1) this p, of "bs_hash s"] obtain r' w' where
        r': "web_seal_record E (bs_hash s) p w = (Inr r', w')" "take 8 r' = to_be_bytes (wc_nonce w)" "24 \<le> length r'" "length r' \<le> max_record_len"
        by blast
      have "from_be_bytes (take 8 r') \<noteq> cs_nonce c" by (simp add: r'(2) w_def)
      then show ?thesis using r' stale_record_rejected [of r' c E "bs_hash s"] by (auto simp: TAG_LEN_def)
    qed
    then show ?thesis
      using False wire sealed by (simp add: web_write_record_def upstream_bytes_def)
  qed
qed

theorem web_write_limit_witness:
  "\<exists>s s'. web_write_record toy_web (replicate 17532 0) s = Some (Inl ''M5oH encrypted GET record exceeds CDN limit'', s')
    \<and> wn_sent (bs_net s') = []
    \<and> (\<exists>r w'. web_seal_record toy_web [] [8] (bs_seal s') = (Inr r, w')
        \<and> \<not> is_ok (fst (open_cipher toy_web [] r (cipher_new (replicate 32 1)))))"
proof -
  let ?c = "cipher_new (replicate 32 1)"
  let ?s = "\<lparr>bs_transport = toy_fetch, bs_tunnel_id = ''tunnel'', bs_upstream_seq = 2, bs_downstream_seq = 1, bs_received = [],
    bs_seal = web_cipher_of ?c, bs_open = web_cipher_of ?c, bs_hash = [], bs_next_request = 1, bs_net = toy_net []\<rparr>"
  have h: "bs_seal ?s = web_cipher_of ?c" "cipher_inv ?c" "cs_generation ?c \<noteq> - 1"
    "length (replicate 17532 (0 :: u8)) \<le> MAX_TRANSPORT_PAYLOAD"
    "w_url_decode toy_web (mf_route (bs_transport ?s)) = Some (as_bytes ''route'')"
    "wn_outcome (bs_net ?s) (bs_upstream_seq ?s) = None" "unat (bs_upstream_seq ?s) + 1 < 2 ^ 64"
    by (simp_all add: cipher_inv_def cipher_new_def const_defs toy_net_def toy_fetch_def toy_web_def)
  have "length [8 :: u8] \<le> MAX_TRANSPORT_PAYLOAD" by (simp add: const_defs)
  with web_write_limit [OF toy_web_laws(1) h]
  obtain s' r w' where "web_write_record toy_web (replicate 17532 0) ?s = Some (Inl ''M5oH encrypted GET record exceeds CDN limit'', s')"
    "bs_net s' = toy_net []" "web_seal_record toy_web [] [8] (bs_seal s') = (Inr r, w')"
    "\<not> is_ok (fst (open_cipher toy_web [] r ?c))"
    by force
  then show ?thesis by (intro exI conjI) (assumption | simp add: toy_net_def)+
qed

text \<open>
  C36: the routes of the two messenger cores.  The browser's table and the native
  one give every route the same operation code, and a code never serves two
  routes, but for four routes: the native client alone knows the two of
  \<open>/account/inactivity\<close>, the browser alone the two of chat folders.
\<close>

theorem operation_tables_agree:
  "(operation m p = Inr c \<and> (m, p) \<notin> set native_only_routes \<longleftrightarrow> web_operation m p = Inr c \<and> (m, p) \<notin> set browser_only_routes)
   \<and> list_all (\<lambda>(m, p). is_ok (operation m p) \<and> \<not> is_ok (web_operation m p)) native_only_routes
   \<and> list_all (\<lambda>(m, p). is_ok (web_operation m p) \<and> \<not> is_ok (operation m p)) browser_only_routes
   \<and> distinct (map snd operation_table) \<and> distinct (map snd wasm_operation_table)"
proof (intro conjI table_codes_distinct)
  have "web_operation m p = Inr c" if "operation m p = Inr c" "(m, p) \<notin> set native_only_routes"
  proof -
    have "((m, p), c) \<in> set operation_table"
      using that(1) by (auto simp: operation_def ok_or_def split: option.splits dest!: map_of_SomeD)
    then have "map_of wasm_operation_table (m, p) = Some c"
      using that(2) native_table_in_browser by (auto simp: list_all_iff)
    then show ?thesis by (simp add: web_operation_def ok_or_def)
  qed
  moreover have "operation m p = Inr c" if "web_operation m p = Inr c" "(m, p) \<notin> set browser_only_routes"
  proof -
    have "((m, p), c) \<in> set wasm_operation_table"
      using that(1) by (auto simp: web_operation_def ok_or_def split: option.splits dest!: map_of_SomeD)
    then have "map_of operation_table (m, p) = Some c"
      using that(2) browser_table_in_native by (auto simp: list_all_iff)
    then show ?thesis by (simp add: operation_def ok_or_def)
  qed
  moreover have "\<not> is_ok (web_operation m p)" if "(m, p) \<in> set native_only_routes" for m p
    using that native_only_unknown by (auto simp: list_all_iff)
  moreover have "\<not> is_ok (operation m p)" if "(m, p) \<in> set browser_only_routes" for m p
    using that browser_only_unknown by (auto simp: list_all_iff)
  ultimately show "operation m p = Inr c \<and> (m, p) \<notin> set native_only_routes
      \<longleftrightarrow> web_operation m p = Inr c \<and> (m, p) \<notin> set browser_only_routes"
    by (metis is_ok_iff)
qed (fact native_only_unknown browser_only_unknown)+

end
