(* ===== verification/Media_Transfer.thy ===== *)
theory Media_Transfer
  imports Messenger
begin

text \<open>
  The media transfers of \<open>Client\<close> in \<open>src/lib.rs\<close>: plain, resumable and encrypted
  uploads, plain and encrypted downloads.  A transfer owns one stream of the
  connection; \<open>stream_io\<close> holds what the stream's receiver will deliver, which of
  the coming sends fail, and what has been sent.  A source is the list of the
  pieces its reads can return (an empty piece or the end of the list is the end
  of the file), a target the bytes written so far and the failures of its writes.
\<close>

section \<open>Streams, sources and targets\<close>

definition TRANSFER_CHUNK :: nat where [const_defs]: "TRANSFER_CHUNK = 256 * 1024"

record stream_io =
  io_id :: u64
  io_replies :: "frame result list"
  io_faults :: "io_error option list"
  io_sent :: "(u8 \<times> u16 \<times> bytes) list"
  io_active :: bool

type_synonym 'a io_op = "stream_io \<Rightarrow> 'a result \<times> stream_io"

definition tlift :: "'a result \<Rightarrow> 'a io_op" where
  "tlift r io = (r, io)"

definition tbind :: "'a io_op \<Rightarrow> ('a \<Rightarrow> 'b io_op) \<Rightarrow> 'b io_op" where
  "tbind m f io = (case m io of (Inl e, io) \<Rightarrow> (Inl e, io) | (Inr x, io) \<Rightarrow> f x io)"

text \<open>A wait ends with a frame, the error of the connection, or the timeout; a final frame ends the stream.\<close>

definition io_recv :: "frame io_op" where
  "io_recv io = (case io_replies io of
      [] \<Rightarrow> (Inl (IoError TimedOut ''MST5 request timed out''), io)
    | Inl e # rs \<Rightarrow> (Inl e, io\<lparr>io_replies := rs, io_active := io_active io \<and> err_kind e = TimedOut\<rparr>)
    | Inr f # rs \<Rightarrow> (Inr f, io\<lparr>io_replies := rs, io_active := io_active io \<and> \<not> is_terminal_response (f_kind f)\<rparr>))"

definition io_send :: "u8 \<Rightarrow> u16 \<Rightarrow> bytes \<Rightarrow> unit io_op" where
  "io_send knd code payload io = (case io_faults io of
      Some e # faults \<Rightarrow> (Inl e, io\<lparr>io_faults := faults\<rparr>)
    | faults \<Rightarrow> (Inr (), io\<lparr>io_faults := tl faults, io_sent := io_sent io @ [(knd, code, payload)]\<rparr>))"

definition io_remove :: "stream_io \<Rightarrow> stream_io" where
  "io_remove io = io\<lparr>io_active := False\<rparr>"

definition io_abort :: "u16 \<Rightarrow> stream_io \<Rightarrow> stream_io" where
  "io_abort status io = (if \<not> io_active io then io else io_remove (snd (io_send kind_STREAM_ABORT status [] io)))"

text \<open>One read of a source into a buffer of \<open>k\<close> bytes.\<close>

fun source_read :: "nat \<Rightarrow> bytes result list \<Rightarrow> bytes result \<times> bytes result list" where
  "source_read k [] = (Inr [], [])"
| "source_read k (Inl e # rest) = (Inl e, rest)"
| "source_read k (Inr b # rest) = (Inr (take k b), if length b \<le> k then rest else Inr (drop k b) # rest)"

fun source_size :: "bytes result list \<Rightarrow> nat" where
  "source_size [] = 0"
| "source_size (Inl e # rest) = source_size rest"
| "source_size (Inr b # rest) = length b + source_size rest"

lemma source_read_size: "source_read k src = (Inr b, src') \<Longrightarrow> b \<noteq> [] \<Longrightarrow> source_size src' < source_size src"
  by (induction k src rule: source_read.induct) (auto split: if_splits)

record media_target =
  tg_bytes :: bytes
  tg_faults :: "(nat \<times> io_error) option list"
  tg_flush :: "io_error option"

definition target_write :: "bytes \<Rightarrow> media_target \<Rightarrow> unit result \<times> media_target" where
  "target_write b t = (case tg_faults t of
      Some (n, e) # faults \<Rightarrow> (Inl e, t\<lparr>tg_bytes := tg_bytes t @ take n b, tg_faults := faults\<rparr>)
    | faults \<Rightarrow> (Inr (), t\<lparr>tg_bytes := tg_bytes t @ b, tg_faults := tl faults\<rparr>))"

section \<open>Opening a stream\<close>

definition media_ready :: "client \<Rightarrow> bool" where
  "media_ready c \<longleftrightarrow> is_authenticated c \<and> sh_features (cl_server_hello c) AND FEATURE_MEDIA_STREAMS \<noteq> 0"

abbreviation media_denied :: io_error where
  "media_denied \<equiv> IoError PermissionDenied ''media client is not authenticated''"

definition stream_open :: "u16 \<Rightarrow> Value \<Rightarrow> io_error \<Rightarrow> frame io_op" where
  "stream_open code body rejected io =
    tbind io_recv (\<lambda>accepted io.
      if f_id accepted \<noteq> io_id io \<or> f_kind accepted \<noteq> kind_ACK \<or> f_code accepted \<noteq> 100
      then (Inl rejected, io_remove io) else (Inr accepted, io))
    (io\<lparr>io_sent := io_sent io @ [(kind_STREAM_OPEN, code, encode_cbor body)]\<rparr>)"

text \<open>\<open>opened\<close> is the outcome of \<open>Mst5Connection::begin\<close>; without a stream nothing is sent.\<close>

definition with_stream :: "client \<Rightarrow> 'a io_op \<Rightarrow> stream_io result \<Rightarrow> 'a result \<times> stream_io option" where
  "with_stream c run opened =
    (if \<not> media_ready c then (Inl media_denied, None)
     else case opened of Inl e \<Rightarrow> (Inl e, None) | Inr io \<Rightarrow> (case run io of (r, io) \<Rightarrow> (r, Some io)))"

section \<open>Uploads\<close>

function send_source :: "u64 \<Rightarrow> bytes result list \<Rightarrow> u64 \<Rightarrow> bytes \<Rightarrow> (u64 \<times> bytes) io_op" where
  "send_source total_size src sent hashed io = (case source_read TRANSFER_CHUNK src of
      (Inl e, _) \<Rightarrow> (Inl e, io_abort 500 io)
    | (Inr b, src') \<Rightarrow>
        if b = [] then (Inr (sent, hashed), io)
        else let sent = saturating_add sent (word_of_nat (length b)) in
        if sent > total_size then (Inl (invalid_data ''media source exceeds declared size''), io_abort 400 io)
        else case io_send kind_STREAM_DATA 0 b io of
          (Inl e, io) \<Rightarrow> (Inl e, io_abort 500 io)
        | (Inr _, io) \<Rightarrow> send_source total_size src' sent (hashed @ b) io)"
  by pat_completeness auto
termination
  by (relation "measure (\<lambda>(_, src, _). source_size src)") (auto dest: source_read_size [OF sym])

definition finish_upload :: "Value \<Rightarrow> unit io_op" where
  "finish_upload body =
    tbind (io_send kind_STREAM_END 200 (encode_cbor body)) (\<lambda>_.
    tbind io_recv (\<lambda>f.
    let r = response_from_frame f in
    tlift (if rs_kind r \<noteq> kind_RESULT \<or> rs_status r \<noteq> 200 then rbind (into_result r) (\<lambda>_. Inr ()) else Inr ())))"

abbreviation upload_rejected :: io_error where
  "upload_rejected \<equiv> IoError PermissionDenied ''media upload rejected''"

abbreviation source_short :: io_error where
  "source_short \<equiv> IoError UnexpectedEof ''media source is shorter than declared size''"

definition upload_media ::
    "'a crypto_scheme \<Rightarrow> client \<Rightarrow> string \<Rightarrow> u64 \<Rightarrow> bytes result list \<Rightarrow> stream_io result \<Rightarrow> unit result \<times> stream_io option" where
  "upload_media C c file_id total_size src = with_stream c
    (tbind (stream_open media_op_UPLOAD (Map [(''file_id'', Text file_id), (''size'', Unsigned total_size)]) upload_rejected) (\<lambda>_.
     tbind (send_source total_size src 0 []) (\<lambda>(sent, hashed).
     if sent \<noteq> total_size then (\<lambda>io. (Inl source_short, io_abort 400 io))
     else finish_upload (Map [(''size'', Unsigned sent), (''sha256'', Text (media_hex (c_sha256 C hashed)))]))))"

definition is_ascii_hexdigit :: "byte \<Rightarrow> bool" where
  "is_ascii_hexdigit b \<longleftrightarrow> 48 \<le> b \<and> b \<le> 57 \<or> 65 \<le> b \<and> b \<le> 70 \<or> 97 \<le> b \<and> b \<le> 102"

definition upload_media_resumable ::
    "client \<Rightarrow> string \<Rightarrow> u64 \<Rightarrow> u64 \<Rightarrow> string \<Rightarrow> bytes result list \<Rightarrow> stream_io result \<Rightarrow> unit result \<times> stream_io option" where
  "upload_media_resumable c file_id total_size offset sha256 src opened =
    (if offset > total_size \<or> length sha256 \<noteq> 64 \<or> \<not> list_all is_ascii_hexdigit (as_bytes sha256)
     then (Inl (invalid_data ''invalid resumable upload checkpoint''), None)
     else with_stream c
    (tbind (stream_open media_op_UPLOAD
        (Map [(''file_id'', Text file_id), (''size'', Unsigned total_size), (''offset'', Unsigned offset)]) upload_rejected) (\<lambda>accepted.
     tbind (tlift (decode_cbor (f_payload accepted))) (\<lambda>v.
     if unwrap_or (get_u64 v ''offset'') offset \<noteq> offset
     then (\<lambda>io. (Inl (invalid_data ''media node checkpoint mismatch''), io_remove io))
     else tbind (send_source total_size src offset []) (\<lambda>(sent, _).
     if sent \<noteq> total_size then (\<lambda>io. (Inl source_short, io_abort 400 io))
     else finish_upload (Map [(''size'', Unsigned total_size), (''sha256'', Text sha256)]))))) opened)"

text \<open>The encrypted upload: every read is one chunk of the encryptor.\<close>

function seal_source ::
    "'a e2e_crypto_scheme \<Rightarrow> bytes result list \<Rightarrow> media_encryptor \<Rightarrow> u64 \<Rightarrow> bytes \<Rightarrow> (media_encryptor \<times> u64 \<times> bytes) io_op" where
  "seal_source E src enc sent hashed io = (case source_read MEDIA_CHUNK_SIZE src of
      (Inl e, _) \<Rightarrow> (Inl e, io_abort 500 io)
    | (Inr b, src') \<Rightarrow>
        if b = [] then (Inr (enc, sent, hashed), io)
        else case seal_chunk E b enc of
          (Inl e, _) \<Rightarrow> (Inl e, io)
        | (Inr encrypted, enc) \<Rightarrow> (case checked_add sent (word_of_nat (length encrypted)) of
            None \<Rightarrow> (Inl (invalid_data ''E2E media upload size overflow''), io)
          | Some sent \<Rightarrow> (case io_send kind_STREAM_DATA 0 encrypted io of
              (Inl e, io) \<Rightarrow> (Inl e, io_abort 500 io)
            | (Inr _, io) \<Rightarrow> seal_source E src' enc sent (hashed @ encrypted) io)))"
  by pat_completeness auto
termination
  by (relation "measure (\<lambda>(_, src, _). source_size src)") (auto dest: source_read_size [OF sym])

definition upload_media_e2e_with_encryptor ::
    "'a e2e_crypto_scheme \<Rightarrow> client \<Rightarrow> string \<Rightarrow> u64 \<Rightarrow> bytes result list \<Rightarrow> media_encryptor \<Rightarrow> stream_io result
     \<Rightarrow> unit result \<times> stream_io option" where
  "upload_media_e2e_with_encryptor E c file_id plaintext_size src enc opened =
    (case encrypted_media_size plaintext_size of
       Inl e \<Rightarrow> (Inl e, None)
     | Inr encrypted_size \<Rightarrow> with_stream c
    (tbind (stream_open media_op_UPLOAD (Map [(''file_id'', Text file_id), (''size'', Unsigned encrypted_size)]) upload_rejected) (\<lambda>_.
     let header = media_header (mx_size enc) (mx_prefix enc) in
     tbind (\<lambda>io. case io_send kind_STREAM_DATA 0 header io of (Inl e, io) \<Rightarrow> (Inl e, io_abort 500 io) | r \<Rightarrow> r) (\<lambda>_.
     tbind (seal_source E src enc (word_of_nat (length header)) header) (\<lambda>(enc, sent, hashed) io.
     case media_encryptor_finish enc of
       Inl e \<Rightarrow> (Inl e, io_abort 400 io)
     | Inr _ \<Rightarrow>
        if sent \<noteq> encrypted_size then (Inl (invalid_data ''E2E media ciphertext size mismatch''), io_abort 500 io)
        else finish_upload (Map [(''size'', Unsigned sent), (''sha256'', Text (media_hex (c_sha256 E hashed)))]) io)))) opened)"

definition upload_media_e2e ::
    "'a e2e_crypto_scheme \<Rightarrow> bytes option \<Rightarrow> client \<Rightarrow> string \<Rightarrow> u64 \<Rightarrow> bytes result list \<Rightarrow> identity \<Rightarrow> bytes \<Rightarrow> string \<Rightarrow> string
     \<Rightarrow> stream_io result \<Rightarrow> unit result \<times> stream_io option" where
  "upload_media_e2e E random c file_id plaintext_size src idn peer_public from_id to_id opened =
    (case identity_media_encryptor E random idn peer_public from_id to_id file_id plaintext_size of
       Inl e \<Rightarrow> (Inl e, None)
     | Inr enc \<Rightarrow> upload_media_e2e_with_encryptor E c file_id plaintext_size src enc opened)"

definition upload_media_e2e_with_key ::
    "'a e2e_crypto_scheme \<Rightarrow> bytes option \<Rightarrow> client \<Rightarrow> string \<Rightarrow> u64 \<Rightarrow> bytes result list \<Rightarrow> bytes \<Rightarrow> bytes
     \<Rightarrow> stream_io result \<Rightarrow> unit result \<times> stream_io option" where
  "upload_media_e2e_with_key E random c file_id plaintext_size src key file_aad opened =
    (case media_encryptor_new random key file_aad plaintext_size of
       Inl e \<Rightarrow> (Inl e, None)
     | Inr enc \<Rightarrow> upload_media_e2e_with_encryptor E c file_id plaintext_size src enc opened)"

section \<open>Downloads\<close>

abbreviation download_rejected :: io_error where
  "download_rejected \<equiv> IoError NotFound ''media download rejected''"

text \<open>Both downloads open the stream alike and compare the announced size.\<close>

definition open_download :: "string \<Rightarrow> u64 \<Rightarrow> u64 io_op" where
  "open_download file_id expected =
    tbind (stream_open media_op_DOWNLOAD (Map [(''file_id'', Text file_id)]) download_rejected) (\<lambda>accepted.
    tbind (tlift (rbind (decode_cbor (f_payload accepted)) (\<lambda>v. ok_or (get_u64 v ''size'') (invalid_data ''media node omitted size''))))
      (\<lambda>announced io.
    if announced \<noteq> expected then (Inl (invalid_data ''media size changed''), io_abort 409 io) else (Inr announced, io)))"

definition end_matches :: "'a crypto_scheme \<Rightarrow> u64 \<Rightarrow> u64 \<Rightarrow> bytes \<Rightarrow> Value \<Rightarrow> bool" where
  "end_matches C announced received hashed v \<longleftrightarrow> received = announced \<and> get_u64 v ''size'' = Some received
     \<and> get_str v ''sha256'' = Some (media_hex (c_sha256 C hashed))"

lemma io_recv_shorter: "io_recv io = (Inr f, io') \<Longrightarrow> length (io_replies io') < length (io_replies io)"
  by (auto simp: io_recv_def split: list.splits sum.splits)

lemma terminal_kinds [simp]:
  "\<not> is_terminal_response kind_ACK" "\<not> is_terminal_response kind_STREAM_DATA"
  "is_terminal_response kind_STREAM_END" "is_terminal_response kind_RESULT" "is_terminal_response kind_STREAM_ABORT"
  by (simp_all add: is_terminal_response_def const_defs)

function receive_media :: "'a crypto_scheme \<Rightarrow> u64 \<Rightarrow> u64 \<Rightarrow> bytes \<Rightarrow> media_target \<Rightarrow> stream_io \<Rightarrow> u64 result \<times> media_target \<times> stream_io" where
  "receive_media C announced received hashed t io = (case io_recv io of
      (Inl e, io) \<Rightarrow> (Inl e, t, io)
    | (Inr f, io) \<Rightarrow>
        let payload = f_payload f in
        if f_id f \<noteq> io_id io then (Inl (invalid_data ''media stream id mismatch''), t, io)
        else if f_kind f = kind_STREAM_DATA then
          (if payload = [] \<or> length payload > TRANSFER_CHUNK then (Inl (invalid_data ''invalid media chunk''), t, io)
           else case target_write payload t of
             (Inl e, t) \<Rightarrow> (Inl e, t, io_abort 500 io)
           | (Inr _, t) \<Rightarrow>
               let received = received + word_of_nat (length payload) in
               if received > announced then (Inl (invalid_data ''media exceeds announced size''), t, io)
               else receive_media C announced received (hashed @ payload) t io)
        else if f_kind f = kind_STREAM_END then
          (case decode_cbor payload of
             Inl e \<Rightarrow> (Inl e, t, io)
           | Inr v \<Rightarrow>
               if \<not> end_matches C announced received hashed v
               then (Inl (invalid_data ''media download checksum mismatch''), t, io)
               else case tg_flush t of Some e \<Rightarrow> (Inl e, t, io_abort 500 io) | None \<Rightarrow> (Inr received, t, io))
        else if f_kind f = kind_ERROR then
          (rbind (decode_cbor payload) (\<lambda>v. Inl (api_response_error (f_code f) v)), t, io)
        else (Inl (invalid_data ''unexpected media download frame''), t, io))"
  by pat_completeness auto
termination
  by (relation "measure (\<lambda>(_, _, _, _, _, io). length (io_replies io))") (auto dest: io_recv_shorter [OF sym])

definition download_media ::
    "'a crypto_scheme \<Rightarrow> client \<Rightarrow> string \<Rightarrow> u64 \<Rightarrow> media_target \<Rightarrow> stream_io result \<Rightarrow> u64 result \<times> media_target \<times> stream_io option" where
  "download_media C c file_id expected t opened =
    (case with_stream c (open_download file_id expected) opened of
       (Inl e, io) \<Rightarrow> (Inl e, t, io)
     | (Inr announced, None) \<Rightarrow> (Inr announced, t, None)
     | (Inr announced, Some io) \<Rightarrow> (case receive_media C announced 0 [] t io of (r, t, io) \<Rightarrow> (r, t, Some io)))"

fun write_chunks :: "bytes list \<Rightarrow> u64 \<Rightarrow> media_target \<Rightarrow> u64 result \<times> media_target" where
  "write_chunks [] plaintext t = (Inr plaintext, t)"
| "write_chunks (b # bs) plaintext t = (case target_write b t of
      (Inl e, t) \<Rightarrow> (Inl e, t)
    | (Inr _, t) \<Rightarrow> write_chunks bs (plaintext + word_of_nat (length b)) t)"

function receive_e2e ::
    "'a e2e_crypto_scheme \<Rightarrow> u64 \<Rightarrow> u64 \<Rightarrow> bytes \<Rightarrow> u64 \<Rightarrow> media_decryptor \<Rightarrow> media_target \<Rightarrow> stream_io
     \<Rightarrow> u64 result \<times> media_target \<times> stream_io" where
  "receive_e2e E announced received hashed plaintext d t io = (case io_recv io of
      (Inl e, io) \<Rightarrow> (Inl e, t, io)
    | (Inr f, io) \<Rightarrow>
        let payload = f_payload f in
        if f_id f \<noteq> io_id io then (Inl (invalid_data ''media stream id mismatch''), t, io)
        else if f_kind f = kind_STREAM_DATA then
          (if payload = [] \<or> length payload > TRANSFER_CHUNK then (Inl (invalid_data ''invalid media chunk''), t, io)
           else case checked_add received (word_of_nat (length payload)) of
             None \<Rightarrow> (Inl (invalid_data ''media size overflow''), t, io)
           | Some received \<Rightarrow>
               if received > announced then (Inl (invalid_data ''media exceeds announced size''), t, io)
               else case media_push E payload d of
                 (Inl e, _) \<Rightarrow> (Inl e, t, io)
               | (Inr chunks, d) \<Rightarrow> (case write_chunks chunks plaintext t of
                   (Inl e, t) \<Rightarrow> (Inl e, t, io)
                 | (Inr plaintext, t) \<Rightarrow> receive_e2e E announced received (hashed @ payload) plaintext d t io))
        else if f_kind f = kind_STREAM_END then
          (case decode_cbor payload of
             Inl e \<Rightarrow> (Inl e, t, io)
           | Inr v \<Rightarrow>
               if \<not> end_matches E announced received hashed v
               then (Inl (invalid_data ''media download checksum mismatch''), t, io)
               else case media_decryptor_finish d of
                 Inl e \<Rightarrow> (Inl e, t, io)
               | Inr final_size \<Rightarrow>
                   if final_size \<noteq> plaintext then (Inl (invalid_data ''E2E media plaintext size mismatch''), t, io)
                   else case tg_flush t of Some e \<Rightarrow> (Inl e, t, io) | None \<Rightarrow> (Inr plaintext, t, io))
        else if f_kind f = kind_ERROR then
          (rbind (decode_cbor payload) (\<lambda>v. Inl (api_response_error (f_code f) v)), t, io)
        else (Inl (invalid_data ''unexpected media download frame''), t, io))"
  by pat_completeness auto
termination
  by (relation "measure (\<lambda>(_, _, _, _, _, _, _, io). length (io_replies io))") (auto dest: io_recv_shorter [OF sym])

definition download_media_e2e_with_decryptor ::
    "'a e2e_crypto_scheme \<Rightarrow> client \<Rightarrow> string \<Rightarrow> u64 \<Rightarrow> media_target \<Rightarrow> media_decryptor \<Rightarrow> stream_io result
     \<Rightarrow> u64 result \<times> media_target \<times> stream_io option" where
  "download_media_e2e_with_decryptor E c file_id expected t d opened =
    (case with_stream c (open_download file_id expected) opened of
       (Inl e, io) \<Rightarrow> (Inl e, t, io)
     | (Inr announced, None) \<Rightarrow> (Inr announced, t, None)
     | (Inr announced, Some io) \<Rightarrow> (case receive_e2e E announced 0 [] 0 d t io of (r, t, io) \<Rightarrow> (r, t, Some io)))"

definition download_media_e2e ::
    "'a e2e_crypto_scheme \<Rightarrow> client \<Rightarrow> string \<Rightarrow> u64 \<Rightarrow> media_target \<Rightarrow> identity \<Rightarrow> bytes \<Rightarrow> string \<Rightarrow> string \<Rightarrow> stream_io result
     \<Rightarrow> u64 result \<times> media_target \<times> stream_io option" where
  "download_media_e2e E c file_id expected t idn peer_public from_id to_id opened =
    (case identity_media_decryptor E idn peer_public from_id to_id file_id of
       Inl e \<Rightarrow> (Inl e, t, None)
     | Inr d \<Rightarrow> download_media_e2e_with_decryptor E c file_id expected t d opened)"

definition download_media_e2e_with_key ::
    "'a e2e_crypto_scheme \<Rightarrow> client \<Rightarrow> string \<Rightarrow> u64 \<Rightarrow> media_target \<Rightarrow> bytes \<Rightarrow> bytes \<Rightarrow> stream_io result
     \<Rightarrow> u64 result \<times> media_target \<times> stream_io option" where
  "download_media_e2e_with_key E c file_id expected t key file_aad opened =
    (case media_decryptor_new key file_aad of
       Inl e \<Rightarrow> (Inl e, t, None)
     | Inr d \<Rightarrow> download_media_e2e_with_decryptor E c file_id expected t d opened)"

definition download_group_media ::
    "'a e2e_crypto_scheme \<Rightarrow> (string \<Rightarrow> json option) \<Rightarrow> (json \<Rightarrow> string) \<Rightarrow> client \<Rightarrow> string \<Rightarrow> u64 \<Rightarrow> media_target
     \<Rightarrow> identity \<Rightarrow> bytes \<Rightarrow> string \<Rightarrow> string \<Rightarrow> string \<Rightarrow> stream_io result \<Rightarrow> u64 result \<times> media_target \<times> stream_io option" where
  "download_group_media E parse print c file_id expected t idn sender_key sender recipient raw opened =
    (case group_media_decryptor E parse print idn sender_key sender recipient raw of
       Inl e \<Rightarrow> (Inl e, t, None)
     | Inr d \<Rightarrow> download_media_e2e_with_decryptor E c file_id expected t d opened)"

declare send_source.simps [simp del] seal_source.simps [simp del] receive_media.simps [simp del] receive_e2e.simps [simp del]

section \<open>Specification\<close>

text \<open>The pieces a source is read in, and what a media node keeps of the frames it is sent.\<close>

function read_all :: "nat \<Rightarrow> bytes result list \<Rightarrow> bytes list result" where
  "read_all k src = (case source_read k src of
      (Inl e, _) \<Rightarrow> Inl e
    | (Inr b, src') \<Rightarrow> if b = [] then Inr [] else rbind (read_all k src') (\<lambda>bs. Inr (b # bs)))"
  by pat_completeness auto
termination
  by (relation "measure (\<lambda>(_, src). source_size src)") (auto dest: source_read_size [OF sym])

declare read_all.simps [simp del]

abbreviation data_entry :: "bytes \<Rightarrow> u8 \<times> u16 \<times> bytes" where
  "data_entry b \<equiv> (kind_STREAM_DATA, 0, b)"

definition stored_data :: "(u8 \<times> u16 \<times> bytes) list \<Rightarrow> bytes" where
  "stored_data sent = concat (map (\<lambda>(_, _, b). b) (filter (\<lambda>(k, _, _). k = kind_STREAM_DATA) sent))"

definition end_body :: "'a crypto_scheme \<Rightarrow> bytes \<Rightarrow> Value" where
  "end_body C bs = Map [(''size'', Unsigned (word_of_nat (length bs))), (''sha256'', Text (media_hex (c_sha256 C bs)))]"

definition node_frame :: "u8 \<Rightarrow> u16 \<Rightarrow> u64 \<Rightarrow> bytes \<Rightarrow> frame" where
  "node_frame knd code fid payload = \<lparr>f_kind = knd, f_flags = 0, f_code = code, f_id = fid, f_request_nonce = replicate 16 0,
     f_deadline_ms = 0, f_payload = payload\<rparr>"

definition serve :: "u64 \<Rightarrow> bytes list \<Rightarrow> bytes \<Rightarrow> frame result list" where
  "serve fid slices end_payload =
    Inr (node_frame kind_ACK 100 fid (encode_cbor (Map [(''size'', Unsigned (word_of_nat (length (concat slices))))])))
    # map (\<lambda>b. Inr (node_frame kind_STREAM_DATA 0 fid b)) slices @ [Inr (node_frame kind_STREAM_END 200 fid end_payload)]"

definition idle_stream :: "frame result list \<Rightarrow> u64 \<Rightarrow> stream_io" where
  "idle_stream replies fid = \<lparr>io_id = fid, io_replies = replies, io_faults = [], io_sent = [], io_active = True\<rparr>"

definition empty_target :: media_target where
  "empty_target = \<lparr>tg_bytes = [], tg_faults = [], tg_flush = None\<rparr>"

lemma node_frame_sel [simp]:
  "f_kind (node_frame knd code fid p) = knd" "f_code (node_frame knd code fid p) = code"
  "f_id (node_frame knd code fid p) = fid" "f_payload (node_frame knd code fid p) = p"
  by (simp_all add: node_frame_def)

section \<open>CBOR bodies\<close>

lemma utf8_valid_ascii: "list_all (\<lambda>b. unat b < 128) bs \<Longrightarrow> utf8_valid bs"
proof -
  have "list_all (\<lambda>b. unat b < 128) bs \<Longrightarrow> utf8_decode bs \<noteq> None"
  proof (induction bs)
    case (Cons b bs)
    then have "utf8_decode bs \<noteq> None" "utf8_next (b # bs) = Some (unat b, bs)" by (simp_all add: Let_def)
    then show ?case by (simp add: utf8_decode.simps [of "b # bs"] del: utf8_next.simps)
  qed (simp add: utf8_decode.simps)
  then show "list_all (\<lambda>b. unat b < 128) bs \<Longrightarrow> utf8_valid bs" by (simp add: utf8_valid_def)
qed

lemma hex_digit_ascii: "i < 16 \<Longrightarrow> unat (as_bytes ''0123456789abcdef'' ! i) < 128"
proof -
  have "list_all (\<lambda>i. unat (as_bytes ''0123456789abcdef'' ! i) < 128) [0..<16]" by code_simp
  then show "i < 16 \<Longrightarrow> unat (as_bytes ''0123456789abcdef'' ! i) < 128" by (simp only: list_all_iff) simp
qed

lemma media_hex_text: "utf8_valid (as_bytes (media_hex bs))" "length (media_hex bs) = 2 * length bs"
proof -
  show "utf8_valid (as_bytes (media_hex bs))"
    by (rule utf8_valid_ascii) (auto simp: media_hex_def list_all_iff hex_digit_ascii nibbles)
  show "length (media_hex bs) = 2 * length bs"
    by (simp add: media_hex_def length_concat comp_def sum_list_triv)
qed

lemma key_utf8: "utf8_valid (as_bytes ''size'')" "utf8_valid (as_bytes ''sha256'')"
  by code_simp+

lemma decode_size: "decode_cbor (encode_cbor (Map [(''size'', Unsigned n)])) = Inr (Map [(''size'', Unsigned n)])"
proof -
  have "length (encode_cbor (Map [(''size'', Unsigned n)])) \<le> 49" by (rule order.trans [OF encode_unsigned_map_length]) simp_all
  then show ?thesis using decode_encode_cbor [of "Map [(''size'', Unsigned n)]"] key_utf8 by (simp add: const_defs)
qed

lemma decode_end_body:
  assumes "hash_laws C"
  shows "decode_cbor (encode_cbor (end_body C bs)) = Inr (end_body C bs)"
proof -
  have h: "length (media_hex (c_sha256 C bs)) = 64" using assms by (simp add: media_hex_text hash_laws_def)
  have "length (encode_cbor (end_body C bs)) \<le> 9 + (13 + 9) + (15 + 73)"
    using encode_cbor_head_length [of 5 2] encode_cbor_head_length [of 3 4] encode_cbor_head_length [of 0 "word_of_nat (length bs)"]
      encode_cbor_head_length [of 3 6] encode_cbor_head_length [of 3 64] h
    by (simp add: encode_cbor_def end_body_def)
  then show ?thesis
    using decode_encode_cbor [of "end_body C bs"] key_utf8 media_hex_text(1) h by (simp add: const_defs end_body_def)
qed

section \<open>The sending loops\<close>

lemma source_read_chunk: "source_read k src = (Inr b, src') \<Longrightarrow> length b \<le> k"
  by (induction k src rule: source_read.induct) auto

lemma read_all_cases:
  assumes "read_all k src = Inr cs"
  obtains "cs = []" "\<exists>src'. source_read k src = (Inr [], src')"
  | b src' cs' where "cs = b # cs'" "source_read k src = (Inr b, src')" "b \<noteq> []" "length b \<le> k" "read_all k src' = Inr cs'"
  using assms by (subst (asm) read_all.simps)
    (auto simp: rbind_eq_Inr source_read_chunk split: prod.splits sum.splits if_splits)

lemma io_send_clear:
  "io_faults io = [] \<Longrightarrow> io_send knd code b io = (Inr (), io\<lparr>io_sent := io_sent io @ [(knd, code, b)]\<rparr>)"
  by (simp add: io_send_def)

lemma io_send_Inr:
  assumes "io_send knd code b io = (Inr u, io')"
  shows "io_sent io' = io_sent io @ [(knd, code, b)]" "io_replies io' = io_replies io" "io_id io' = io_id io"
  using assms by (auto simp: io_send_def split: list.splits option.splits)

lemma unat_small: "n \<le> TRANSFER_CHUNK \<Longrightarrow> unat (word_of_nat n :: u64) = n"
  by (simp add: unat_of_nat const_defs)

lemma send_source_run:
  assumes "read_all TRANSFER_CHUNK src = Inr cs" "io_faults io = []" "unat sent + length (concat cs) \<le> unat total_size"
  shows "send_source total_size src sent hashed io = (Inr (sent + word_of_nat (length (concat cs)), hashed @ concat cs),
    io\<lparr>io_sent := io_sent io @ map data_entry cs\<rparr>)"
  using assms
proof (induction cs arbitrary: src sent hashed io)
  case Nil
  then show ?case by (auto elim!: read_all_cases simp: send_source.simps)
next
  case (Cons b cs)
  from Cons.prems(1) obtain src' where r: "source_read TRANSFER_CHUNK src = (Inr b, src')" "b \<noteq> []" "length b \<le> TRANSFER_CHUNK"
    "read_all TRANSFER_CHUNK src' = Inr cs" by (rule read_all_cases) auto
  let ?io = "io\<lparr>io_sent := io_sent io @ [data_entry b]\<rparr>"
  have n: "unat sent + unat (word_of_nat (length b) :: u64) < 2 ^ 64"
    using Cons.prems(3) unsigned_less [of total_size, where 'a = nat] r(3) by (simp add: unat_small)
  have add: "saturating_add sent (word_of_nat (length b)) = sent + word_of_nat (length b)"
    "unat (sent + word_of_nat (length b)) = unat sent + length b"
    using n r(3) unat_add_lem [of sent "word_of_nat (length b)"] by (simp_all add: saturating_add_def unat_small)
  have "send_source total_size src sent hashed io = send_source total_size src' (sent + word_of_nat (length b)) (hashed @ b) ?io"
    using r add Cons.prems(2,3) by (subst send_source.simps) (simp add: io_send_clear word_less_nat_alt)
  also have "\<dots> = (Inr (sent + word_of_nat (length b) + word_of_nat (length (concat cs)), (hashed @ b) @ concat cs),
      ?io\<lparr>io_sent := io_sent ?io @ map data_entry cs\<rparr>)"
    by (rule Cons.IH [OF r(4)]) (use Cons.prems(2,3) add in simp_all)
  finally show ?case by (simp add: add.assoc)
qed

lemma send_source_Inr:
  assumes "send_source total_size src sent hashed io = (Inr (sent', hashed'), io')" "total_size \<noteq> - 1" "sent \<le> total_size"
  shows "\<exists>cs. read_all TRANSFER_CHUNK src = Inr cs \<and> unat sent' = unat sent + length (concat cs) \<and> hashed' = hashed @ concat cs
    \<and> io_sent io' = io_sent io @ map data_entry cs \<and> io_replies io' = io_replies io \<and> io_id io' = io_id io"
  using assms
proof (induction total_size src sent hashed io arbitrary: sent' hashed' io' rule: send_source.induct)
  case (1 total_size src sent hashed io)
  obtain b src' where r: "source_read TRANSFER_CHUNK src = (Inr b, src')"
    using "1.prems"(1) by (subst (asm) send_source.simps) (auto split: prod.splits sum.splits)
  show ?case
  proof (cases "b = []")
    case True
    with r "1.prems"(1) show ?thesis by (auto simp: send_source.simps read_all.simps)
  next
    case False
    let ?sent = "saturating_add sent (word_of_nat (length b))"
    obtain io1 where s: "\<not> total_size < ?sent" "io_send kind_STREAM_DATA 0 b io = (Inr (), io1)"
      "send_source total_size src' ?sent (hashed @ b) io1 = (Inr (sent', hashed'), io')"
      using "1.prems"(1) r False by (subst (asm) send_source.simps) (auto simp: Let_def split: prod.splits sum.splits if_splits)
    have "unat ?sent = min (unat sent + length b) (2 ^ 64 - 1)"
      using source_read_chunk [OF r] by (simp add: unat_saturating_add unat_small)
    moreover have "unat total_size < 2 ^ 64 - 1"
      using "1.prems"(2) unat_max_word [where ?'a = 64] unsigned_less [of total_size, where 'a = nat] by (simp add: word_unat_eq_iff)
    ultimately have add: "unat ?sent = unat sent + length b" using s(1) by (simp add: word_less_nat_alt)
    have le: "?sent \<le> total_size" using s(1) by simp
    obtain cs where cs: "read_all TRANSFER_CHUNK src' = Inr cs" "unat sent' = unat ?sent + length (concat cs)"
      "hashed' = (hashed @ b) @ concat cs" "io_sent io' = io_sent io1 @ map data_entry cs" "io_replies io' = io_replies io1" "io_id io' = io_id io1"
      using "1.IH" [OF r [symmetric] refl False refl s(1) s(2) [symmetric] refl s(3) "1.prems"(2) le] by auto
    have "read_all TRANSFER_CHUNK src = Inr (b # cs)" using r False cs(1) by (simp add: read_all.simps [of _ src])
    then show ?thesis using cs add io_send_Inr [OF s(2)] by simp
  qed
qed

lemma seal_source_run:
  assumes "read_all MEDIA_CHUNK_SIZE src = Inr cs" "io_faults io = []" "seal_chunks E cs enc = (Inr rs, enc')"
    "unat sent + length (concat rs) < 2 ^ 64" "list_all (\<lambda>r. length r < 2 ^ 64) rs"
  shows "seal_source E src enc sent hashed io = (Inr (enc', sent + word_of_nat (length (concat rs)), hashed @ concat rs),
    io\<lparr>io_sent := io_sent io @ map data_entry rs\<rparr>)"
  using assms
proof (induction cs arbitrary: src enc sent hashed io rs)
  case Nil
  then show ?case by (auto elim!: read_all_cases simp: seal_source.simps)
next
  case (Cons b cs)
  from Cons.prems(1) obtain src' where r: "source_read MEDIA_CHUNK_SIZE src = (Inr b, src')" "b \<noteq> []"
    "read_all MEDIA_CHUNK_SIZE src' = Inr cs" by (rule read_all_cases) auto
  obtain x enc1 xs where x: "seal_chunk E b enc = (Inr x, enc1)" "seal_chunks E cs enc1 = (Inr xs, enc')" "rs = x # xs"
    using Cons.prems(3) by (auto split: prod.splits sum.splits)
  let ?io = "io\<lparr>io_sent := io_sent io @ [data_entry x]\<rparr>"
  have ux: "unat (word_of_nat (length x) :: u64) = length x" using Cons.prems(5) x(3) by (simp add: unat_of_nat)
  have add: "checked_add sent (word_of_nat (length x)) = Some (sent + word_of_nat (length x))"
    "unat (sent + word_of_nat (length x)) = unat sent + length x"
    using checked_add_Some [of sent "word_of_nat (length x)"] Cons.prems(4) x(3) ux by simp_all
  have "seal_source E src enc sent hashed io = seal_source E src' enc1 (sent + word_of_nat (length x)) (hashed @ x) ?io"
    using r x(1) add(1) Cons.prems(2) by (subst seal_source.simps) (simp add: io_send_clear)
  also have "\<dots> = (Inr (enc', sent + word_of_nat (length x) + word_of_nat (length (concat xs)), (hashed @ x) @ concat xs),
      ?io\<lparr>io_sent := io_sent ?io @ map data_entry xs\<rparr>)"
    by (rule Cons.IH [OF r(3) _ x(2)]) (use Cons.prems(2,4,5) x(3) add(2) in simp_all)
  finally show ?case by (simp add: add.assoc x(3))
qed

section \<open>The receiving loops\<close>

lemma stream_open_run:
  assumes "io_replies io = Inr f # rest" "f_id f = io_id io" "f_kind f = kind_ACK" "f_code f = 100"
  shows "stream_open code body rejected io
    = (Inr f, io\<lparr>io_replies := rest, io_sent := io_sent io @ [(kind_STREAM_OPEN, code, encode_cbor body)]\<rparr>)"
  using assms by (simp add: stream_open_def tbind_def io_recv_def)

lemma stream_open_Inr:
  assumes "stream_open code body rejected io = (Inr f, io')"
  shows "io_replies io = Inr f # io_replies io'" "f_id f = io_id io" "f_kind f = kind_ACK" "f_code f = 100"
    "io_sent io' = io_sent io @ [(kind_STREAM_OPEN, code, encode_cbor body)]"
  using assms by (auto simp: stream_open_def tbind_def io_recv_def split: list.splits sum.splits if_splits)

lemma open_download_run:
  assumes "io_replies io = Inr (node_frame kind_ACK 100 (io_id io) (encode_cbor (Map [(''size'', Unsigned n)]))) # rest"
  shows "open_download file_id n io = (Inr n, io\<lparr>io_replies := rest,
    io_sent := io_sent io @ [(kind_STREAM_OPEN, media_op_DOWNLOAD, encode_cbor (Map [(''file_id'', Text file_id)]))]\<rparr>)"
  using stream_open_run [OF assms] unfolding open_download_def tbind_def [of "stream_open _ _ _"]
  by (simp add: tbind_def tlift_def decode_size get_u64_def ok_or_def)

lemma target_write_clear: "tg_faults t = [] \<Longrightarrow> target_write b t = (Inr (), t\<lparr>tg_bytes := tg_bytes t @ b\<rparr>)"
  by (simp add: target_write_def)

lemma write_chunks_run:
  "tg_faults t = [] \<Longrightarrow>
    write_chunks bs plaintext t = (Inr (plaintext + word_of_nat (length (concat bs))), t\<lparr>tg_bytes := tg_bytes t @ concat bs\<rparr>)"
  by (induction bs arbitrary: plaintext t) (simp_all add: target_write_clear add.assoc)

lemma receive_e2e_slices:
  assumes "io_replies io = map (\<lambda>b. Inr (node_frame kind_STREAM_DATA 0 (io_id io) b)) slices @ rest"
    "list_all (\<lambda>b. b \<noteq> [] \<and> length b \<le> TRANSFER_CHUNK) slices" "push_all E slices d = (Inr outs, d')" "tg_faults t = []"
    "unat received + length (concat slices) \<le> unat announced"
  shows "receive_e2e E announced received hashed plaintext d t io
    = receive_e2e E announced (received + word_of_nat (length (concat slices))) (hashed @ concat slices)
        (plaintext + word_of_nat (length (concat outs))) d' (t\<lparr>tg_bytes := tg_bytes t @ concat outs\<rparr>) (io\<lparr>io_replies := rest\<rparr>)"
  using assms
proof (induction slices arbitrary: received hashed plaintext d t io outs)
  case Nil
  then have rest: "rest = io_replies io" by simp
  show ?case using Nil.prems(3) unfolding rest by auto
next
  case (Cons b slices)
  obtain o1 d1 o2 where push: "media_push E b d = (Inr o1, d1)" "push_all E slices d1 = (Inr o2, d')" "outs = o1 @ o2"
    using Cons.prems(3) by (auto split: prod.splits sum.splits)
  let ?io = "io\<lparr>io_replies := map (\<lambda>b. Inr (node_frame kind_STREAM_DATA 0 (io_id io) b)) slices @ rest\<rparr>"
  let ?t = "t\<lparr>tg_bytes := tg_bytes t @ concat o1\<rparr>"
  have b: "b \<noteq> []" "length b \<le> TRANSFER_CHUNK" using Cons.prems(2) by simp_all
  have add: "checked_add received (word_of_nat (length b)) = Some (received + word_of_nat (length b))"
    "unat (received + word_of_nat (length b)) = unat received + length b"
    using checked_add_Some [of received "word_of_nat (length b)"] Cons.prems(5) b(2) unsigned_less [of announced, where 'a = nat]
    by (simp_all add: unat_small)
  have "receive_e2e E announced received hashed plaintext d t io
      = receive_e2e E announced (received + word_of_nat (length b)) (hashed @ b) (plaintext + word_of_nat (length (concat o1))) d1 ?t ?io"
    using Cons.prems(1,4,5) b add push(1)
    by (subst receive_e2e.simps) (simp add: io_recv_def word_less_nat_alt write_chunks_run del: length_concat)
  also have "\<dots> = receive_e2e E announced (received + word_of_nat (length b) + word_of_nat (length (concat slices)))
      ((hashed @ b) @ concat slices) (plaintext + word_of_nat (length (concat o1)) + word_of_nat (length (concat o2))) d'
      (?t\<lparr>tg_bytes := tg_bytes ?t @ concat o2\<rparr>) (?io\<lparr>io_replies := rest\<rparr>)"
    by (rule Cons.IH [OF _ _ push(2)]) (use Cons.prems(2,4,5) add(2) in simp_all)
  finally show ?case by (simp add: push(3) add.assoc)
qed

lemma end_body_matches: "n = word_of_nat (length bs) \<Longrightarrow> end_matches C n n bs (end_body C bs)"
  by (simp add: end_matches_def end_body_def get_u64_def get_str_def)

lemma kind_codes_differ:
  "kind_STREAM_END \<noteq> kind_STREAM_DATA" "kind_STREAM_OPEN \<noteq> kind_STREAM_DATA" "kind_STREAM_ABORT \<noteq> kind_STREAM_DATA"
  "kind_STREAM_ABORT \<noteq> kind_RESULT" "kind_STREAM_ABORT \<noteq> kind_ERROR" "kind_RESULT \<noteq> kind_ERROR"
  by (simp_all add: const_defs)

lemma receive_e2e_end:
  assumes "io_replies io = [Inr (node_frame kind_STREAM_END 200 (io_id io) (encode_cbor (end_body E hashed)))]" "hash_laws E"
    "n = word_of_nat (length hashed)" "media_decryptor_finish d = Inr plaintext" "tg_flush t = None"
  shows "receive_e2e E n n hashed plaintext d t io = (Inr plaintext, t, io\<lparr>io_replies := [], io_active := False\<rparr>)"
  using assms by (subst receive_e2e.simps) (simp add: io_recv_def kind_codes_differ decode_end_body end_body_matches)

lemma download_e2e_run:
  assumes "media_ready c" "hash_laws E" "list_all (\<lambda>b. b \<noteq> [] \<and> length b \<le> TRANSFER_CHUNK) slices"
    "push_all E slices d = (Inr outs, d')" "media_decryptor_finish d' = Inr (word_of_nat (length (concat outs)))"
    "length (concat slices) < 2 ^ 64" "tg_faults t = []" "tg_flush t = None"
  shows "\<exists>io. download_media_e2e_with_decryptor E c file_id (word_of_nat (length (concat slices))) t d
      (Inr (idle_stream (serve fid slices (encode_cbor (end_body E (concat slices)))) fid))
    = (Inr (word_of_nat (length (concat outs))), t\<lparr>tg_bytes := tg_bytes t @ concat outs\<rparr>, Some io)"
proof -
  let ?n = "word_of_nat (length (concat slices)) :: u64"
  let ?e = "encode_cbor (end_body E (concat slices))"
  let ?rest = "map (\<lambda>b. Inr (node_frame kind_STREAM_DATA 0 fid b)) slices @ [Inr (node_frame kind_STREAM_END 200 fid ?e)]"
  let ?io = "idle_stream (serve fid slices ?e) fid"
  let ?io1 = "?io\<lparr>io_replies := ?rest, io_sent := [(kind_STREAM_OPEN, media_op_DOWNLOAD, encode_cbor (Map [(''file_id'', Text file_id)]))]\<rparr>"
  have un: "unat ?n = length (concat slices)" using assms(6) by (simp add: unat_of_nat del: length_concat)
  have "open_download file_id ?n ?io = (Inr ?n, ?io1)"
    using open_download_run [of ?io ?n ?rest file_id] by (simp add: idle_stream_def serve_def del: length_concat)
  then have open_run: "with_stream c (open_download file_id ?n) (Inr ?io) = (Inr ?n, Some ?io1)"
    using assms(1) by (simp add: with_stream_def)
  have "receive_e2e E ?n 0 [] 0 d t ?io1 = receive_e2e E ?n ?n (concat slices) (word_of_nat (length (concat outs))) d'
      (t\<lparr>tg_bytes := tg_bytes t @ concat outs\<rparr>) (?io1\<lparr>io_replies := [Inr (node_frame kind_STREAM_END 200 fid ?e)]\<rparr>)"
    using receive_e2e_slices [of ?io1 slices "[Inr (node_frame kind_STREAM_END 200 fid ?e)]" E d outs d' t 0 ?n "[]" 0] assms(3,4,7) un
    by (simp add: idle_stream_def del: length_concat)
  also have "\<dots> = (Inr (word_of_nat (length (concat outs))), t\<lparr>tg_bytes := tg_bytes t @ concat outs\<rparr>, ?io1\<lparr>io_replies := [], io_active := False\<rparr>)"
    using receive_e2e_end [of "?io1\<lparr>io_replies := [Inr (node_frame kind_STREAM_END 200 fid ?e)]\<rparr>" E "concat slices" ?n d'
        "word_of_nat (length (concat outs))" "t\<lparr>tg_bytes := tg_bytes t @ concat outs\<rparr>"] assms(2,5,8)
    by (simp add: idle_stream_def del: length_concat)
  finally show ?thesis using open_run by (simp add: download_media_e2e_with_decryptor_def del: length_concat)
qed

section \<open>Whole uploads\<close>

lemma finish_upload_run:
  assumes "io_faults io = []" "io_replies io = Inr f # rest" "f_kind f = kind_RESULT" "f_code f = 200"
  shows "finish_upload body io = (Inr (), io\<lparr>io_replies := rest, io_active := False, io_sent := io_sent io @ [(kind_STREAM_END, 200, encode_cbor body)]\<rparr>)"
  using assms by (simp add: finish_upload_def tbind_def tlift_def io_send_clear io_recv_def response_from_frame_def Let_def)

lemma finish_upload_Inr:
  assumes "finish_upload body io = (Inr (), io')"
  shows "\<exists>f. io_replies io = Inr f # io_replies io' \<and> io_sent io' = io_sent io @ [(kind_STREAM_END, 200, encode_cbor body)]
    \<and> f_kind f \<noteq> kind_ERROR \<and> f_code f < 400"
proof -
  obtain io1 f where run: "io_send kind_STREAM_END 200 (encode_cbor body) io = (Inr (), io1)" "io_recv io1 = (Inr f, io')"
    and res: "f_kind f = kind_RESULT \<and> f_code f = 200 \<or> (\<exists>v. into_result (response_from_frame f) = Inr v)"
    using assms by (auto simp: finish_upload_def tbind_def tlift_def Let_def rbind_eq_Inr response_from_frame_def
        split: prod.splits sum.splits if_splits)
  have "f_kind f \<noteq> kind_ERROR \<and> f_code f < 400"
    using res kind_codes_differ by (auto simp: into_result_def rbind_eq_Inr is_error_def response_from_frame_def split: if_splits)
  then show ?thesis using io_send_Inr [OF run(1)] run(2) by (auto simp: io_recv_def split: list.splits sum.splits)
qed

lemma upload_e2e_run:
  assumes "xaead_laws E" "length key = 32" "length prefix = 16" "length m < 2 ^ 63"
    "read_all MEDIA_CHUNK_SIZE src = Inr (media_chunks m)" "media_ready c" "f_kind fin = kind_RESULT" "f_code fin = 200"
    "media_encryptor_new (Some prefix) key aad (word_of_nat (length m)) = Inr e" "media_decryptor_new key aad = Inr d"
  shows "\<exists>rs io. upload_media_e2e_with_encryptor E c file_id (word_of_nat (length m)) src e
        (Inr (idle_stream [Inr (node_frame kind_ACK 100 fid ack), Inr fin] fid)) = (Inr (), Some io)
    \<and> stored_data (io_sent io) = media_header (mx_size e) (mx_prefix e) @ concat rs
    \<and> last (io_sent io) = (kind_STREAM_END, 200, encode_cbor (end_body E (media_header (mx_size e) (mx_prefix e) @ concat rs)))
    \<and> length (media_header (mx_size e) (mx_prefix e) @ concat rs) < 2 ^ 64
    \<and> (\<forall>slices. concat slices = media_header (mx_size e) (mx_prefix e) @ concat rs \<longrightarrow>
        (\<exists>outs d'. push_all E slices d = (Inr outs, d') \<and> concat outs = m \<and> media_decryptor_finish d' = Inr (word_of_nat (length m))))"
proof -
  let ?h = "media_header (mx_size e) (mx_prefix e)"
  obtain rs e' where rs: "seal_chunks E (media_chunks m) e = (Inr rs, e')" "media_encryptor_finish e' = Inr ()"
    "encrypted_media_size (word_of_nat (length m)) = Inr (word_of_nat (length (?h @ concat rs)))"
    "length (?h @ concat rs) < 2 ^ 64"
    "\<forall>slices. concat slices = ?h @ concat rs \<longrightarrow>
        (\<exists>outs d'. push_all E slices d = (Inr outs, d') \<and> concat outs = m \<and> media_decryptor_finish d' = Inr (word_of_nat (length m)))"
    using media_container [OF assms(1-4,9,10)] by blast
  have small: "list_all (\<lambda>r. length r < 2 ^ 64) rs"
    using rs(4) member_le_sum_list [of _ "map length rs"] by (fastforce simp: list_all_iff length_concat)
  have uh: "unat (word_of_nat (length ?h) :: u64) = length ?h" using rs(4) by (simp add: unat_of_nat)
  let ?n = "word_of_nat (length (?h @ concat rs)) :: u64"
  let ?open = "(kind_STREAM_OPEN, media_op_UPLOAD, encode_cbor (Map [(''file_id'', Text file_id), (''size'', Unsigned ?n)]))"
  let ?io1 = "idle_stream [Inr fin] fid\<lparr>io_sent := [?open, data_entry ?h]\<rparr>"
  let ?io2 = "?io1\<lparr>io_sent := [?open, data_entry ?h] @ map data_entry rs\<rparr>"
  have sealed: "seal_source E src e (word_of_nat (length ?h)) ?h ?io1 = (Inr (e', ?n, ?h @ concat rs), ?io2)"
    using seal_source_run [OF assms(5) _ rs(1), of ?io1 "word_of_nat (length ?h)" ?h] rs(4) small uh
    by (simp add: idle_stream_def del: length_concat)
  have fin: "finish_upload (end_body E (?h @ concat rs)) ?io2 = (Inr (), ?io2\<lparr>io_replies := [], io_active := False,
      io_sent := io_sent ?io2 @ [(kind_STREAM_END, 200, encode_cbor (end_body E (?h @ concat rs)))]\<rparr>)" (is "_ = (_, ?io3)")
    using assms(7,8) by (intro finish_upload_run) (simp_all add: idle_stream_def)
  have start: "stream_open media_op_UPLOAD (Map [(''file_id'', Text file_id), (''size'', Unsigned ?n)]) upload_rejected
      (idle_stream [Inr (node_frame kind_ACK 100 fid ack), Inr fin] fid)
    = (Inr (node_frame kind_ACK 100 fid ack), idle_stream [Inr fin] fid\<lparr>io_sent := [?open]\<rparr>)"
    by (subst stream_open_run) (simp_all add: idle_stream_def)
  have "upload_media_e2e_with_encryptor E c file_id (word_of_nat (length m)) src e
      (Inr (idle_stream [Inr (node_frame kind_ACK 100 fid ack), Inr fin] fid)) = (Inr (), Some ?io3)"
    using assms(6) start sealed fin rs(2)
    by (simp add: upload_media_e2e_with_encryptor_def rs(3) with_stream_def tbind_def io_send_clear end_body_def idle_stream_def
        Let_def del: length_concat length_append)
  moreover have "stored_data (io_sent ?io3) = ?h @ concat rs"
    by (simp add: stored_data_def kind_codes_differ comp_def)
  moreover have "last (io_sent ?io3) = (kind_STREAM_END, 200, encode_cbor (end_body E (?h @ concat rs)))" by simp
  ultimately show ?thesis using rs(4,5) by blast
qed

section \<open>Example\<close>

definition media_client :: client where
  "media_client = sample_client\<lparr>cl_server_hello := (cl_server_hello sample_client)\<lparr>sh_features := 0x7f\<rparr>\<rparr>"

lemma media_client_ready: "media_ready media_client"
  by (simp add: media_ready_def media_client_def sample_client_def is_authenticated_def const_defs)

lemma media_chunks_small: "m \<noteq> [] \<Longrightarrow> length m \<le> MEDIA_CHUNK_SIZE \<Longrightarrow> media_chunks m = [m]"
  by (subst media_chunks.simps) simp

section \<open>Properties\<close>

text \<open>
  C4: an encrypted upload whose source is read in full chunks is accepted, and what the
  media node has stored can be downloaded by the holder of the key: however the
  node cuts the stored bytes into frames of at most 256 KiB, the download checks
  size and hash, decrypts, and writes exactly the source's bytes.
\<close>

theorem e2e_media_round_trip:
  assumes "xaead_laws E" "hash_laws E" "length key = 32" "length prefix = 16" "length m < 2 ^ 63"
    "read_all MEDIA_CHUNK_SIZE src = Inr (media_chunks m)" "media_ready c" "f_kind fin = kind_RESULT" "f_code fin = 200"
  shows "\<exists>io body. upload_media_e2e_with_key E (Some prefix) c file_id (word_of_nat (length m)) src key aad
        (Inr (idle_stream [Inr (node_frame kind_ACK 100 fid ack), Inr fin] fid)) = (Inr (), Some io)
    \<and> last (io_sent io) = (kind_STREAM_END, 200, body)
    \<and> (\<forall>slices fid'. concat slices = stored_data (io_sent io) \<and> list_all (\<lambda>b. b \<noteq> [] \<and> length b \<le> TRANSFER_CHUNK) slices \<longrightarrow>
        (\<exists>io'. download_media_e2e_with_key E c file_id (word_of_nat (length (concat slices))) empty_target key aad
            (Inr (idle_stream (serve fid' slices body) fid'))
          = (Inr (word_of_nat (length m)), empty_target\<lparr>tg_bytes := m\<rparr>, io')))"
proof -
  obtain e d where new: "media_encryptor_new (Some prefix) key aad (word_of_nat (length m)) = Inr e" "media_decryptor_new key aad = Inr d"
    using assms(3,4) by (simp add: media_encryptor_new_def media_decryptor_new_def random_bytes_def)
  from upload_e2e_run [OF assms(1,3-9) new, of file_id fid ack] obtain bs io where up:
    "upload_media_e2e_with_encryptor E c file_id (word_of_nat (length m)) src e
        (Inr (idle_stream [Inr (node_frame kind_ACK 100 fid ack), Inr fin] fid)) = (Inr (), Some io)"
    "stored_data (io_sent io) = bs" "last (io_sent io) = (kind_STREAM_END, 200, encode_cbor (end_body E bs))" "length bs < 2 ^ 64"
    "\<forall>slices. concat slices = bs \<longrightarrow> (\<exists>outs d'. push_all E slices d = (Inr outs, d') \<and> concat outs = m
        \<and> media_decryptor_finish d' = Inr (word_of_nat (length m)))"
    by (elim exE conjE) (rule that; assumption)
  have "\<exists>io'. download_media_e2e_with_key E c file_id (word_of_nat (length (concat slices))) empty_target key aad
        (Inr (idle_stream (serve fid' slices (encode_cbor (end_body E bs))) fid'))
      = (Inr (word_of_nat (length m)), empty_target\<lparr>tg_bytes := m\<rparr>, io')"
    if sl: "concat slices = bs" "list_all (\<lambda>b. b \<noteq> [] \<and> length b \<le> TRANSFER_CHUNK) slices" for slices fid'
  proof -
    obtain outs d' where outs: "push_all E slices d = (Inr outs, d')" "concat outs = m"
      "media_decryptor_finish d' = Inr (word_of_nat (length (concat outs)))" using up(5) sl(1) by auto
    from download_e2e_run [OF assms(7,2) sl(2) outs(1,3), of empty_target file_id fid'] up(4) outs(2) sl(1)
    show ?thesis by (auto simp: empty_target_def download_media_e2e_with_key_def new(2) simp del: length_concat)
  qed
  then show ?thesis
    using up by (intro exI [of _ io] exI [of _ "encode_cbor (end_body E bs)"])
      (simp add: upload_media_e2e_with_key_def new(1) del: length_concat)
qed

theorem e2e_media_round_trip_witness:
  "\<exists>io body slices io'. upload_media_e2e_with_key toy_e2e (Some (replicate 16 1)) media_client ''f'' 3 [Inr [7, 8, 9]] toy_key []
        (Inr (idle_stream [Inr (node_frame kind_ACK 100 5 []), Inr (node_frame kind_RESULT 200 5 [])] 5)) = (Inr (), Some io)
    \<and> concat slices = stored_data (io_sent io)
    \<and> download_media_e2e_with_key toy_e2e media_client ''f'' (word_of_nat (length (concat slices))) empty_target toy_key []
        (Inr (idle_stream (serve 6 slices body) 6)) = (Inr 3, empty_target\<lparr>tg_bytes := [7, 8, 9]\<rparr>, io')"
proof -
  have chunks: "read_all MEDIA_CHUNK_SIZE [Inr [7, 8, 9]] = Inr (media_chunks [7, 8, 9])"
    by (simp add: read_all.simps media_chunks_small const_defs)
  have l: "length toy_key = 32" "length (replicate 16 (1 :: byte)) = 16" "length [7, 8, 9 :: byte] < 2 ^ 63" by simp_all
  have fin: "f_kind (node_frame kind_RESULT 200 5 []) = kind_RESULT" "f_code (node_frame kind_RESULT 200 5 []) = 200" by simp_all
  from e2e_media_round_trip [OF toy_e2e_laws(3,2) l chunks media_client_ready fin, of "''f''" "[]" 5 "[]"]
  obtain io body where up: "upload_media_e2e_with_key toy_e2e (Some (replicate 16 1)) media_client ''f'' (word_of_nat (length [7, 8, 9 :: byte]))
      [Inr [7, 8, 9]] toy_key [] (Inr (idle_stream [Inr (node_frame kind_ACK 100 5 []), Inr (node_frame kind_RESULT 200 5 [])] 5)) = (Inr (), Some io)"
    and down: "\<And>slices fid'. concat slices = stored_data (io_sent io) \<Longrightarrow> list_all (\<lambda>b. b \<noteq> [] \<and> length b \<le> TRANSFER_CHUNK) slices \<Longrightarrow>
        \<exists>io'. download_media_e2e_with_key toy_e2e media_client ''f'' (word_of_nat (length (concat slices))) empty_target toy_key []
            (Inr (idle_stream (serve fid' slices body) fid'))
          = (Inr (word_of_nat (length [7, 8, 9 :: byte])), empty_target\<lparr>tg_bytes := [7, 8, 9]\<rparr>, io')"
    by (elim exE conjE) (rule that, assumption, blast)
  let ?slices = "map (\<lambda>b. [b]) (stored_data (io_sent io))"
  have sl: "concat ?slices = stored_data (io_sent io)" "list_all (\<lambda>b. b \<noteq> [] \<and> length b \<le> TRANSFER_CHUNK) ?slices"
    by (simp_all add: list_all_iff const_defs)
  have three: "word_of_nat (length [7, 8, 9 :: byte]) = (3 :: u64)" by simp
  from down [OF sl, of 6] up sl(1) show ?thesis unfolding three by blast
qed



text \<open>
  C37: what a plain upload that reports success has done.  The node accepted the stream,
  exactly the bytes of the source, in order and of the declared size, were sent
  in chunks of at most 256 KiB, and the end of the stream carries their number
  and hash.  The last answer was no error, which is all the code asks of it.
\<close>

theorem media_upload_exact:
  assumes "upload_media C c file_id total_size src (Inr io) = (Inr (), Some io')" "total_size \<noteq> - 1"
  shows "\<exists>cs accepted f. media_ready c \<and> read_all TRANSFER_CHUNK src = Inr cs \<and> length (concat cs) = unat total_size
    \<and> io_replies io = Inr accepted # Inr f # io_replies io' \<and> f_kind accepted = kind_ACK \<and> f_code accepted = 100
    \<and> f_kind f \<noteq> kind_ERROR \<and> f_code f < 400
    \<and> io_sent io' = io_sent io @ [(kind_STREAM_OPEN, media_op_UPLOAD, encode_cbor (Map [(''file_id'', Text file_id), (''size'', Unsigned total_size)]))]
        @ map data_entry cs @ [(kind_STREAM_END, 200, encode_cbor (end_body C (concat cs)))]"
proof -
  let ?body = "Map [(''file_id'', Text file_id), (''size'', Unsigned total_size)]"
  obtain accepted io1 hashed io2 where run: "media_ready c" "stream_open media_op_UPLOAD ?body upload_rejected io = (Inr accepted, io1)"
    "send_source total_size src 0 [] io1 = (Inr (total_size, hashed), io2)"
    "finish_upload (Map [(''size'', Unsigned total_size), (''sha256'', Text (media_hex (c_sha256 C hashed)))]) io2 = (Inr (), io')"
    using assms(1) by (auto simp: upload_media_def with_stream_def tbind_def split: if_splits prod.splits sum.splits)
  obtain cs where cs: "read_all TRANSFER_CHUNK src = Inr cs" "unat total_size = length (concat cs)" "hashed = concat cs"
    "io_sent io2 = io_sent io1 @ map data_entry cs" "io_replies io2 = io_replies io1"
    using send_source_Inr [OF run(3) assms(2)] by auto
  have "total_size = word_of_nat (length (concat cs))" unfolding cs(2) [symmetric] by simp
  then have body: "Map [(''size'', Unsigned total_size), (''sha256'', Text (media_hex (c_sha256 C hashed)))] = end_body C (concat cs)"
    by (simp add: end_body_def cs(3))
  from finish_upload_Inr [OF run(4) [unfolded body]] obtain f where f: "io_replies io2 = Inr f # io_replies io'"
    "io_sent io' = io_sent io2 @ [(kind_STREAM_END, 200, encode_cbor (end_body C (concat cs)))]" "f_kind f \<noteq> kind_ERROR" "f_code f < 400"
    by blast
  note o = stream_open_Inr [OF run(2)]
  have "io_sent io1 = io_sent io @ [(kind_STREAM_OPEN, media_op_UPLOAD, encode_cbor ?body)]" by (rule o(5))
  then show ?thesis using run(1) cs f o(1,3,4) by (intro exI [of _ cs] exI [of _ accepted] exI [of _ f]) simp
qed

theorem media_upload_exact_witness:
  "\<exists>io'. upload_media toy_crypto media_client ''f'' 2 [Inr [7], Inr [8]]
      (Inr (idle_stream [Inr (node_frame kind_ACK 100 5 []), Inr (node_frame kind_STREAM_ABORT 0 5 [])] 5)) = (Inr (), Some io')
    \<and> stored_data (io_sent io') = [7, 8]"
proof -
  let ?io = "idle_stream [Inr (node_frame kind_ACK 100 5 []), Inr (node_frame kind_STREAM_ABORT 0 5 [])] 5"
  have r: "read_all TRANSFER_CHUNK [Inr [7], Inr [8]] = Inr [[7], [8]]" by (simp add: read_all.simps const_defs)
  have run: "send_source 2 [Inr [7], Inr [8]] 0 [] io = (Inr (2, [7, 8]), io\<lparr>io_sent := io_sent io @ map data_entry [[7], [8]]\<rparr>)"
    if "io_faults io = []" for io using send_source_run [OF r that, of 0 2 "[]"] by simp
  have start: "stream_open media_op_UPLOAD body rejected ?io = (Inr (node_frame kind_ACK 100 5 []), ?io\<lparr>io_replies :=
      [Inr (node_frame kind_STREAM_ABORT 0 5 [])], io_sent := [(kind_STREAM_OPEN, media_op_UPLOAD, encode_cbor body)]\<rparr>)"
    for body rejected by (subst stream_open_run) (simp_all add: idle_stream_def)
  obtain io' where up: "upload_media toy_crypto media_client ''f'' 2 [Inr [7], Inr [8]] (Inr ?io) = (Inr (), Some io')"
    using media_client_ready start run
    by (simp add: upload_media_def with_stream_def tbind_def finish_upload_def io_send_clear io_recv_def tlift_def idle_stream_def
        response_from_frame_def into_result_def response_cbor_def is_error_def Let_def kind_codes_differ)
  from media_upload_exact [OF up] r show ?thesis
    using up by (auto simp: stored_data_def kind_codes_differ idle_stream_def)
qed

end
