(* ===== verification/Api.thy ===== *)
theory Api
  imports Messenger
begin

text \<open>
  The typed operations of \<open>Client\<close> in \<open>src/lib.rs\<close>: the objects a server answers
  with and how they are read from a CBOR value, and one definition per method.
  An operation runs on a state with the client, the requests it has issued and,
  for the n-th of them, the clock, the random nonce and the reply it will meet.
\<close>

section \<open>Objects in answers\<close>

definition required_field :: "Value \<Rightarrow> string \<Rightarrow> string \<Rightarrow> Value result" where
  "required_field v key context = ok_or (value_get v key) (invalid_data (''missing '' @ key @ '' in '' @ context))"

definition required_string :: "Value \<Rightarrow> string \<Rightarrow> string \<Rightarrow> string result" where
  "required_string v key context = rbind (required_field v key context) (\<lambda>x.
     ok_or (as_str x) (invalid_data (''invalid '' @ key @ '' in '' @ context)))"

definition required_i64 :: "Value \<Rightarrow> string \<Rightarrow> string \<Rightarrow> i64 result" where
  "required_i64 v key context = rbind (required_field v key context) (\<lambda>x.
     ok_or (as_i64 x) (invalid_data (''invalid '' @ key @ '' in '' @ context)))"

definition optional_string :: "Value \<Rightarrow> string \<Rightarrow> string option result" where
  "optional_string v key = (case value_get v key of
      None \<Rightarrow> Inr None | Some Null \<Rightarrow> Inr None | Some (Text s) \<Rightarrow> Inr (Some s)
    | Some _ \<Rightarrow> Inl (invalid_data (''invalid '' @ key @ '' field'')))"

definition optional_i64 :: "Value \<Rightarrow> string \<Rightarrow> i64 option result" where
  "optional_i64 v key = (case value_get v key of
      None \<Rightarrow> Inr None | Some Null \<Rightarrow> Inr None
    | Some x \<Rightarrow> rbind (ok_or (as_i64 x) (invalid_data (''invalid '' @ key @ '' field''))) (\<lambda>n. Inr (Some n)))"

definition optional_bool :: "Value \<Rightarrow> string \<Rightarrow> bool option result" where
  "optional_bool v key = (case value_get v key of
      None \<Rightarrow> Inr None | Some Null \<Rightarrow> Inr None | Some (Bool b) \<Rightarrow> Inr (Some b)
    | Some _ \<Rightarrow> Inl (invalid_data (''invalid '' @ key @ '' field'')))"

definition optional_array :: "Value \<Rightarrow> string \<Rightarrow> Value list option result" where
  "optional_array v key = (case value_get v key of
      None \<Rightarrow> Inr None | Some Null \<Rightarrow> Inr None | Some (Array vs) \<Rightarrow> Inr (Some vs)
    | Some _ \<Rightarrow> Inl (invalid_data (''invalid '' @ key @ '' field'')))"

record user =
  us_id :: string
  us_username :: "string option"
  us_name :: "string option"
  us_description :: string
  us_email :: "string option"
  us_email_verified :: bool
  us_verified :: bool
  us_bot :: bool
  us_created_at :: "i64 option"
  us_kind :: "string option"
  us_message_privacy :: "string option"
  us_call_privacy :: "string option"
  us_invite_privacy :: "string option"

definition user_from_value :: "Value \<Rightarrow> user result" where
  "user_from_value v =
    rbind (required_string v ''id'' ''user'') (\<lambda>uid.
    rbind (optional_string v ''username'') (\<lambda>username.
    rbind (optional_string v ''name'') (\<lambda>name.
    rbind (optional_string v ''description'') (\<lambda>description.
    rbind (optional_string v ''email'') (\<lambda>email.
    rbind (optional_bool v ''email_verified'') (\<lambda>email_verified.
    rbind (optional_bool v ''verified'') (\<lambda>verified.
    rbind (optional_bool v ''bot'') (\<lambda>bot.
    rbind (optional_i64 v ''created_at'') (\<lambda>created_at.
    rbind (optional_string v ''kind'') (\<lambda>knd.
    rbind (optional_string v ''message_privacy'') (\<lambda>message_privacy.
    rbind (optional_string v ''call_privacy'') (\<lambda>call_privacy.
    rbind (optional_string v ''invite_privacy'') (\<lambda>invite_privacy.
    Inr \<lparr>us_id = uid, us_username = username, us_name = name, us_description = unwrap_or description [], us_email = email,
      us_email_verified = unwrap_or email_verified False, us_verified = unwrap_or verified False, us_bot = unwrap_or bot False,
      us_created_at = created_at, us_kind = knd, us_message_privacy = message_privacy, us_call_privacy = call_privacy,
      us_invite_privacy = invite_privacy\<rparr>)))))))))))))"

record me =
  me_user :: user
  me_cloud_password :: bool

definition me_from_value :: "Value \<Rightarrow> me result" where
  "me_from_value v =
    rbind (required_field v ''user'' ''get_me response'') (\<lambda>x.
    rbind (user_from_value x) (\<lambda>u.
    rbind (optional_bool v ''cloud_password'') (\<lambda>cloud_password.
    Inr \<lparr>me_user = u, me_cloud_password = unwrap_or cloud_password False\<rparr>)))"

record auth_result =
  ar_token :: string
  ar_user :: user

definition auth_result_from_value :: "Value \<Rightarrow> string \<Rightarrow> auth_result result" where
  "auth_result_from_value v context =
    rbind (required_string v ''token'' context) (\<lambda>token.
    rbind (required_field v ''user'' context) (\<lambda>x.
    rbind (user_from_value x) (\<lambda>u.
    Inr \<lparr>ar_token = token, ar_user = u\<rparr>)))"

record message =
  ms_id :: i64
  ms_chat_id :: string
  ms_from :: user
  ms_to :: user
  ms_text :: string
  ms_date :: i64
  ms_comment_post_id :: "i64 option"
  ms_reply_to_message_id :: "i64 option"
  ms_client_message_id :: "string option"
  ms_edited_at :: "i64 option"
  ms_pinned_at :: "i64 option"
  ms_read_at :: "i64 option"
  ms_media :: "Value list"
  ms_system :: bool
  ms_data :: "Value option"
  ms_reactions :: "Value list"

definition message_from_value :: "Value \<Rightarrow> message result" where
  "message_from_value v =
    rbind (required_field v ''from'' ''message'') (\<lambda>from.
    rbind (required_field v ''to'' ''message'') (\<lambda>to.
    rbind (required_i64 v ''id'' ''message'') (\<lambda>mid.
    rbind (required_string v ''chat_id'' ''message'') (\<lambda>chat_id.
    rbind (user_from_value from) (\<lambda>from.
    rbind (user_from_value to) (\<lambda>to.
    rbind (required_string v ''text'' ''message'') (\<lambda>txt.
    rbind (required_i64 v ''date'' ''message'') (\<lambda>date.
    rbind (optional_i64 v ''comment_post_id'') (\<lambda>comment_post_id.
    rbind (optional_i64 v ''reply_to_message_id'') (\<lambda>reply_to_message_id.
    rbind (optional_string v ''client_message_id'') (\<lambda>client_message_id.
    rbind (optional_i64 v ''edited_at'') (\<lambda>edited_at.
    rbind (optional_i64 v ''pinned_at'') (\<lambda>pinned_at.
    rbind (optional_i64 v ''read_at'') (\<lambda>read_at.
    rbind (optional_array v ''media'') (\<lambda>media.
    rbind (optional_bool v ''system'') (\<lambda>system.
    rbind (optional_array v ''reactions'') (\<lambda>reactions.
    Inr \<lparr>ms_id = mid, ms_chat_id = chat_id, ms_from = from, ms_to = to, ms_text = txt, ms_date = date,
      ms_comment_post_id = comment_post_id, ms_reply_to_message_id = reply_to_message_id,
      ms_client_message_id = client_message_id, ms_edited_at = edited_at, ms_pinned_at = pinned_at, ms_read_at = read_at,
      ms_media = unwrap_or media [], ms_system = unwrap_or system False, ms_data = value_get v ''data'',
      ms_reactions = unwrap_or reactions []\<rparr>)))))))))))))))))"

definition message_from_result :: "Value \<Rightarrow> string \<Rightarrow> message result" where
  "message_from_result v context = rbind (required_field v ''message'' context) message_from_value"

section \<open>Requests of a client\<close>

record api_inputs =
  in_now :: u64
  in_checked :: u64
  in_random :: "bytes option"
  in_reply :: "frame result"

record api_state =
  as_client :: client
  as_read_timeout :: u64
  as_inputs :: "nat \<Rightarrow> api_inputs"
  as_calls :: "request_call list"

type_synonym 'a api_op = "api_state \<Rightarrow> 'a result \<times> api_state"

definition alift :: "'a result \<Rightarrow> 'a api_op" where
  "alift r s = (r, s)"

definition abind :: "'a api_op \<Rightarrow> ('a \<Rightarrow> 'b api_op) \<Rightarrow> 'b api_op" where
  "abind m f s = (case m s of (Inl e, s) \<Rightarrow> (Inl e, s) | (Inr x, s) \<Rightarrow> f x s)"

definition next_inputs :: "api_state \<Rightarrow> api_inputs" where
  "next_inputs s = as_inputs s (length (as_calls s))"

definition request_cbor :: "u8 \<Rightarrow> u16 \<Rightarrow> bytes \<Rightarrow> response api_op" where
  "request_cbor knd opcode payload s =
    (case request_call_for (as_read_timeout s) (in_now (next_inputs s)) (in_checked (next_inputs s)) (in_random (next_inputs s))
        (as_client s) knd opcode payload \<lparr>ro_request_nonce = None, ro_deadline_ms = None\<rparr> of
       Inl e \<Rightarrow> (Inl e, s)
     | Inr (call, timeout) \<Rightarrow>
         (rbind (in_reply (next_inputs s)) (\<lambda>f. Inr (response_from_frame f)), s\<lparr>as_calls := as_calls s @ [call]\<rparr>))"

definition query_value :: "u16 \<Rightarrow> Value \<Rightarrow> response api_op" where
  "query_value opcode payload = request_cbor kind_QUERY opcode (encode_cbor payload)"

definition command :: "u16 \<Rightarrow> Value \<Rightarrow> response api_op" where
  "command opcode payload = request_cbor kind_COMMAND opcode (encode_cbor payload)"

definition query :: "u16 \<Rightarrow> string \<Rightarrow> response api_op" where
  "query opcode q = query_value opcode (query_payload q)"

definition query_result :: "u16 \<Rightarrow> string \<Rightarrow> Value api_op" where
  "query_result opcode q = abind (query opcode q) (\<lambda>r. alift (into_result r))"

definition command_result :: "u16 \<Rightarrow> Value \<Rightarrow> Value api_op" where
  "command_result opcode payload = abind (command opcode payload) (\<lambda>r. alift (into_result r))"

definition auth_payload :: "string \<Rightarrow> Value" where
  "auth_payload token = Map [(''token'', Text token), (''client_name'', Text []), (''device_model'', Text [])]"

definition authenticate :: "string \<Rightarrow> unit api_op" where
  "authenticate token s =
    (case authenticate_info_with_client_metadata (\<lambda>_. in_reply (next_inputs s)) token [] [] (as_client s) of
       (r, c) \<Rightarrow> (rbind r (\<lambda>_. Inr ()), s\<lparr>as_client := c, as_calls := as_calls s @ [auth_call (auth_payload token)]\<rparr>))"

definition ensure_transport_authenticated :: "unit api_op" where
  "ensure_transport_authenticated s = (if \<not> has_principal (as_client s) then authenticate [] s else (Inr (), s))"

definition promote_auth_result :: "auth_result \<Rightarrow> unit api_op" where
  "promote_auth_result r s = (Inr (), s\<lparr>as_client := set_principal
     \<lparr>ai_principal_type = (if us_bot (ar_user r) then ''bot'' else ''user''),
      ai_principal_id = Some (us_id (ar_user r)),
      ai_scopes = (if us_bot (ar_user r) then [''messages.send'', ''updates.read'', ''updates.ack''] else [''messenger.rpc'', ''oauth.decide'']),
      ai_session_id = Option.bind (cl_principal (as_client s)) ai_session_id,
      ai_expires_at = None, ai_raw = Map []\<rparr> (as_client s)\<rparr>)"

text \<open>The three sign-in operations share their shape.\<close>

definition sign_in :: "u16 \<Rightarrow> Value \<Rightarrow> string \<Rightarrow> auth_result api_op" where
  "sign_in opcode payload context =
    abind ensure_transport_authenticated (\<lambda>_.
    abind (command_result opcode payload) (\<lambda>v.
    abind (alift (auth_result_from_value v context)) (\<lambda>r.
    abind (promote_auth_result r) (\<lambda>_. alift (Inr r)))))"

definition opt_entry :: "string \<Rightarrow> ('b \<Rightarrow> Value) \<Rightarrow> 'b option \<Rightarrow> (string \<times> Value) list" where
  "opt_entry key f x = (case x of None \<Rightarrow> [] | Some y \<Rightarrow> [(key, f y)])"

definition opt_push :: "(string \<Rightarrow> 'b \<Rightarrow> query_builder \<Rightarrow> query_builder) \<Rightarrow> string \<Rightarrow> 'b option \<Rightarrow> query_builder \<Rightarrow> query_builder" where
  "opt_push push key x q = (case x of None \<Rightarrow> q | Some y \<Rightarrow> push key y q)"

definition string_array :: "string list \<Rightarrow> Value" where
  "string_array xs = Array (map Text xs)"

definition message_command :: "u16 \<Rightarrow> Value \<Rightarrow> string \<Rightarrow> message api_op" where
  "message_command opcode payload context = abind (command_result opcode payload) (\<lambda>v. alift (message_from_result v context))"

definition user_command :: "u16 \<Rightarrow> Value \<Rightarrow> string \<Rightarrow> user api_op" where
  "user_command opcode payload context = abind (command_result opcode payload) (\<lambda>v.
     alift (rbind (required_field v ''user'' context) user_from_value))"

section \<open>Operations\<close>

definition get_me :: "me api_op" where
  "get_me = abind (query_result op_ME []) (\<lambda>v. alift (me_from_value v))"

definition send_text :: "string \<Rightarrow> string \<Rightarrow> message api_op" where
  "send_text to txt =
    (if str_trim to = [] then alift (Inl (invalid_input ''message recipient must not be empty''))
     else if str_trim txt = [] then alift (Inl (invalid_input ''message text must not be empty''))
     else message_command op_SEND (Map [(''to'', Text to), (''text'', Text txt)]) ''send response'')"

definition media_stat :: "string \<Rightarrow> u64 api_op" where
  "media_stat file_id = abind (query_value media_op_STAT (Map [(''file_id'', Text file_id)])) (\<lambda>r. alift (rbind (into_result r) (\<lambda>v.
     ok_or (get_u64 v ''size'') (invalid_data ''media node returned invalid stat metadata''))))"

definition media_delete :: "string \<Rightarrow> unit api_op" where
  "media_delete file_id = abind (command media_op_DELETE (Map [(''file_id'', Text file_id)])) (\<lambda>r.
     alift (rbind (into_result r) (\<lambda>_. Inr ())))"

definition media_health :: "unit api_op" where
  "media_health = abind (query_value media_op_HEALTH (Map [])) (\<lambda>r. alift (rbind (into_result r) (\<lambda>_. Inr ())))"

definition register_account :: "string \<Rightarrow> string \<Rightarrow> string option \<Rightarrow> auth_result api_op" where
  "register_account username password email = sign_in op_REGISTER (Map ([(''username'', Text username), (''password'', Text password)] @ opt_entry ''email'' Text email)) ''register response''"

definition login :: "string \<Rightarrow> string \<Rightarrow> auth_result api_op" where
  "login username password = sign_in op_LOGIN (Map [(''username'', Text username), (''password'', Text password)]) ''login response''"

definition login_email :: "string \<Rightarrow> string \<Rightarrow> auth_result api_op" where
  "login_email email password = sign_in op_LOGIN (Map [(''email'', Text email), (''password'', Text password)]) ''login response''"

definition api_start_email_auth :: "string \<Rightarrow> Value api_op" where
  "api_start_email_auth email = abind ensure_transport_authenticated (\<lambda>_. command_result op_EMAIL_AUTH_START (Map [(''email'', Text email)]))"

definition api_verify_email_auth :: "string \<Rightarrow> string \<Rightarrow> string option \<Rightarrow> auth_result api_op" where
  "api_verify_email_auth email code cloud_password = sign_in op_EMAIL_AUTH_VERIFY (Map ([(''email'', Text email), (''code'', Text code)] @ opt_entry ''cloud_password'' Text cloud_password)) ''email auth response''"

definition delete_account :: "string \<Rightarrow> Value api_op" where
  "delete_account code = command_result op_ACCOUNT_DELETE (Map [(''code'', Text code)])"

definition set_username :: "string \<Rightarrow> user api_op" where
  "set_username username = user_command op_SET_USERNAME (Map [(''username'', Text username)]) ''set_username response''"

definition set_name :: "string \<Rightarrow> user api_op" where
  "set_name name = user_command op_SET_NAME (Map [(''name'', Text name)]) ''set_name response''"

definition set_profile_description :: "string option \<Rightarrow> string \<Rightarrow> Value api_op" where
  "set_profile_description profile description = command_result op_SET_PROFILE_DESCRIPTION (Map ([(''description'', Text description)] @ opt_entry ''profile'' Text profile))"

definition set_description :: "string \<Rightarrow> Value api_op" where
  "set_description description = set_profile_description None description"

definition set_privacy :: "string \<Rightarrow> string \<Rightarrow> string \<Rightarrow> Value api_op" where
  "set_privacy message_privacy call_privacy invite_privacy = command_result op_SET_PRIVACY (Map [(''message_privacy'', Text message_privacy), (''call_privacy'', Text call_privacy), (''invite_privacy'', Text invite_privacy)])"

definition contacts :: "Value api_op" where
  "contacts = query_result op_CONTACTS []"

definition add_contact :: "string \<Rightarrow> Value api_op" where
  "add_contact peer = command_result op_CONTACT_ADD (Map [(''user'', Text peer)])"

definition delete_contact :: "string \<Rightarrow> Value api_op" where
  "delete_contact peer = command_result op_CONTACT_DELETE (Map [(''user'', Text peer)])"

definition create_group :: "string \<Rightarrow> string list \<Rightarrow> Value api_op" where
  "create_group title members = command_result op_CREATE_GROUP (Map [(''title'', Text title), (''members'', string_array members)])"

definition create_channel :: "string \<Rightarrow> string option \<Rightarrow> string list \<Rightarrow> Value api_op" where
  "create_channel title username members = command_result op_CREATE_CHANNEL (Map ([(''title'', Text title), (''members'', string_array members)] @ opt_entry ''username'' Text username))"

definition set_chat_title :: "string \<Rightarrow> string \<Rightarrow> Value api_op" where
  "set_chat_title chat title = command_result op_SET_CHAT_TITLE (Map [(''chat'', Text chat), (''title'', Text title)])"

definition set_channel_username :: "string \<Rightarrow> string \<Rightarrow> Value api_op" where
  "set_channel_username chat username = command_result op_SET_CHANNEL_USERNAME (Map [(''chat'', Text chat), (''username'', Text username)])"

definition set_channel_comments :: "string \<Rightarrow> bool \<Rightarrow> Value api_op" where
  "set_channel_comments chat enabled = command_result op_SET_CHANNEL_COMMENTS (Map [(''chat'', Text chat), (''enabled'', Bool enabled)])"

definition send_channel_comment :: "string \<Rightarrow> i64 \<Rightarrow> string \<Rightarrow> i64 option \<Rightarrow> string option \<Rightarrow> message api_op" where
  "send_channel_comment chat post_id txt reply_to_message_id client_message_id = message_command op_SEND_CHANNEL_COMMENT (Map ([(''chat'', Text chat), (''post_id'', Integer post_id), (''text'', Text txt)] @ opt_entry ''reply_to_message_id'' Integer reply_to_message_id @ opt_entry ''client_message_id'' Text client_message_id)) ''send_channel_comment response''"

definition channel_comments :: "string \<Rightarrow> i64 \<Rightarrow> i64 option \<Rightarrow> u64 option \<Rightarrow> Value api_op" where
  "channel_comments chat post_id before limit = query_result op_CHANNEL_COMMENTS (opt_push query_push_u64 ''limit'' limit (opt_push query_push_i64 ''before'' before (query_push_i64 ''post_id'' post_id (query_push ''chat'' chat []))))"

definition add_chat_member :: "string \<Rightarrow> string \<Rightarrow> Value api_op" where
  "add_chat_member chat peer = command_result op_ADD_CHAT_MEMBER (Map [(''chat'', Text chat), (''user'', Text peer)])"

definition remove_chat_member :: "string \<Rightarrow> string \<Rightarrow> Value api_op" where
  "remove_chat_member chat peer = command_result op_REMOVE_CHAT_MEMBER (Map [(''chat'', Text chat), (''user'', Text peer)])"

definition set_cloud_password :: "string \<Rightarrow> Value option \<Rightarrow> Value api_op" where
  "set_cloud_password password e2e_backup = command_result op_SET_CLOUD_PASSWORD (Map ([(''password'', Text password)] @ opt_entry ''e2e_backup'' id e2e_backup))"

definition reset_cloud_password :: "string option \<Rightarrow> string \<Rightarrow> Value api_op" where
  "reset_cloud_password email code = abind ensure_transport_authenticated (\<lambda>_. command_result op_RESET_CLOUD_PASSWORD (Map ([(''code'', Text code)] @ opt_entry ''email'' Text email)))"

definition sessions :: "Value api_op" where
  "sessions = query_result op_SESSIONS []"

definition revoke_session :: "string \<Rightarrow> Value api_op" where
  "revoke_session sid = command_result op_REVOKE_SESSION (Map [(''id'', Text sid)])"

definition revoke_other_sessions :: "Value api_op" where
  "revoke_other_sessions = command_result op_REVOKE_OTHER_SESSIONS (Map [])"

definition create_bot :: "string \<Rightarrow> auth_result api_op" where
  "create_bot username = abind (command_result op_CREATE_BOT (Map [(''username'', Text username)])) (\<lambda>v. alift (auth_result_from_value v ''create_bot response''))"

definition reset_bot_token :: "string \<Rightarrow> auth_result api_op" where
  "reset_bot_token username = abind (command_result op_RESET_BOT_TOKEN (Map [(''username'', Text username)])) (\<lambda>v. alift (auth_result_from_value v ''reset_bot_token response''))"

definition bot_commands :: "string \<Rightarrow> Value api_op" where
  "bot_commands bot_name = query_result op_BOT_COMMANDS (query_push ''bot'' bot_name [])"

definition sticker_packs :: "Value api_op" where
  "sticker_packs = query_result op_STICKER_PACKS []"

definition sticker_pack :: "string \<Rightarrow> Value api_op" where
  "sticker_pack pid = query_result op_STICKER_PACK (query_push ''id'' pid [])"

definition create_sticker_pack :: "Value \<Rightarrow> Value api_op" where
  "create_sticker_pack body = command_result op_STICKER_CREATE (body)"

definition purchase_sticker_pack :: "string \<Rightarrow> Value api_op" where
  "purchase_sticker_pack pid = command_result op_STICKER_PURCHASE (Map [(''id'', Text pid)])"

definition send_sticker :: "string \<Rightarrow> string \<Rightarrow> string \<Rightarrow> string \<Rightarrow> Value api_op" where
  "send_sticker to pack_id file_id client_message_id = command_result op_STICKER_SEND (Map [(''to'', Text to), (''pack_id'', Text pack_id), (''file_id'', Text file_id), (''client_message_id'', Text client_message_id)])"

definition set_sticker_pack_price :: "string \<Rightarrow> i64 \<Rightarrow> Value api_op" where
  "set_sticker_pack_price pid price_dsr = command_result op_STICKER_PRICE (Map [(''id'', Text pid), (''price_dsr'', Integer price_dsr)])"

definition set_e2e_key :: "string \<Rightarrow> Value api_op" where
  "set_e2e_key public_key_b64 = command_result op_SET_E2E_KEY (Map [(''version'', Integer 3), (''public_key'', Text public_key_b64)])"

definition set_chat_e2e_key :: "string \<Rightarrow> string \<Rightarrow> Value api_op" where
  "set_chat_e2e_key chat_id public_key_b64 = command_result op_SET_E2E_KEY (Map [(''version'', Integer 3), (''public_key'', Text public_key_b64), (''chat_id'', Text chat_id)])"

definition get_e2e_key :: "string \<Rightarrow> Value api_op" where
  "get_e2e_key peer = query_result op_GET_E2E_KEY (query_push ''user'' peer [])"

definition get_chat_e2e_key :: "string \<Rightarrow> string \<Rightarrow> Value api_op" where
  "get_chat_e2e_key peer chat_id = query_result op_GET_E2E_KEY (query_push ''chat_id'' chat_id (query_push ''user'' peer []))"

definition set_e2e_backup :: "Value \<Rightarrow> Value api_op" where
  "set_e2e_backup bk = command_result op_SET_E2E_BACKUP (bk)"

definition get_e2e_backup :: "Value api_op" where
  "get_e2e_backup = query_result op_GET_E2E_BACKUP []"

definition reset_e2e :: "Value api_op" where
  "reset_e2e = command_result op_RESET_E2E (Map [(''confirm'', Text ''reset_e2e'')])"

definition wallet :: "Value api_op" where
  "wallet = query_result op_WALLET []"

definition wallet_send :: "string \<Rightarrow> i64 \<Rightarrow> string option \<Rightarrow> string option \<Rightarrow> Value api_op" where
  "wallet_send to amount comment idempotency_key = command_result op_WALLET_SEND (Map ([(''to'', Text to), (''amount'', Integer amount)] @ opt_entry ''comment'' Text comment @ opt_entry ''idempotency_key'' Text idempotency_key))"

definition wallet_history :: "u64 option \<Rightarrow> Value api_op" where
  "wallet_history limit = query_result op_WALLET_HISTORY (opt_push query_push_u64 ''limit'' limit [])"

definition voice_call :: "string \<Rightarrow> string \<Rightarrow> Value api_op" where
  "voice_call to action = command_result op_CALL (Map [(''to'', Text to), (''action'', Text action)])"

definition create_voice_ticket :: "string \<Rightarrow> Value api_op" where
  "create_voice_ticket peer = command_result op_VOICE_TICKET (Map [(''peer'', Text peer)])"

definition voice_participants :: "string \<Rightarrow> Value api_op" where
  "voice_participants peer = query_result op_VOICE_PARTICIPANTS (query_push ''peer'' peer [])"

definition send_advanced :: "Value \<Rightarrow> message api_op" where
  "send_advanced request = message_command op_SEND request ''send response''"

definition edit_message :: "i64 \<Rightarrow> string \<Rightarrow> message api_op" where
  "edit_message mid txt = message_command op_EDIT (Map [(''id'', Integer mid), (''text'', Text txt)]) ''edit_message response''"

definition edit_message_advanced :: "Value \<Rightarrow> message api_op" where
  "edit_message_advanced request = message_command op_EDIT request ''edit_message response''"

definition pin_message :: "i64 \<Rightarrow> bool \<Rightarrow> message api_op" where
  "pin_message mid pinned = message_command op_PIN (Map [(''id'', Integer mid), (''pinned'', Bool pinned)]) ''pin_message response''"

definition vote_poll :: "i64 \<Rightarrow> i64 \<Rightarrow> message api_op" where
  "vote_poll message_id choice = message_command op_POLL_VOTE (Map [(''message_id'', Integer message_id), (''option'', Integer choice)]) ''vote_poll response''"

definition message_callback :: "string \<Rightarrow> i64 \<Rightarrow> string \<Rightarrow> Value api_op" where
  "message_callback to message_id callback = command_result op_CALLBACK (Map [(''to'', Text to), (''message_id'', Integer message_id), (''callback'', Text callback)])"

definition react :: "i64 \<Rightarrow> string \<Rightarrow> Value api_op" where
  "react message_id emoji = command_result op_REACT (Map [(''message_id'', Integer message_id), (''emoji'', Text emoji)])"

definition react_paid :: "i64 \<Rightarrow> i64 \<Rightarrow> string option \<Rightarrow> Value api_op" where
  "react_paid message_id amount idempotency_key = command_result op_REACT_PAID (Map ([(''message_id'', Integer message_id), (''amount'', Integer amount)] @ opt_entry ''idempotency_key'' Text idempotency_key))"

definition read_messages :: "string \<Rightarrow> Value api_op" where
  "read_messages peer = command_result op_READ (Map [(''peer'', Text peer)])"

definition delete_message :: "i64 \<Rightarrow> Value api_op" where
  "delete_message mid = command_result op_DELETE (Map [(''id'', Integer mid)])"

definition favorite_message :: "i64 \<Rightarrow> message api_op" where
  "favorite_message mid = message_command op_FAVORITE (Map [(''id'', Integer mid)]) ''favorite_message response''"

definition nodes_status :: "Value api_op" where
  "nodes_status = query_result op_NODES_STATUS []"

definition chats :: "Value api_op" where
  "chats = query_result op_CHATS []"

definition delete_chat :: "string \<Rightarrow> Value api_op" where
  "delete_chat peer = command_result op_DELETE_CHAT (Map [(''peer'', Text peer)])"

definition ban_user :: "string \<Rightarrow> Value api_op" where
  "ban_user username = command_result op_BAN_USER (Map [(''username'', Text username)])"

definition unban_user :: "string \<Rightarrow> Value api_op" where
  "unban_user username = command_result op_UNBAN_USER (Map [(''username'', Text username)])"

definition history :: "string \<Rightarrow> i64 option \<Rightarrow> i64 option \<Rightarrow> u64 option \<Rightarrow> Value api_op" where
  "history peer after before limit = query_result op_HISTORY (opt_push query_push_u64 ''limit'' limit (opt_push query_push_i64 ''before'' before (opt_push query_push_i64 ''after'' after (query_push ''peer'' peer []))))"

definition updates :: "i64 option \<Rightarrow> u64 option \<Rightarrow> Value api_op" where
  "updates after timeout_secs = query_result op_SYNC (opt_push query_push_u64 ''timeout'' timeout_secs (opt_push query_push_i64 ''after'' after []))"

definition ack_updates :: "i64 list \<Rightarrow> Value api_op" where
  "ack_updates ids = command_result op_BOT_ACK (Map [(''ids'', Array (map Integer ids))])"

definition register_node :: "Value \<Rightarrow> Value api_op" where
  "register_node request = command_result op_NODE_REGISTER (request)"

definition list_nodes :: "Value api_op" where
  "list_nodes = query_result op_NODE_LIST []"

definition oauth_device_request :: "string \<Rightarrow> Value api_op" where
  "oauth_device_request user_code = query_result op_OAUTH_DEVICE_REQUEST (query_push ''user_code'' user_code [])"

definition oauth_device_decision :: "string \<Rightarrow> string \<Rightarrow> Value api_op" where
  "oauth_device_decision user_code decision = command_result op_OAUTH_DEVICE_DECISION (Map [(''user_code'', Text user_code), (''decision'', Text decision)])"

definition botfather_execute :: "i64 \<Rightarrow> i64 \<Rightarrow> string \<Rightarrow> Value api_op" where
  "botfather_execute event_id user_id txt = command_result op_BOTFATHER_EXECUTE (Map [(''event_id'', Integer event_id), (''user_id'', Integer user_id), (''text'', Text txt)])"

definition dastars_credit :: "i64 \<Rightarrow> i64 \<Rightarrow> string \<Rightarrow> Value api_op" where
  "dastars_credit user_id amount txid = command_result op_DASTARS_CREDIT (Map [(''user_id'', Integer user_id), (''amount'', Integer amount), (''txid'', Text txid)])"

definition file_ticket :: "string \<Rightarrow> Value api_op" where
  "file_ticket fid = query_result op_FILE_TICKET (query_push ''id'' fid [])"

definition forward_message :: "i64 \<Rightarrow> string \<Rightarrow> string option \<Rightarrow> message api_op" where
  "forward_message message_id to client_message_id = message_command op_FORWARD (Map ([(''message_id'', Integer message_id), (''to'', Text to)] @ opt_entry ''client_message_id'' Text client_message_id)) ''forward_message response''"

definition media_quote :: "Value \<Rightarrow> Value api_op" where
  "media_quote request = command_result op_MEDIA_QUOTE (request)"

definition prepare_message_media :: "Value \<Rightarrow> Value api_op" where
  "prepare_message_media request = command_result op_MESSAGE_PREPARE (request)"

definition commit_message_media :: "string \<Rightarrow> Value api_op" where
  "commit_message_media operation_id = command_result op_MESSAGE_COMMIT (Map [(''operation_id'', Text operation_id)])"

definition cancel_message_media :: "string option \<Rightarrow> string option \<Rightarrow> Value api_op" where
  "cancel_message_media operation_id client_message_id = command_result op_MESSAGE_CANCEL (Map (opt_entry ''operation_id'' Text operation_id @ opt_entry ''client_message_id'' Text client_message_id))"

section \<open>Canonical values\<close>

text \<open>How a server writes the objects.\<close>

definition opt_value :: "('b \<Rightarrow> Value) \<Rightarrow> 'b option \<Rightarrow> Value" where
  "opt_value f x = (case x of None \<Rightarrow> Null | Some y \<Rightarrow> f y)"

definition user_value :: "user \<Rightarrow> Value" where
  "user_value u = Map [(''id'', Text (us_id u)), (''username'', opt_value Text (us_username u)), (''name'', opt_value Text (us_name u)),
     (''description'', Text (us_description u)), (''email'', opt_value Text (us_email u)), (''email_verified'', Bool (us_email_verified u)),
     (''verified'', Bool (us_verified u)), (''bot'', Bool (us_bot u)), (''created_at'', opt_value Integer (us_created_at u)),
     (''kind'', opt_value Text (us_kind u)), (''message_privacy'', opt_value Text (us_message_privacy u)),
     (''call_privacy'', opt_value Text (us_call_privacy u)), (''invite_privacy'', opt_value Text (us_invite_privacy u))]"

definition message_value :: "message \<Rightarrow> Value" where
  "message_value m = Map ([(''id'', Integer (ms_id m)), (''chat_id'', Text (ms_chat_id m)), (''from'', user_value (ms_from m)),
     (''to'', user_value (ms_to m)), (''text'', Text (ms_text m)), (''date'', Integer (ms_date m)),
     (''comment_post_id'', opt_value Integer (ms_comment_post_id m)), (''reply_to_message_id'', opt_value Integer (ms_reply_to_message_id m)),
     (''client_message_id'', opt_value Text (ms_client_message_id m)), (''edited_at'', opt_value Integer (ms_edited_at m)),
     (''pinned_at'', opt_value Integer (ms_pinned_at m)), (''read_at'', opt_value Integer (ms_read_at m)), (''media'', Array (ms_media m)),
     (''system'', Bool (ms_system m)), (''reactions'', Array (ms_reactions m))] @ opt_entry ''data'' id (ms_data m))"

definition normal_message :: "message \<Rightarrow> bool" where
  "normal_message m \<longleftrightarrow> list_all (\<lambda>v. cbor_norm v = v) (ms_media m) \<and> list_all (\<lambda>v. cbor_norm v = v) (ms_reactions m)
     \<and> (\<forall>d. ms_data m = Some d \<longrightarrow> cbor_norm d = d)"

lemma optional_string_opt: "value_get v key = Some (cbor_norm (opt_value Text x)) \<Longrightarrow> optional_string v key = Inr x"
  by (cases x) (simp_all add: optional_string_def opt_value_def)

lemma sint_nonneg: "0 \<le> sint (n :: i64) \<Longrightarrow> unat n \<le> 2 ^ 63 - 1"
proof -
  have even_small: "q < 2 \<Longrightarrow> 0 \<le> q \<Longrightarrow> even q \<Longrightarrow> q = 0" for q :: int by presburger
  assume "0 \<le> sint n"
  then have "\<not> bit (uint n) 63" by (simp add: sint_uint signed_take_bit_nonnegative_iff)
  then have "even (uint n div 2 ^ 63)" by (simp add: bit_iff_odd)
  moreover have "uint n div 2 ^ 63 < 2" using unsigned_less [of n, where 'a = int] by simp
  moreover have "0 \<le> uint n div 2 ^ 63" by (rule div_int_pos_iff [THEN iffD2]) simp
  ultimately have "uint n div 2 ^ 63 = 0" using even_small by blast
  then have "uint n < 2 ^ 63"
    using div_mult_mod_eq [of "uint n" "2 ^ 63"] pos_mod_bound [of "2 ^ 63" "uint n"] by simp
  then have "int (unat n) < int (2 ^ 63)" by simp
  then have "unat n < 2 ^ 63" by (rule of_nat_less_imp_less)
  then show "unat n \<le> 2 ^ 63 - 1" by simp
qed

lemma as_i64_norm: "as_i64 (cbor_norm (Integer n)) = Some n"
  using sint_nonneg [of n] by simp

lemma optional_i64_opt: "value_get v key = Some (cbor_norm (opt_value Integer x)) \<Longrightarrow> optional_i64 v key = Inr x"
  using sint_nonneg [of "the x"] by (cases x) (simp_all add: optional_i64_def opt_value_def ok_or_def)

lemma optional_bool_value: "value_get v key = Some (Bool b) \<Longrightarrow> optional_bool v key = Inr (Some b)"
  by (simp add: optional_bool_def)

lemma optional_array_value: "value_get v key = Some (Array vs) \<Longrightarrow> optional_array v key = Inr (Some vs)"
  by (simp add: optional_array_def)

lemma required_string_value: "value_get v key = Some (Text x) \<Longrightarrow> required_string v key context = Inr x"
  by (simp add: required_string_def required_field_def ok_or_def)

lemma required_i64_value: "value_get v key = Some (cbor_norm (Integer n)) \<Longrightarrow> required_i64 v key context = Inr n"
  using as_i64_norm by (simp add: required_i64_def required_field_def ok_or_def del: cbor_norm.simps(1))

lemmas value_readers = optional_string_opt optional_i64_opt optional_bool_value optional_array_value required_string_value
  required_i64_value

lemma value_get_norm: "value_get (cbor_norm (Map es)) key = map_option cbor_norm (value_get (Map es) key)"
  by (induction es) (auto split: prod.splits)

lemma user_value_get:
  "value_get (user_value u) ''id'' = Some (Text (us_id u))"
  "value_get (user_value u) ''username'' = Some (opt_value Text (us_username u))"
  "value_get (user_value u) ''name'' = Some (opt_value Text (us_name u))"
  "value_get (user_value u) ''description'' = Some (Text (us_description u))"
  "value_get (user_value u) ''email'' = Some (opt_value Text (us_email u))"
  "value_get (user_value u) ''email_verified'' = Some (Bool (us_email_verified u))"
  "value_get (user_value u) ''verified'' = Some (Bool (us_verified u))"
  "value_get (user_value u) ''bot'' = Some (Bool (us_bot u))"
  "value_get (user_value u) ''created_at'' = Some (opt_value Integer (us_created_at u))"
  "value_get (user_value u) ''kind'' = Some (opt_value Text (us_kind u))"
  "value_get (user_value u) ''message_privacy'' = Some (opt_value Text (us_message_privacy u))"
  "value_get (user_value u) ''call_privacy'' = Some (opt_value Text (us_call_privacy u))"
  "value_get (user_value u) ''invite_privacy'' = Some (opt_value Text (us_invite_privacy u))"
  by (simp_all add: user_value_def)

lemma user_norm_get: "value_get (cbor_norm (user_value u)) key = map_option cbor_norm (value_get (user_value u) key)"
  unfolding user_value_def by (rule value_get_norm)

lemma user_from_user_value: "user_from_value (cbor_norm (user_value u)) = Inr u"
proof -
  let ?v = "cbor_norm (user_value u)"
  have "required_string ?v ''id'' ''user'' = Inr (us_id u)" by (rule required_string_value) (simp add: user_norm_get user_value_get)
  moreover have "optional_string ?v ''username'' = Inr (us_username u)" "optional_string ?v ''name'' = Inr (us_name u)"
    "optional_string ?v ''email'' = Inr (us_email u)" "optional_string ?v ''kind'' = Inr (us_kind u)"
    "optional_string ?v ''message_privacy'' = Inr (us_message_privacy u)" "optional_string ?v ''call_privacy'' = Inr (us_call_privacy u)"
    "optional_string ?v ''invite_privacy'' = Inr (us_invite_privacy u)"
    by (rule optional_string_opt, simp add: user_norm_get user_value_get)+
  moreover have "optional_string ?v ''description'' = Inr (Some (us_description u))"
    by (rule optional_string_opt) (simp add: user_norm_get user_value_get opt_value_def)
  moreover have "optional_bool ?v ''email_verified'' = Inr (Some (us_email_verified u))" "optional_bool ?v ''verified'' = Inr (Some (us_verified u))"
    "optional_bool ?v ''bot'' = Inr (Some (us_bot u))"
    by (rule optional_bool_value, simp add: user_norm_get user_value_get)+
  moreover have "optional_i64 ?v ''created_at'' = Inr (us_created_at u)"
    by (rule optional_i64_opt) (simp add: user_norm_get user_value_get)
  ultimately show ?thesis by (simp add: user_from_value_def unwrap_or_def)
qed

lemma message_value_get:
  "value_get (message_value m) ''id'' = Some (Integer (ms_id m))"
  "value_get (message_value m) ''chat_id'' = Some (Text (ms_chat_id m))"
  "value_get (message_value m) ''from'' = Some (user_value (ms_from m))"
  "value_get (message_value m) ''to'' = Some (user_value (ms_to m))"
  "value_get (message_value m) ''text'' = Some (Text (ms_text m))"
  "value_get (message_value m) ''date'' = Some (Integer (ms_date m))"
  "value_get (message_value m) ''comment_post_id'' = Some (opt_value Integer (ms_comment_post_id m))"
  "value_get (message_value m) ''reply_to_message_id'' = Some (opt_value Integer (ms_reply_to_message_id m))"
  "value_get (message_value m) ''client_message_id'' = Some (opt_value Text (ms_client_message_id m))"
  "value_get (message_value m) ''edited_at'' = Some (opt_value Integer (ms_edited_at m))"
  "value_get (message_value m) ''pinned_at'' = Some (opt_value Integer (ms_pinned_at m))"
  "value_get (message_value m) ''read_at'' = Some (opt_value Integer (ms_read_at m))"
  "value_get (message_value m) ''media'' = Some (Array (ms_media m))"
  "value_get (message_value m) ''system'' = Some (Bool (ms_system m))"
  "value_get (message_value m) ''reactions'' = Some (Array (ms_reactions m))"
  "value_get (message_value m) ''data'' = ms_data m"
  by (simp_all add: message_value_def opt_entry_def split: option.split)

lemma message_norm_get: "value_get (cbor_norm (message_value m)) key = map_option cbor_norm (value_get (message_value m) key)"
  unfolding message_value_def by (rule value_get_norm)

lemma message_from_message_value:
  assumes "normal_message m"
  shows "message_from_value (cbor_norm (message_value m)) = Inr m"
proof -
  let ?v = "cbor_norm (message_value m)"
  note get = message_norm_get message_value_get
  have norm: "map cbor_norm (ms_media m) = ms_media m" "map cbor_norm (ms_reactions m) = ms_reactions m"
    "map_option cbor_norm (ms_data m) = ms_data m"
    using assms by (cases "ms_data m"; auto simp: normal_message_def list_all_iff map_idI)+
  have "required_i64 ?v ''id'' ''message'' = Inr (ms_id m)" "required_i64 ?v ''date'' ''message'' = Inr (ms_date m)"
    by (rule required_i64_value, simp add: get del: cbor_norm.simps(1))+
  moreover have "required_string ?v ''chat_id'' ''message'' = Inr (ms_chat_id m)" "required_string ?v ''text'' ''message'' = Inr (ms_text m)"
    by (rule required_string_value, simp add: get)+
  moreover have "required_field ?v ''from'' ''message'' = Inr (cbor_norm (user_value (ms_from m)))"
    "required_field ?v ''to'' ''message'' = Inr (cbor_norm (user_value (ms_to m)))"
    by (simp_all add: required_field_def get ok_or_def)
  moreover have "optional_i64 ?v ''comment_post_id'' = Inr (ms_comment_post_id m)" "optional_i64 ?v ''reply_to_message_id'' = Inr (ms_reply_to_message_id m)"
    "optional_i64 ?v ''edited_at'' = Inr (ms_edited_at m)" "optional_i64 ?v ''pinned_at'' = Inr (ms_pinned_at m)"
    "optional_i64 ?v ''read_at'' = Inr (ms_read_at m)"
    by (rule optional_i64_opt, simp add: get)+
  moreover have "optional_string ?v ''client_message_id'' = Inr (ms_client_message_id m)"
    by (rule optional_string_opt) (simp add: get)
  moreover have "optional_array ?v ''media'' = Inr (Some (ms_media m))" "optional_array ?v ''reactions'' = Inr (Some (ms_reactions m))"
    by (rule optional_array_value, simp add: get norm)+
  moreover have "optional_bool ?v ''system'' = Inr (Some (ms_system m))" by (rule optional_bool_value) (simp add: get)
  moreover have "value_get ?v ''data'' = ms_data m" by (simp add: get norm)
  ultimately show ?thesis by (simp add: message_from_value_def user_from_user_value unwrap_or_def)
qed

section \<open>Requests\<close>

lemma request_cbor_run:
  assumes "request_call_for (as_read_timeout s) (in_now (next_inputs s)) (in_checked (next_inputs s)) (in_random (next_inputs s))
      (as_client s) knd opcode payload \<lparr>ro_request_nonce = None, ro_deadline_ms = None\<rparr> = Inr (call, timeout)"
    "in_reply (next_inputs s) = Inr f"
  shows "request_cbor knd opcode payload s = (Inr (response_from_frame f), s\<lparr>as_calls := as_calls s @ [call]\<rparr>)"
  using assms by (simp add: request_cbor_def)

lemma request_call_for_command:
  assumes "has_principal c" "random = Some r" "length r = 16" "is_ok (deadline_timeout now' (saturating_add now read_timeout) read_timeout)"
  shows "\<exists>call timeout. request_call_for read_timeout now now' random c kind_COMMAND opcode payload
        \<lparr>ro_request_nonce = None, ro_deadline_ms = None\<rparr> = Inr (call, timeout)
    \<and> rq_kind call = kind_COMMAND \<and> rq_opcode call = opcode \<and> rq_payload call = payload \<and> rq_nonce call \<noteq> replicate 16 0"
proof -
  obtain t where t: "deadline_timeout now' (saturating_add now read_timeout) read_timeout = Inr t" using assms(4) by (auto simp: is_ok_iff)
  have "kind_COMMAND \<noteq> kind_QUERY" by (simp add: const_defs)
  moreover have "r[0 := 1] \<noteq> replicate 16 0" if "r = replicate 16 0" using that nonzero_update by auto
  ultimately show ?thesis
    using assms(1-3) t by (auto simp: request_call_for_def request_nonce_for_def unwrap_or_def ok_or_def)
qed

lemma encode_cbor_nonempty: "encode_cbor v \<noteq> []"
  by (induction v rule: encode_cbor_value.induct) (simp_all add: encode_cbor_def encode_cbor_head_def Let_def)

lemma into_result_value:
  assumes "f_kind f \<noteq> kind_ERROR" "f_code f < 400" "f_payload f = encode_cbor v" "cbor_ok 0 v" "length (encode_cbor v) < 2 ^ 64"
  shows "into_result (response_from_frame f) = Inr (cbor_norm v)"
proof -
  have "f_payload f \<noteq> []" unfolding assms(3) by (rule encode_cbor_nonempty)
  moreover have "\<not> 400 \<le> f_code f" using assms(2) by simp
  ultimately show ?thesis using assms(1,3) decode_encode_cbor [OF assms(4,5)]
    by (simp add: into_result_def response_cbor_def is_error_def response_from_frame_def)
qed

definition can_ask :: "api_state \<Rightarrow> nat \<Rightarrow> bool" where
  "can_ask s i = (case in_random (as_inputs s i) of None \<Rightarrow> False | Some r \<Rightarrow> length r = 16
     \<and> is_ok (deadline_timeout (in_checked (as_inputs s i)) (saturating_add (in_now (as_inputs s i)) (as_read_timeout s)) (as_read_timeout s)))"

definition replies :: "api_state \<Rightarrow> nat \<Rightarrow> Value \<Rightarrow> bool" where
  "replies s i v = (case in_reply (as_inputs s i) of Inl _ \<Rightarrow> False | Inr f \<Rightarrow> f_kind f \<noteq> kind_ERROR \<and> f_code f < 400
     \<and> f_payload f = encode_cbor v \<and> cbor_ok 0 v \<and> length (encode_cbor v) < 2 ^ 64)"

definition command_call :: "u16 \<Rightarrow> Value \<Rightarrow> request_call \<Rightarrow> bool" where
  "command_call opcode payload call \<longleftrightarrow> rq_kind call = kind_COMMAND \<and> rq_opcode call = opcode
     \<and> rq_payload call = encode_cbor payload \<and> rq_nonce call \<noteq> replicate 16 0"

lemma command_result_run:
  assumes "has_principal (as_client s)" "can_ask s (length (as_calls s))" "replies s (length (as_calls s)) v"
  shows "\<exists>call. command_result opcode payload s = (Inr (cbor_norm v), s\<lparr>as_calls := as_calls s @ [call]\<rparr>)
    \<and> command_call opcode payload call"
proof -
  obtain r where "in_random (next_inputs s) = Some r" "length r = 16"
    "is_ok (deadline_timeout (in_checked (next_inputs s)) (saturating_add (in_now (next_inputs s)) (as_read_timeout s)) (as_read_timeout s))"
    using assms(2) by (auto simp: can_ask_def next_inputs_def split: option.splits)
  from request_call_for_command [OF assms(1) this, of opcode "encode_cbor payload"] obtain call timeout where
    call: "request_call_for (as_read_timeout s) (in_now (next_inputs s)) (in_checked (next_inputs s)) (in_random (next_inputs s))
      (as_client s) kind_COMMAND opcode (encode_cbor payload) \<lparr>ro_request_nonce = None, ro_deadline_ms = None\<rparr> = Inr (call, timeout)"
    "command_call opcode payload call" by (auto simp: command_call_def)
  obtain f where f: "in_reply (next_inputs s) = Inr f" "f_kind f \<noteq> kind_ERROR" "f_code f < 400" "f_payload f = encode_cbor v"
    "cbor_ok 0 v" "length (encode_cbor v) < 2 ^ 64"
    using assms(3) by (auto simp: replies_def next_inputs_def split: sum.splits)
  show ?thesis using request_cbor_run [OF call(1) f(1)] into_result_value [OF f(2-6)] call(2)
    by (auto simp: command_result_def command_def abind_def alift_def)
qed

text \<open>
  C5: sending a text to a non-blank recipient issues exactly one COMMAND with the SEND
  opcode, a non-zero nonce and the two arguments, and the message the server answers is returned field
  for field; with a blank recipient or a blank text no request is made and the error is of kind InvalidInput.
\<close>

theorem send_text_exact:
  assumes "has_principal (as_client s)" "can_ask s (length (as_calls s))"
    "replies s (length (as_calls s)) (Map [(''message'', message_value m)])" "normal_message m"
  shows "if str_trim to = [] \<or> str_trim txt = []
    then \<exists>e. send_text to txt s = (Inl e, s) \<and> err_kind e = InvalidInput
    else \<exists>call. send_text to txt s = (Inr m, s\<lparr>as_calls := as_calls s @ [call]\<rparr>)
      \<and> command_call op_SEND (Map [(''to'', Text to), (''text'', Text txt)]) call"
proof -
  have "message_from_result (cbor_norm (Map [(''message'', message_value m)])) ctx = Inr m" for ctx
    using message_from_message_value [OF assms(4)] by (simp add: message_from_result_def required_field_def value_get_norm ok_or_def)
  with command_result_run [OF assms(1-3), of op_SEND "Map [(''to'', Text to), (''text'', Text txt)]"] show ?thesis
    by (auto simp: send_text_def message_command_def abind_def alift_def invalid_input_def)
qed

definition sample_user :: user where
  "sample_user = \<lparr>us_id = ''7'', us_username = Some ''bob'', us_name = None, us_description = [], us_email = None,
     us_email_verified = False, us_verified = True, us_bot = True, us_created_at = Some 9, us_kind = None,
     us_message_privacy = None, us_call_privacy = None, us_invite_privacy = None\<rparr>"

definition sample_message :: message where
  "sample_message = \<lparr>ms_id = 5, ms_chat_id = ''c'', ms_from = sample_user, ms_to = sample_user, ms_text = ''hi'', ms_date = 3,
     ms_comment_post_id = None, ms_reply_to_message_id = Some 4, ms_client_message_id = None, ms_edited_at = None,
     ms_pinned_at = None, ms_read_at = None, ms_media = [Text ''m''], ms_system = False, ms_data = None, ms_reactions = []\<rparr>"

definition sample_reply :: "Value \<Rightarrow> api_inputs" where
  "sample_reply v = \<lparr>in_now = 5, in_checked = 6, in_random = Some (replicate 16 3),
     in_reply = Inr \<lparr>f_kind = kind_RESULT, f_flags = 0, f_code = 200, f_id = 1, f_request_nonce = replicate 16 0,
       f_deadline_ms = 0, f_payload = encode_cbor v\<rparr>\<rparr>"

definition sample_api :: "client \<Rightarrow> Value list \<Rightarrow> api_state" where
  "sample_api c vs = \<lparr>as_client = c, as_read_timeout = 40000, as_inputs = (\<lambda>i. sample_reply (vs ! i)), as_calls = []\<rparr>"

lemma sample_api_can_ask: "can_ask (sample_api c vs) i"
  by (simp add: can_ask_def sample_api_def sample_reply_def deadline_timeout_def saturating_add_def saturating_sub_def is_ok_def)

lemma sample_api_replies: "replies (sample_api c vs) i (vs ! i) \<longleftrightarrow> cbor_ok 0 (vs ! i) \<and> length (encode_cbor (vs ! i)) < 2 ^ 64"
  by (simp add: replies_def sample_api_def sample_reply_def const_defs)

lemmas sample_value_defs = sample_message_def message_value_def sample_user_def user_value_def opt_value_def opt_entry_def

lemma sample_message_ok: "cbor_ok 0 (Map [(''message'', message_value sample_message)])"
  "length (encode_cbor (Map [(''message'', message_value sample_message)])) < 2 ^ 64"
  by (simp_all add: sample_value_defs MST5_MAX_PLAIN_PAYLOAD_def utf8_valid_def utf8_decode.simps as_bytes_def
      encode_cbor_def encode_cbor_head_def Let_def)

lemma sample_user_ok: "cbor_ok 0 (Map [(''token'', Text ''t''), (''user'', user_value sample_user)])"
  "length (encode_cbor (Map [(''token'', Text ''t''), (''user'', user_value sample_user)])) < 2 ^ 64"
  by (simp_all add: sample_value_defs MST5_MAX_PLAIN_PAYLOAD_def utf8_valid_def utf8_decode.simps as_bytes_def
      encode_cbor_def encode_cbor_head_def Let_def)

theorem send_text_exact_witness:
  "let s = sample_api sample_client [Map [(''message'', message_value sample_message)]] in
   has_principal (as_client s) \<and> can_ask s 0 \<and> normal_message sample_message
   \<and> (\<exists>call. send_text ''7'' ''hi'' s = (Inr sample_message, s\<lparr>as_calls := [call]\<rparr>))"
proof -
  let ?v = "Map [(''message'', message_value sample_message)]"
  let ?s = "sample_api sample_client [?v]"
  have *: "has_principal (as_client ?s)" "as_calls ?s = []" by (simp_all add: sample_api_def sample_client_def has_principal_def)
  have n: "normal_message sample_message" by (simp add: normal_message_def sample_message_def)
  have r: "replies ?s (length (as_calls ?s)) ?v" using sample_api_replies [of sample_client "[?v]" 0] sample_message_ok * by simp
  have "str_trim ''7'' \<noteq> []" "str_trim ''hi'' \<noteq> []" by (simp_all add: str_trim_def text_eval)
  with send_text_exact [OF *(1) sample_api_can_ask r n, of "''7''" "''hi''"] * n sample_api_can_ask show ?thesis by (auto simp: Let_def)
qed

section \<open>Signing in\<close>

lemma authenticate_run:
  assumes "in_reply (next_inputs s) = Inr f" "into_result (response_from_frame f) = Inr v" "auth_info_from_value v = Inr info"
  shows "authenticate [] s = (Inr (), s\<lparr>as_client := set_principal info (as_client s), as_calls := as_calls s @ [auth_call (auth_payload [])]\<rparr>)"
  using assms by (simp add: authenticate_def authenticate_info_with_client_metadata_def any_control_def str_chars_def text_eval utf8_decode.simps)

text \<open>A sign-in whose transport AUTH fails stops there: nothing but AUTH was sent and nobody is signed in.\<close>

lemma sign_in_auth_failed:
  assumes "\<not> has_principal (as_client s)" "in_reply (next_inputs s) = Inl e"
  shows "sign_in opcode payload ctx s = (Inl e, s\<lparr>as_calls := as_calls s @ [auth_call (auth_payload [])]\<rparr>)"
  using assms by (simp add: sign_in_def abind_def ensure_transport_authenticated_def authenticate_def
      authenticate_info_with_client_metadata_def any_control_def str_chars_def text_eval utf8_decode.simps)

text \<open>
  C11: a login on a connection without a principal first authenticates the transport with the
  empty token and only then sends the LOGIN command with the credentials; afterwards the principal is the
  user of the answer, under the session the transport authentication opened.
\<close>

theorem login_order:
  assumes "\<not> has_principal (as_client s)" "replies s (length (as_calls s)) v" "auth_info_from_value (cbor_norm v) = Inr info"
    "can_ask s (Suc (length (as_calls s)))"
    "replies s (Suc (length (as_calls s))) (Map [(''token'', Text token), (''user'', user_value u)])"
  shows "\<exists>call s'. login username password s = (Inr \<lparr>ar_token = token, ar_user = u\<rparr>, s')
    \<and> as_calls s' = as_calls s @ [auth_call (auth_payload []), call]
    \<and> command_call op_LOGIN (Map [(''username'', Text username), (''password'', Text password)]) call
    \<and> map_option ai_principal_id (cl_principal (as_client s')) = Some (Some (us_id u))
    \<and> map_option ai_session_id (cl_principal (as_client s')) = Some (ai_session_id info)"
proof -
  obtain f where f: "in_reply (next_inputs s) = Inr f" "into_result (response_from_frame f) = Inr (cbor_norm v)"
    using assms(2) into_result_value by (fastforce simp: replies_def next_inputs_def split: sum.splits)
  let ?t = "s\<lparr>as_client := set_principal info (as_client s), as_calls := as_calls s @ [auth_call (auth_payload [])]\<rparr>"
  let ?payload = "Map [(''username'', Text username), (''password'', Text password)]"
  have auth: "ensure_transport_authenticated s = (Inr (), ?t)"
    using authenticate_run [OF f assms(3)] assms(1) by (simp add: ensure_transport_authenticated_def)
  have "has_principal (as_client ?t)" by (simp add: has_principal_def set_principal_def)
  moreover have "can_ask ?t (length (as_calls ?t))" using assms(4) by (simp add: can_ask_def split: option.splits)
  moreover have "replies ?t (length (as_calls ?t)) (Map [(''token'', Text token), (''user'', user_value u)])"
    using assms(5) by (simp add: replies_def)
  ultimately obtain call where call: "command_result op_LOGIN ?payload ?t =
      (Inr (cbor_norm (Map [(''token'', Text token), (''user'', user_value u)])), ?t\<lparr>as_calls := as_calls ?t @ [call]\<rparr>)"
    "command_call op_LOGIN ?payload call" using command_result_run by blast
  have "auth_result_from_value (cbor_norm (Map [(''token'', Text token), (''user'', user_value u)])) ctx
      = Inr \<lparr>ar_token = token, ar_user = u\<rparr>" for ctx
    by (simp add: auth_result_from_value_def required_string_def required_field_def ok_or_def user_from_user_value)
  then show ?thesis using auth call
    by (simp add: login_def sign_in_def abind_def alift_def promote_auth_result_def set_principal_def)
qed

definition sample_stranger :: client where
  "sample_stranger = sample_client\<lparr>cl_principal := None\<rparr>"

theorem login_order_witness:
  "let v = Map [(''session_id'', Text ''s'')];
       s = sample_api sample_stranger [v, Map [(''token'', Text ''t''), (''user'', user_value sample_user)]] in
   \<not> has_principal (as_client s) \<and> replies s 0 v \<and> can_ask s 1
   \<and> (\<exists>call s'. login ''bob'' ''pw'' s = (Inr \<lparr>ar_token = ''t'', ar_user = sample_user\<rparr>, s')
      \<and> as_calls s' = [auth_call (auth_payload []), call] \<and> map_option ai_session_id (cl_principal (as_client s')) = Some (Some ''s''))"
proof -
  let ?v = "Map [(''session_id'', Text ''s'')]" and ?u = "Map [(''token'', Text ''t''), (''user'', user_value sample_user)]"
  let ?s = "sample_api sample_stranger [?v, ?u]"
  let ?i = "\<lparr>ai_principal_type = ''anonymous'', ai_principal_id = None, ai_scopes = [], ai_session_id = Some ''s'', ai_expires_at = None, ai_raw = ?v\<rparr>"
  have s: "\<not> has_principal (as_client ?s)" "as_calls ?s = []" by (simp_all add: sample_api_def sample_stranger_def has_principal_def)
  have "cbor_ok 0 ?v" "length (encode_cbor ?v) < 2 ^ 64"
    by (simp_all add: MST5_MAX_PLAIN_PAYLOAD_def utf8_valid_def utf8_decode.simps as_bytes_def encode_cbor_def encode_cbor_head_def Let_def)
  then have v: "replies ?s (length (as_calls ?s)) ?v" using sample_api_replies [of sample_stranger "[?v, ?u]" 0] s by simp
  have u: "replies ?s (Suc (length (as_calls ?s))) ?u"
    using sample_api_replies [of sample_stranger "[?v, ?u]" 1] sample_user_ok s by simp
  have i: "auth_info_from_value (cbor_norm ?v) = Inr ?i"
    by (simp add: auth_info_from_value_def unwrap_or_def or_else_def value_as_string_def)
  from login_order [OF s(1) v i sample_api_can_ask u, of "''bob''" "''pw''"] s v sample_api_can_ask show ?thesis
    by (auto simp: Let_def)
qed

end
