(* ===== verification/Ffi.thy ===== *)
theory Ffi
  imports Api Media_Transfer
begin

text \<open>
  The C interface of \<open>ffi/src/lib.rs\<close>: the registries of clients and identities
  behind integer handles, the last error, the buffers handed to the caller, and
  every entry point.  A C string is the bytes before its NUL, a null pointer
  \<open>None\<close>; an output pointer is only null or not.  What the network, the clock,
  the random generator, the file system and the JSON and CBOR crates do during
  one call is the argument \<open>ffi_env\<close>.
\<close>

section \<open>Results and state\<close>

type_synonym i32 = "32 word"

definition OK :: i32 where [const_defs]: "OK = 0"
definition INVALID_ARGUMENT :: i32 where [const_defs]: "INVALID_ARGUMENT = 1"
definition IO_ERROR :: i32 where [const_defs]: "IO_ERROR = 2"
definition NOT_FOUND :: i32 where [const_defs]: "NOT_FOUND = 3"
definition PANIC :: i32 where [const_defs]: "PANIC = 255"

text \<open>How a guarded action ends: a value, an error code with its message, or a panic.\<close>

datatype 'a outcome = Done 'a | Failed i32 string | Panicked

record buffer =
  bf_data :: nat
  bf_len :: nat

text \<open>\<open>fs_heap\<close> holds the buffers the caller owns, at addresses handed out in order from \<open>fs_fresh\<close>.\<close>

record ffi_state =
  fs_clients :: "u64 \<rightharpoonup> client"
  fs_identities :: "u64 \<rightharpoonup> identity"
  fs_next :: u64
  fs_error :: string
  fs_stores :: "string \<Rightarrow> id_store"
  fs_heap :: "nat \<rightharpoonup> bytes"
  fs_fresh :: nat

record ffi_env =
  fe_runtime :: "string option"
  fe_compiled :: "string result"
  fe_connect :: "bytes \<Rightarrow> string \<Rightarrow> client result"
  fe_inputs :: "nat \<Rightarrow> api_inputs"
  fe_read_timeout :: u64
  fe_random :: "nat \<Rightarrow> bytes option"
  fe_stream :: "stream_io result"
  fe_file_ops :: nat
  fe_remove :: "io_error option"
  fe_close :: "unit result"
  fe_json_from_str :: "string \<Rightarrow> string + json"
  fe_cbor_into_writer :: "json \<Rightarrow> string + bytes"
  fe_cbor_from_reader :: "bytes \<Rightarrow> string + json"
  fe_json_to_vec :: "json \<Rightarrow> string + bytes"

type_synonym 'a ffi_op = "ffi_state \<Rightarrow> 'a outcome \<times> ffi_state"

definition flift :: "'a outcome \<Rightarrow> 'a ffi_op" where
  "flift r s = (r, s)"

definition fbind :: "'a ffi_op \<Rightarrow> ('a \<Rightarrow> 'b ffi_op) \<Rightarrow> 'b ffi_op" where
  "fbind m f s = (case m s of (Done x, s) \<Rightarrow> f x s | (Failed code e, s) \<Rightarrow> (Failed code e, s) | (Panicked, s) \<Rightarrow> (Panicked, s))"

definition io_result :: "'a result \<Rightarrow> 'a outcome" where
  "io_result r = (case r of Inl e \<Rightarrow> Failed IO_ERROR (err_msg e) | Inr x \<Rightarrow> Done x)"

definition set_error :: "string \<Rightarrow> ffi_state \<Rightarrow> ffi_state" where
  "set_error e s = s\<lparr>fs_error := map (\<lambda>c. if c = CHR 0x00 then CHR '' '' else c) e\<rparr>"

definition guard :: "'a ffi_op \<Rightarrow> ffi_state \<Rightarrow> (i32 \<times> 'a option) \<times> ffi_state" where
  "guard act s = (case act s of
      (Done v, s) \<Rightarrow> ((OK, Some v), set_error [] s)
    | (Failed code e, s) \<Rightarrow> ((code, None), set_error e s)
    | (Panicked, s) \<Rightarrow> ((PANIC, None), set_error ''panic crossed the MST5 C ABI boundary'' s))"

section \<open>Arguments, outputs and handles\<close>

definition c_text :: "bytes option \<Rightarrow> string \<Rightarrow> string outcome" where
  "c_text v name = (case v of
      None \<Rightarrow> Failed INVALID_ARGUMENT (name @ '' is null'')
    | Some bs \<Rightarrow> if utf8_valid bs then Done (string_of_bytes bs) else Failed INVALID_ARGUMENT (name @ '' is not UTF-8''))"

definition c_bytes :: "bytes option \<Rightarrow> nat \<Rightarrow> string \<Rightarrow> bytes outcome" where
  "c_bytes v len name =
    (if len = 0 then Done []
     else case v of None \<Rightarrow> Failed INVALID_ARGUMENT (name @ '' is null'') | Some bs \<Rightarrow> Done (take len bs))"

definition out_pointer :: "bool \<Rightarrow> string \<Rightarrow> unit outcome" where
  "out_pointer out name = (if \<not> out then Failed INVALID_ARGUMENT (name @ '' is null'') else Done ())"

text \<open>An empty boxed slice owns no memory: its pointer is dangling, not null.\<close>

definition ffi_output :: "bool \<Rightarrow> bytes \<Rightarrow> buffer ffi_op" where
  "ffi_output out v s =
    (if \<not> out then (Failed INVALID_ARGUMENT ''output buffer is null'', s)
     else if v = [] then (Done \<lparr>bf_data = 1, bf_len = 0\<rparr>, s)
     else (Done \<lparr>bf_data = fs_fresh s, bf_len = length v\<rparr>,
       s\<lparr>fs_heap := (fs_heap s)(fs_fresh s \<mapsto> v), fs_fresh := fs_fresh s + length v\<rparr>))"

definition buffer_contents :: "ffi_state \<Rightarrow> buffer \<Rightarrow> bytes" where
  "buffer_contents s b = (if bf_len b = 0 then [] else case fs_heap s (bf_data b) of None \<Rightarrow> [] | Some v \<Rightarrow> take (bf_len b) v)"

definition next_handle :: "u64 ffi_op" where
  "next_handle s =
    (let handle = fs_next s in
     if handle = 0 then (Failed IO_ERROR ''native handle space exhausted'', s)
     else (Done handle, s\<lparr>fs_next := (if handle = - 1 then 0 else handle + 1)\<rparr>))"

definition ffi_runtime :: "ffi_env \<Rightarrow> unit outcome" where
  "ffi_runtime env = (case fe_runtime env of None \<Rightarrow> Done () | Some e \<Rightarrow> Failed IO_ERROR e)"

definition ffi_client :: "u64 \<Rightarrow> client ffi_op" where
  "ffi_client handle s = (case fs_clients s handle of
      None \<Rightarrow> (Failed NOT_FOUND ''client handle not found'', s) | Some c \<Rightarrow> (Done c, s))"

definition ffi_identity :: "u64 \<Rightarrow> identity ffi_op" where
  "ffi_identity handle s = (case fs_identities s handle of
      None \<Rightarrow> (Failed NOT_FOUND ''identity handle not found'', s) | Some idn \<Rightarrow> (Done idn, s))"

definition insert_client :: "client \<Rightarrow> u64 ffi_op" where
  "insert_client c = fbind next_handle (\<lambda>handle s. (Done handle, s\<lparr>fs_clients := (fs_clients s)(handle \<mapsto> c)\<rparr>))"

definition insert_identity :: "identity \<Rightarrow> u64 ffi_op" where
  "insert_identity idn = fbind next_handle (\<lambda>handle s. (Done handle, s\<lparr>fs_identities := (fs_identities s)(handle \<mapsto> idn)\<rparr>))"

text \<open>Blocking on an operation of the client, which may change the shared client behind the handle.\<close>

definition ffi_block_on :: "ffi_env \<Rightarrow> client \<Rightarrow> 'a api_op \<Rightarrow> 'a outcome \<times> client" where
  "ffi_block_on env c op = (case op \<lparr>as_client = c, as_read_timeout = fe_read_timeout env, as_inputs = fe_inputs env, as_calls = []\<rparr> of
      (r, st) \<Rightarrow> (io_result r, as_client st))"

section \<open>Envelopes and backups as bytes\<close>

definition encode_envelope :: "envelope \<Rightarrow> bytes" where
  "encode_envelope v = en_version v # en_nonce v @ en_ciphertext v"

definition decode_envelope :: "bytes \<Rightarrow> envelope outcome" where
  "decode_envelope v =
    (if length v < 41 \<or> \<not> (v ! 0 = LEGACY_ENVELOPE_VERSION \<or> v ! 0 = ENVELOPE_VERSION)
     then Failed INVALID_ARGUMENT ''unsupported E2E envelope''
     else Done \<lparr>en_version = v ! 0, en_nonce = take 24 (drop 1 v), en_ciphertext = drop 25 v\<rparr>)"

definition encode_backup :: "e2e_backup \<Rightarrow> bytes" where
  "encode_backup v = bk_version v # bk_salt v @ bk_nonce v @ bk_ciphertext v"

definition decode_backup :: "bytes \<Rightarrow> e2e_backup outcome" where
  "decode_backup v =
    (if length v \<noteq> 89 \<or> v ! 0 \<noteq> BACKUP_VERSION then Failed INVALID_ARGUMENT ''invalid E2E backup''
     else Done \<lparr>bk_version = v ! 0, bk_salt = take 16 (drop 1 v), bk_nonce = take 24 (drop 17 v), bk_ciphertext = drop 41 v\<rparr>)"

section \<open>Library calls\<close>

definition mst5_abi_version :: u32 where
  "mst5_abi_version = 1"

definition mst5_version :: string where
  "mst5_version = ''0.5.0''"

definition mst5_last_error :: "ffi_state \<Rightarrow> string" where
  "mst5_last_error s = fs_error s"

text \<open>Freeing a non-empty buffer the caller does not own is undefined behaviour: \<open>None\<close>.\<close>

definition mst5_buffer_free :: "buffer \<Rightarrow> ffi_state \<Rightarrow> ffi_state option" where
  "mst5_buffer_free b s =
    (if bf_data b = 0 \<or> bf_len b = 0 then Some s
     else case fs_heap s (bf_data b) of
       None \<Rightarrow> None
     | Some v \<Rightarrow> if length v = bf_len b then Some (s\<lparr>fs_heap := (fs_heap s)(bf_data b := None)\<rparr>) else None)"

section \<open>Client calls\<close>

definition mst5_client_connect :: "ffi_env \<Rightarrow> bytes option \<Rightarrow> bytes option \<Rightarrow> bool \<Rightarrow> ffi_state \<Rightarrow> (i32 \<times> u64 option) \<times> ffi_state" where
  "mst5_client_connect env endpoint key out = guard
    (fbind (flift (out_pointer out ''out_client'')) (\<lambda>_.
     fbind (flift (c_text endpoint ''endpoint'')) (\<lambda>endpoint.
     fbind (flift (c_text key ''server_public_key_b64'')) (\<lambda>key.
     fbind (flift (ffi_runtime env)) (\<lambda>_.
     fbind (flift (io_result (connect_with_options (fe_connect env) key endpoint))) insert_client)))))"

definition mst5_client_connect_compiled :: "ffi_env \<Rightarrow> bytes option \<Rightarrow> bool \<Rightarrow> ffi_state \<Rightarrow> (i32 \<times> u64 option) \<times> ffi_state" where
  "mst5_client_connect_compiled env endpoint out = guard
    (fbind (flift (out_pointer out ''out_client'')) (\<lambda>_.
     fbind (flift (c_text endpoint ''endpoint'')) (\<lambda>endpoint.
     fbind (flift (io_result (fe_compiled env))) (\<lambda>key.
     fbind (flift (ffi_runtime env)) (\<lambda>_.
     fbind (flift (io_result (connect_with_options (fe_connect env) key endpoint))) insert_client)))))"

definition mst5_client_connect_media ::
    "ffi_env \<Rightarrow> bytes option \<Rightarrow> bytes option \<Rightarrow> bytes option \<Rightarrow> bool \<Rightarrow> ffi_state \<Rightarrow> (i32 \<times> u64 option) \<times> ffi_state" where
  "mst5_client_connect_media env endpoint key ticket out = guard
    (fbind (flift (out_pointer out ''out_client'')) (\<lambda>_.
     fbind (flift (c_text endpoint ''endpoint'')) (\<lambda>endpoint.
     fbind (flift (c_text key ''server_public_key_b64'')) (\<lambda>key.
     fbind (flift (c_text ticket ''ticket'')) (\<lambda>ticket.
     fbind (flift (ffi_runtime env)) (\<lambda>_.
     fbind (flift (io_result (connect_media (\<lambda>_. in_reply (fe_inputs env 0)) (connect_with_options (fe_connect env) key endpoint) ticket)))
       insert_client))))))"

definition mst5_client_authenticate :: "ffi_env \<Rightarrow> u64 \<Rightarrow> bytes option \<Rightarrow> ffi_state \<Rightarrow> (i32 \<times> unit option) \<times> ffi_state" where
  "mst5_client_authenticate env handle token = guard
    (fbind (flift (c_text token ''token'')) (\<lambda>token.
     fbind (ffi_client handle) (\<lambda>c.
     fbind (flift (ffi_runtime env)) (\<lambda>_ s.
     case ffi_block_on env c (authenticate token) of (r, c) \<Rightarrow> (r, s\<lparr>fs_clients := (fs_clients s)(handle \<mapsto> c)\<rparr>)))))"

definition ffi_options :: "bytes option \<Rightarrow> u64 \<Rightarrow> request_options" where
  "ffi_options nonce deadline_ms =
    \<lparr>ro_request_nonce = nonce, ro_deadline_ms = (if deadline_ms = 0 then None else Some deadline_ms)\<rparr>"

definition ffi_request :: "ffi_env \<Rightarrow> client \<Rightarrow> u8 \<Rightarrow> u16 \<Rightarrow> bytes \<Rightarrow> request_options \<Rightarrow> response outcome" where
  "ffi_request env c knd opcode payload options = io_result (request_cbor_with_options (\<lambda>_ _. in_reply (fe_inputs env 0))
     (fe_read_timeout env) (in_now (fe_inputs env 0)) (in_checked (fe_inputs env 0)) (in_random (fe_inputs env 0)) c knd opcode payload options)"

definition mst5_client_request_inner ::
    "ffi_env \<Rightarrow> u64 \<Rightarrow> u8 \<Rightarrow> u16 \<Rightarrow> bytes option \<Rightarrow> nat \<Rightarrow> bytes option \<Rightarrow> u64 \<Rightarrow> bool \<Rightarrow> ffi_state
     \<Rightarrow> (i32 \<times> buffer option) \<times> ffi_state" where
  "mst5_client_request_inner env handle knd opcode payload payload_len nonce deadline_ms out = guard
    (fbind (flift (c_bytes payload payload_len ''payload'')) (\<lambda>payload.
     fbind (ffi_client handle) (\<lambda>c.
     fbind (flift (case nonce of None \<Rightarrow> Done () | Some n \<Rightarrow>
         if length n \<noteq> 16 then Failed INVALID_ARGUMENT ''nonce must be 16 bytes'' else Done ())) (\<lambda>_.
     fbind (flift (ffi_runtime env)) (\<lambda>_.
     fbind (flift (ffi_request env c knd opcode payload (ffi_options nonce deadline_ms))) (\<lambda>r.
     ffi_output out (rs_kind r # to_be_bytes (rs_status r) @ rs_payload r)))))))"

definition mst5_client_request ::
    "ffi_env \<Rightarrow> u64 \<Rightarrow> u8 \<Rightarrow> u16 \<Rightarrow> bytes option \<Rightarrow> nat \<Rightarrow> u64 \<Rightarrow> bool \<Rightarrow> ffi_state \<Rightarrow> (i32 \<times> buffer option) \<times> ffi_state" where
  "mst5_client_request env handle knd opcode payload payload_len deadline_ms out =
    mst5_client_request_inner env handle knd opcode payload payload_len None deadline_ms out"

definition mst5_client_request_with_nonce ::
    "ffi_env \<Rightarrow> u64 \<Rightarrow> u8 \<Rightarrow> u16 \<Rightarrow> bytes option \<Rightarrow> nat \<Rightarrow> bytes option \<Rightarrow> u64 \<Rightarrow> bool \<Rightarrow> ffi_state
     \<Rightarrow> (i32 \<times> buffer option) \<times> ffi_state" where
  "mst5_client_request_with_nonce env handle knd opcode payload payload_len nonce deadline_ms out s =
    (case nonce of
       None \<Rightarrow> ((INVALID_ARGUMENT, None), s)
     | Some n \<Rightarrow> mst5_client_request_inner env handle knd opcode payload payload_len (Some (take 16 n)) deadline_ms out s)"

definition mst5_client_close :: "ffi_env \<Rightarrow> u64 \<Rightarrow> ffi_state \<Rightarrow> (i32 \<times> unit option) \<times> ffi_state" where
  "mst5_client_close env handle = guard
    (fbind (ffi_client handle) (\<lambda>_ s.
     fbind (flift (ffi_runtime env)) (\<lambda>_. flift (io_result (fe_close env)))
       (s\<lparr>fs_clients := (fs_clients s)(handle := None)\<rparr>)))"

text \<open>
  The reader over the caller's bytes.  As a source it is one piece: its reads are
  those of \<open>source_read\<close> on the bytes from the offset on.
\<close>

record slice_reader =
  sr_data :: bytes
  sr_offset :: nat

definition poll_read :: "nat \<Rightarrow> slice_reader \<Rightarrow> bytes \<times> slice_reader" where
  "poll_read room r =
    (let remaining = drop (sr_offset r) (sr_data r) in
     if remaining = [] then ([], r)
     else let count = min (length remaining) room in
       (take count remaining, r\<lparr>sr_offset := sr_offset r + count\<rparr>))"

definition slice_source :: "slice_reader \<Rightarrow> bytes result list" where
  "slice_source r = [Inr (drop (sr_offset r) (sr_data r))]"

definition mst5_client_media_upload ::
    "'a crypto_scheme \<Rightarrow> ffi_env \<Rightarrow> u64 \<Rightarrow> bytes option \<Rightarrow> bytes option \<Rightarrow> nat \<Rightarrow> ffi_state
     \<Rightarrow> (i32 \<times> unit option) \<times> ffi_state" where
  "mst5_client_media_upload C env handle file_id data data_len = guard
    (fbind (flift (c_text file_id ''file_id'')) (\<lambda>file_id.
     fbind (flift (c_bytes data data_len ''data'')) (\<lambda>data.
     fbind (ffi_client handle) (\<lambda>c.
     fbind (flift (ffi_runtime env)) (\<lambda>_.
     flift (io_result (fst (upload_media C c file_id (word_of_nat data_len)
       (slice_source \<lparr>sr_data = data, sr_offset = 0\<rparr>) (fe_stream env)))))))))"

text \<open>\<open>Vec::with_capacity\<close> panics when the size is beyond \<open>isize::MAX\<close> (64-bit targets).\<close>

definition vec_with_capacity :: "u64 \<Rightarrow> unit outcome" where
  "vec_with_capacity n = (if 2 ^ 63 \<le> unat n then Panicked else Done ())"

definition mst5_client_media_download ::
    "'a crypto_scheme \<Rightarrow> ffi_env \<Rightarrow> u64 \<Rightarrow> bytes option \<Rightarrow> bool \<Rightarrow> ffi_state \<Rightarrow> (i32 \<times> buffer option) \<times> ffi_state" where
  "mst5_client_media_download C env handle file_id out = guard
    (fbind (flift (c_text file_id ''file_id'')) (\<lambda>file_id.
     fbind (ffi_client handle) (\<lambda>c.
     fbind (flift (ffi_runtime env)) (\<lambda>_.
     fbind (flift (fst (ffi_block_on env c (media_stat file_id)))) (\<lambda>n.
     fbind (flift (vec_with_capacity n)) (\<lambda>_.
     case download_media C c file_id n \<lparr>tg_bytes = [], tg_faults = [], tg_flush = None\<rparr> (fe_stream env) of (r, t, _) \<Rightarrow>
       fbind (flift (io_result r)) (\<lambda>_. ffi_output out (tg_bytes t))))))))"

definition mst5_client_media_stat ::
    "ffi_env \<Rightarrow> u64 \<Rightarrow> bytes option \<Rightarrow> bool \<Rightarrow> ffi_state \<Rightarrow> (i32 \<times> u64 option) \<times> ffi_state" where
  "mst5_client_media_stat env handle file_id out = guard
    (fbind (flift (out_pointer out ''out_size'')) (\<lambda>_.
     fbind (flift (c_text file_id ''file_id'')) (\<lambda>file_id.
     fbind (ffi_client handle) (\<lambda>c.
     fbind (flift (ffi_runtime env)) (\<lambda>_.
     flift (fst (ffi_block_on env c (media_stat file_id))))))))"

definition mst5_client_media_delete :: "ffi_env \<Rightarrow> u64 \<Rightarrow> bytes option \<Rightarrow> ffi_state \<Rightarrow> (i32 \<times> unit option) \<times> ffi_state" where
  "mst5_client_media_delete env handle file_id = guard
    (fbind (flift (c_text file_id ''file_id'')) (\<lambda>file_id.
     fbind (ffi_client handle) (\<lambda>c.
     fbind (flift (ffi_runtime env)) (\<lambda>_.
     flift (fst (ffi_block_on env c (media_delete file_id)))))))"

definition tagged :: "i32 \<Rightarrow> string \<Rightarrow> string + 'a \<Rightarrow> 'a outcome" where
  "tagged code prefix r = (case r of Inl e \<Rightarrow> Failed code (prefix @ e) | Inr x \<Rightarrow> Done x)"

definition serde_cbor_encode :: "ffi_env \<Rightarrow> json \<Rightarrow> bytes outcome" where
  "serde_cbor_encode env v = tagged IO_ERROR ''encode request CBOR: '' (fe_cbor_into_writer env v)"

definition mst5_client_request_json ::
    "ffi_env \<Rightarrow> u64 \<Rightarrow> u8 \<Rightarrow> u16 \<Rightarrow> bytes option \<Rightarrow> u64 \<Rightarrow> bool \<Rightarrow> ffi_state \<Rightarrow> (i32 \<times> buffer option) \<times> ffi_state" where
  "mst5_client_request_json env handle frame_kind opcode json_payload deadline_ms out = guard
    (fbind (flift (c_text json_payload ''json_payload'')) (\<lambda>txt.
     fbind (flift (tagged INVALID_ARGUMENT ''invalid JSON payload: '' (fe_json_from_str env txt))) (\<lambda>v.
     fbind (flift (serde_cbor_encode env v)) (\<lambda>payload.
     fbind (ffi_client handle) (\<lambda>c.
     fbind (flift (ffi_runtime env)) (\<lambda>_.
     fbind (flift (ffi_request env c frame_kind opcode payload (ffi_options None deadline_ms))) (\<lambda>r.
     fbind (flift (tagged IO_ERROR ''decode response CBOR: '' (fe_cbor_from_reader env (rs_payload r)))) (\<lambda>w.
     fbind (flift (tagged IO_ERROR [] (fe_json_to_vec env w))) (\<lambda>bs. ffi_output out bs)))))))))"

section \<open>Identity calls\<close>

definition mst5_identity_open ::
    "'a e2e_crypto_scheme \<Rightarrow> ffi_env \<Rightarrow> bytes option \<Rightarrow> bool \<Rightarrow> bool \<Rightarrow> ffi_state \<Rightarrow> (i32 \<times> u64 option) \<times> ffi_state" where
  "mst5_identity_open E env path create out = guard
    (fbind (flift (out_pointer out ''out_identity'')) (\<lambda>_.
     fbind (flift (c_text path ''private_store_path'')) (\<lambda>path.
     fbind (\<lambda>s. if create
         then (case load_or_create_identity E (fe_random env 0) (fe_file_ops env) (fs_stores s path) of
           (r, st) \<Rightarrow> (io_result r, s\<lparr>fs_stores := (fs_stores s)(path := st)\<rparr>))
         else (case io_result (load_identity E (fs_stores s path)) of
             Done None \<Rightarrow> (Failed NOT_FOUND ''identity does not exist'', s)
           | Done (Some idn) \<Rightarrow> (Done idn, s)
           | Failed code e \<Rightarrow> (Failed code e, s)
           | Panicked \<Rightarrow> (Panicked, s)))
     insert_identity)))"

definition mst5_identity_restore ::
    "'a e2e_crypto_scheme \<Rightarrow> ffi_env \<Rightarrow> bytes option \<Rightarrow> bytes option \<Rightarrow> bytes option \<Rightarrow> nat \<Rightarrow> bool \<Rightarrow> ffi_state
     \<Rightarrow> (i32 \<times> u64 option) \<times> ffi_state" where
  "mst5_identity_restore E env path password bk bk_len out = guard
    (fbind (flift (out_pointer out ''out_identity'')) (\<lambda>_.
     fbind (flift (c_text path ''private_store_path'')) (\<lambda>path.
     fbind (flift (c_text password ''password'')) (\<lambda>password.
     fbind (flift (c_bytes bk bk_len ''backup'')) (\<lambda>bs.
     fbind (flift (decode_backup bs)) (\<lambda>b.
     fbind (flift (io_result (restore E b password))) (\<lambda>restored.
     fbind (\<lambda>s. case save_identity (fe_file_ops env) restored (fs_stores s path) of
         (r, st) \<Rightarrow> (io_result r, s\<lparr>fs_stores := (fs_stores s)(path := st)\<rparr>)) (\<lambda>_.
     insert_identity restored))))))))"

definition mst5_identity_remove :: "ffi_env \<Rightarrow> bytes option \<Rightarrow> ffi_state \<Rightarrow> (i32 \<times> unit option) \<times> ffi_state" where
  "mst5_identity_remove env path = guard
    (fbind (flift (c_text path ''private_store_path'')) (\<lambda>path s.
     case fe_remove env of
       Some e \<Rightarrow> (Failed IO_ERROR (err_msg e), s)
     | None \<Rightarrow> (Done (), s\<lparr>fs_stores := (fs_stores s)(path := remove_identity (fs_stores s path))\<rparr>)))"

definition mst5_identity_close :: "u64 \<Rightarrow> ffi_state \<Rightarrow> (i32 \<times> unit option) \<times> ffi_state" where
  "mst5_identity_close handle = guard
    (fbind (ffi_identity handle) (\<lambda>_ s. (Done (), s\<lparr>fs_identities := (fs_identities s)(handle := None)\<rparr>)))"

definition mst5_identity_public_key :: "u64 \<Rightarrow> bool \<Rightarrow> ffi_state \<Rightarrow> (i32 \<times> buffer option) \<times> ffi_state" where
  "mst5_identity_public_key handle out = guard (fbind (ffi_identity handle) (\<lambda>idn. ffi_output out (id_public idn)))"

definition mst5_identity_fingerprint ::
    "'a e2e_crypto_scheme \<Rightarrow> u64 \<Rightarrow> bool \<Rightarrow> ffi_state \<Rightarrow> (i32 \<times> buffer option) \<times> ffi_state" where
  "mst5_identity_fingerprint E handle out = guard (fbind (ffi_identity handle) (\<lambda>idn.
     ffi_output out (as_bytes (fingerprint E (id_public idn)))))"

definition mst5_e2e_seal ::
    "'a e2e_crypto_scheme \<Rightarrow> ffi_env \<Rightarrow> u64 \<Rightarrow> bytes option \<Rightarrow> bytes option \<Rightarrow> bytes option \<Rightarrow> bytes option \<Rightarrow> nat \<Rightarrow> bool
     \<Rightarrow> ffi_state \<Rightarrow> (i32 \<times> buffer option) \<times> ffi_state" where
  "mst5_e2e_seal E env handle peer from to plaintext plaintext_len out = guard
    (fbind (flift (c_bytes peer 32 ''peer_public_key'')) (\<lambda>peer.
     fbind (ffi_identity handle) (\<lambda>idn.
     fbind (flift (c_text from ''from_id'')) (\<lambda>from.
     fbind (flift (c_text to ''to_id'')) (\<lambda>to.
     fbind (flift (c_bytes plaintext plaintext_len ''plaintext'')) (\<lambda>plaintext.
     fbind (flift (io_result (seal_envelope E (fe_random env 0) idn peer from to plaintext))) (\<lambda>env.
     ffi_output out (encode_envelope env))))))))"

definition mst5_e2e_open ::
    "'a e2e_crypto_scheme \<Rightarrow> u64 \<Rightarrow> bytes option \<Rightarrow> bytes option \<Rightarrow> bytes option \<Rightarrow> bytes option \<Rightarrow> nat \<Rightarrow> bool
     \<Rightarrow> ffi_state \<Rightarrow> (i32 \<times> buffer option) \<times> ffi_state" where
  "mst5_e2e_open E handle peer from to envelope envelope_len out = guard
    (fbind (flift (c_bytes peer 32 ''peer_public_key'')) (\<lambda>peer.
     fbind (ffi_identity handle) (\<lambda>idn.
     fbind (flift (c_text from ''from_id'')) (\<lambda>from.
     fbind (flift (c_text to ''to_id'')) (\<lambda>to.
     fbind (flift (c_bytes envelope envelope_len ''envelope'')) (\<lambda>bs.
     fbind (flift (decode_envelope bs)) (\<lambda>env.
     fbind (flift (io_result (open_envelope E idn peer from to env))) (\<lambda>plaintext.
     ffi_output out plaintext))))))))"

definition mst5_e2e_backup ::
    "'a e2e_crypto_scheme \<Rightarrow> ffi_env \<Rightarrow> u64 \<Rightarrow> bytes option \<Rightarrow> bool \<Rightarrow> ffi_state \<Rightarrow> (i32 \<times> buffer option) \<times> ffi_state" where
  "mst5_e2e_backup E env handle password out = guard
    (fbind (ffi_identity handle) (\<lambda>idn.
     fbind (flift (c_text password ''password'')) (\<lambda>password.
     fbind (flift (io_result (backup E (fe_random env 0) (fe_random env 1) idn password))) (\<lambda>b.
     ffi_output out (encode_backup b)))))"

section \<open>Runs of the interface\<close>

definition opt_list :: "'b option \<Rightarrow> 'b list" where
  "opt_list x = (case x of None \<Rightarrow> [] | Some y \<Rightarrow> [y])"

text \<open>Any sequence of calls from one thread; the second component lists the handles returned so far.\<close>

inductive ffi_step :: "'a e2e_crypto_scheme \<Rightarrow> ffi_state \<times> u64 list \<Rightarrow> ffi_state \<times> u64 list \<Rightarrow> bool" for E where
  step_connect: "mst5_client_connect env endpoint key out s = ((code, h), s') \<Longrightarrow> ffi_step E (s, hs) (s', hs @ opt_list h)"
| step_connect_compiled: "mst5_client_connect_compiled env endpoint out s = ((code, h), s') \<Longrightarrow> ffi_step E (s, hs) (s', hs @ opt_list h)"
| step_connect_media: "mst5_client_connect_media env endpoint key ticket out s = ((code, h), s') \<Longrightarrow> ffi_step E (s, hs) (s', hs @ opt_list h)"
| step_authenticate: "mst5_client_authenticate env handle token s = (r, s') \<Longrightarrow> ffi_step E (s, hs) (s', hs)"
| step_request: "mst5_client_request env handle knd opcode payload len deadline out s = (rb, s') \<Longrightarrow> ffi_step E (s, hs) (s', hs)"
| step_request_with_nonce: "mst5_client_request_with_nonce env handle knd opcode payload len nonce deadline out s = (rb, s')
    \<Longrightarrow> ffi_step E (s, hs) (s', hs)"
| step_request_json: "mst5_client_request_json env handle knd opcode txt deadline out s = (rb, s') \<Longrightarrow> ffi_step E (s, hs) (s', hs)"
| step_close: "mst5_client_close env handle s = (r, s') \<Longrightarrow> ffi_step E (s, hs) (s', hs)"
| step_upload: "mst5_client_media_upload E env handle fid data len s = (r, s') \<Longrightarrow> ffi_step E (s, hs) (s', hs)"
| step_download: "mst5_client_media_download E env handle fid out s = (rb, s') \<Longrightarrow> ffi_step E (s, hs) (s', hs)"
| step_stat: "mst5_client_media_stat env handle fid out s = (rn, s') \<Longrightarrow> ffi_step E (s, hs) (s', hs)"
| step_delete: "mst5_client_media_delete env handle fid s = (r, s') \<Longrightarrow> ffi_step E (s, hs) (s', hs)"
| step_identity_open: "mst5_identity_open E env path create out s = ((code, h), s') \<Longrightarrow> ffi_step E (s, hs) (s', hs @ opt_list h)"
| step_identity_restore: "mst5_identity_restore E env path password bk len out s = ((code, h), s') \<Longrightarrow> ffi_step E (s, hs) (s', hs @ opt_list h)"
| step_identity_remove: "mst5_identity_remove env path s = (r, s') \<Longrightarrow> ffi_step E (s, hs) (s', hs)"
| step_identity_close: "mst5_identity_close handle s = (r, s') \<Longrightarrow> ffi_step E (s, hs) (s', hs)"
| step_public_key: "mst5_identity_public_key handle out s = (rb, s') \<Longrightarrow> ffi_step E (s, hs) (s', hs)"
| step_fingerprint: "mst5_identity_fingerprint E handle out s = (rb, s') \<Longrightarrow> ffi_step E (s, hs) (s', hs)"
| step_seal: "mst5_e2e_seal E env handle peer from to txt len out s = (rb, s') \<Longrightarrow> ffi_step E (s, hs) (s', hs)"
| step_open: "mst5_e2e_open E handle peer from to txt len out s = (rb, s') \<Longrightarrow> ffi_step E (s, hs) (s', hs)"
| step_backup: "mst5_e2e_backup E env handle password out s = (rb, s') \<Longrightarrow> ffi_step E (s, hs) (s', hs)"
| step_free: "mst5_buffer_free buf s = Some s' \<Longrightarrow> ffi_step E (s, hs) (s', hs)"

definition ffi_init :: "ffi_state \<times> u64 list \<Rightarrow> bool" where
  "ffi_init sh \<longleftrightarrow> fs_clients (fst sh) = Map.empty \<and> fs_identities (fst sh) = Map.empty \<and> fs_next (fst sh) = 1 \<and> snd sh = []"

section \<open>Registries\<close>

definition keeps_registry :: "ffi_state \<Rightarrow> ffi_state \<Rightarrow> bool" where
  "keeps_registry s s' \<longleftrightarrow> fs_next s' = fs_next s \<and> dom (fs_clients s') \<subseteq> dom (fs_clients s) \<and> dom (fs_identities s') \<subseteq> dom (fs_identities s)"

definition extends_registry :: "u64 \<Rightarrow> ffi_state \<Rightarrow> ffi_state \<Rightarrow> bool" where
  "extends_registry h s s' \<longleftrightarrow> h \<noteq> 0 \<and> h = fs_next s \<and> fs_next s' = (if h = - 1 then 0 else h + 1)
     \<and> (dom (fs_clients s') \<subseteq> insert h (dom (fs_clients s)) \<and> dom (fs_identities s') \<subseteq> dom (fs_identities s)
       \<or> dom (fs_clients s') \<subseteq> dom (fs_clients s) \<and> dom (fs_identities s') \<subseteq> insert h (dom (fs_identities s)))"

definition keeps :: "'b ffi_op \<Rightarrow> bool" where
  "keeps m \<longleftrightarrow> (\<forall>s. keeps_registry s (snd (m s)))"

definition creates :: "u64 ffi_op \<Rightarrow> bool" where
  "creates m \<longleftrightarrow> (\<forall>s. case m s of (Done h, s') \<Rightarrow> extends_registry h s s' | (_, s') \<Rightarrow> keeps_registry s s')"

named_theorems ffi_intros \<open>how the operations of the interface treat the registries\<close>

lemma keeps_registry_refl [simp]: "keeps_registry s s"
  by (simp add: keeps_registry_def)

lemma keeps_registry_trans: "keeps_registry s t \<Longrightarrow> keeps_registry t u \<Longrightarrow> keeps_registry s u"
  unfolding keeps_registry_def by (elim conjE) (intro conjI; simp only: order_trans [of "dom _"])

lemma extend_trans: "C' \<subseteq> insert h C \<and> I' \<subseteq> I \<or> C' \<subseteq> C \<and> I' \<subseteq> insert h I \<Longrightarrow> C \<subseteq> A \<Longrightarrow> I \<subseteq> B
    \<Longrightarrow> C' \<subseteq> insert h A \<and> I' \<subseteq> B \<or> C' \<subseteq> A \<and> I' \<subseteq> insert h B" for C C' I I' A B :: "'b set"
  by auto

lemma keeps_extends:
  assumes "keeps_registry s t" "extends_registry h t u"
  shows "extends_registry h s u"
proof -
  have k: "fs_next t = fs_next s" "dom (fs_clients t) \<subseteq> dom (fs_clients s)" "dom (fs_identities t) \<subseteq> dom (fs_identities s)"
    using assms(1) unfolding keeps_registry_def by simp_all
  show ?thesis using assms(2) unfolding extends_registry_def k(1) by (elim conjE, intro conjI) (assumption+, rule extend_trans [OF _ k(2,3)])
qed

lemma keeps_flift [ffi_intros]: "keeps (flift r)"
  by (simp add: keeps_def flift_def)

lemma keeps_fbind [ffi_intros]:
  assumes "keeps m" "\<And>x. keeps (f x)"
  shows "keeps (fbind m f)"
  unfolding keeps_def
proof
  fix s
  obtain r t where m: "m s = (r, t)" by force
  have "keeps_registry s t" using assms(1) m unfolding keeps_def by (metis snd_conv)
  moreover have "keeps_registry t (snd (f x t))" for x using assms(2) unfolding keeps_def by blast
  ultimately show "keeps_registry s (snd (fbind m f s))" using m by (cases r) (auto simp: fbind_def intro: keeps_registry_trans)
qed

lemma keeps_ffi_output [ffi_intros]: "keeps (ffi_output out v)"
  by (simp add: keeps_def ffi_output_def keeps_registry_def)

lemma keeps_lookups [ffi_intros]: "keeps (ffi_client h)" "keeps (ffi_identity h)"
  by (simp_all add: keeps_def ffi_client_def ffi_identity_def split: option.split)

lemma creates_fbind [ffi_intros]:
  assumes "keeps m" "\<And>x. creates (f x)"
  shows "creates (fbind m f)"
  unfolding creates_def
proof
  fix s
  obtain r t where m: "m s = (r, t)" by force
  have k: "keeps_registry s t" using assms(1) m unfolding keeps_def by (metis snd_conv)
  show "case fbind m f s of (Done h, s') \<Rightarrow> extends_registry h s s' | (_, s') \<Rightarrow> keeps_registry s s'"
  proof (cases r)
    case (Done x)
    obtain q u where f: "f x t = (q, u)" by force
    have "case f x t of (Done h, s') \<Rightarrow> extends_registry h t s' | (_, s') \<Rightarrow> keeps_registry t s'"
      using assms(2) [of x] unfolding creates_def by (rule spec)
    then show ?thesis using k m f Done by (cases q) (auto simp: fbind_def intro: keeps_registry_trans keeps_extends)
  qed (use k m in \<open>auto simp: fbind_def\<close>)
qed

lemma creates_inserts [ffi_intros]: "creates (insert_client c)" "creates (insert_identity idn)"
  by (auto simp: creates_def insert_client_def insert_identity_def fbind_def next_handle_def Let_def extends_registry_def)

lemma keeps_stores [ffi_intros]: "keeps (\<lambda>s. case f s of (r, st) \<Rightarrow> (io_result r, s\<lparr>fs_stores := g s st\<rparr>))"
  by (simp add: keeps_def keeps_registry_def split: prod.split)

lemma keeps_if [ffi_intros]: "keeps m \<Longrightarrow> keeps m' \<Longrightarrow> keeps (\<lambda>s. if b then m s else m' s)"
  by (simp add: keeps_def)

lemma set_error_registry [simp]: "keeps_registry s (set_error e t) = keeps_registry s t"
  "extends_registry h s (set_error e t) = extends_registry h s t"
  by (simp_all add: set_error_def keeps_registry_def extends_registry_def)

lemma guard_keeps:
  assumes "keeps m" "guard m s = (r, s')"
  shows "keeps_registry s s'"
proof -
  obtain q t where m: "m s = (q, t)" by force
  have "keeps_registry s t" using assms(1) m unfolding keeps_def by (metis snd_conv)
  then show ?thesis using assms(2) m by (cases q) (auto simp: guard_def)
qed

lemma guard_creates:
  assumes "creates m" "guard m s = ((code, h), s')"
  shows "case h of None \<Rightarrow> keeps_registry s s' | Some h \<Rightarrow> extends_registry h s s'"
proof -
  obtain q t where m: "m s = (q, t)" by force
  have "case m s of (Done h, s') \<Rightarrow> extends_registry h s s' | (_, s') \<Rightarrow> keeps_registry s s'"
    using assms(1) unfolding creates_def by (rule spec)
  then show ?thesis using assms(2) m by (cases q) (auto simp: guard_def)
qed

lemma keeps_download: "keeps (case d of (r, t, io) \<Rightarrow> fbind (flift (io_result r)) (\<lambda>_. ffi_output out (tg_bytes t)))"
  by (simp add: keeps_fbind keeps_flift keeps_ffi_output split: prod.split)

lemma creating_calls:
  "mst5_client_connect env endpoint key out s = ((code, h), s') \<Longrightarrow> case h of None \<Rightarrow> keeps_registry s s' | Some h \<Rightarrow> extends_registry h s s'"
  "mst5_client_connect_compiled env endpoint out s = ((code, h), s') \<Longrightarrow> case h of None \<Rightarrow> keeps_registry s s' | Some h \<Rightarrow> extends_registry h s s'"
  "mst5_client_connect_media env endpoint key ticket out s = ((code, h), s') \<Longrightarrow> case h of None \<Rightarrow> keeps_registry s s' | Some h \<Rightarrow> extends_registry h s s'"
  "mst5_identity_restore E env path password bk len out s = ((code, h), s') \<Longrightarrow> case h of None \<Rightarrow> keeps_registry s s' | Some h \<Rightarrow> extends_registry h s s'"
  unfolding mst5_client_connect_def mst5_client_connect_compiled_def mst5_client_connect_media_def mst5_identity_restore_def
  by (erule guard_creates [rotated], intro ffi_intros)+

lemma identity_open_call:
  "mst5_identity_open E env path create out s = ((code, h), s') \<Longrightarrow> case h of None \<Rightarrow> keeps_registry s s' | Some h \<Rightarrow> extends_registry h s s'"
  unfolding mst5_identity_open_def
proof (erule guard_creates [rotated], intro ffi_intros)
  show "keeps (\<lambda>s. case io_result (load_identity E (fs_stores s x)) of
             Done None \<Rightarrow> (Failed NOT_FOUND ''identity does not exist'', s)
           | Done (Some idn) \<Rightarrow> (Done idn, s) | Failed code e \<Rightarrow> (Failed code e, s) | Panicked \<Rightarrow> (Panicked, s))" for x
    by (auto simp: keeps_def split: outcome.split option.split)
qed

lemma keeping_calls:
  "mst5_client_request_inner env handle knd opcode payload len nonce deadline out s = (rb, s') \<Longrightarrow> keeps_registry s s'"
  "mst5_client_request_json env handle knd opcode txt deadline out s = (rb, s') \<Longrightarrow> keeps_registry s s'"
  "mst5_client_media_upload E env handle fid data len s = (r, s') \<Longrightarrow> keeps_registry s s'"
  "mst5_client_media_stat env handle fid out s = (rn, s') \<Longrightarrow> keeps_registry s s'"
  "mst5_client_media_delete env handle fid s = (r, s') \<Longrightarrow> keeps_registry s s'"
  "mst5_identity_public_key handle out s = (rb, s') \<Longrightarrow> keeps_registry s s'"
  "mst5_identity_fingerprint E2 handle out s = (rb, s') \<Longrightarrow> keeps_registry s s'"
  "mst5_e2e_seal E2 env handle peer from to txt2 len out s = (rb, s') \<Longrightarrow> keeps_registry s s'"
  "mst5_e2e_open E2 handle peer from to txt2 len out s = (rb, s') \<Longrightarrow> keeps_registry s s'"
  "mst5_e2e_backup E2 env handle password out s = (rb, s') \<Longrightarrow> keeps_registry s s'"
  unfolding mst5_client_request_inner_def mst5_client_request_json_def mst5_client_media_upload_def mst5_client_media_stat_def
    mst5_client_media_delete_def mst5_identity_public_key_def mst5_identity_fingerprint_def mst5_e2e_seal_def mst5_e2e_open_def
    mst5_e2e_backup_def
  by (erule guard_keeps [rotated], intro ffi_intros)+

lemma download_call: "mst5_client_media_download E env handle fid out s = (rb, s') \<Longrightarrow> keeps_registry s s'"
  unfolding mst5_client_media_download_def
  by (erule guard_keeps [rotated], intro ffi_intros keeps_download)

lemma updating_calls:
  "mst5_client_authenticate env handle token s = (r, s') \<Longrightarrow> keeps_registry s s'"
  "mst5_client_close env handle s = (r, s') \<Longrightarrow> keeps_registry s s'"
  "mst5_identity_close handle s = (r, s') \<Longrightarrow> keeps_registry s s'"
  "mst5_identity_remove env path s = (r, s') \<Longrightarrow> keeps_registry s s'"
  "mst5_buffer_free buf s = Some s' \<Longrightarrow> keeps_registry s s'"
proof -
  have put: "keeps_registry s (s\<lparr>fs_clients := (fs_clients s)(h \<mapsto> c)\<rparr>)" if "fs_clients s h = Some c'" for h c c' and s :: ffi_state
    using that by (auto simp: keeps_registry_def)
  have cut: "keeps_registry s (s\<lparr>fs_clients := (fs_clients s)(h := None)\<rparr>)"
    "keeps_registry s (s\<lparr>fs_identities := (fs_identities s)(h := None)\<rparr>)" "keeps_registry s (s\<lparr>fs_stores := st\<rparr>)"
    "keeps_registry s (s\<lparr>fs_heap := hp\<rparr>)" for h st hp and s :: ffi_state
    by (auto simp: keeps_registry_def)
  note defs = guard_def fbind_def flift_def ffi_client_def ffi_identity_def
  show "mst5_client_authenticate env handle token s = (r, s') \<Longrightarrow> keeps_registry s s'"
    by (auto simp: mst5_client_authenticate_def defs put split: outcome.splits prod.splits option.splits)
  show "mst5_client_close env handle s = (r, s') \<Longrightarrow> keeps_registry s s'"
    by (auto simp: mst5_client_close_def defs cut split: outcome.splits prod.splits option.splits)
  show "mst5_identity_close handle s = (r, s') \<Longrightarrow> keeps_registry s s'"
    by (auto simp: mst5_identity_close_def defs cut split: outcome.splits prod.splits option.splits)
  show "mst5_identity_remove env path s = (r, s') \<Longrightarrow> keeps_registry s s'"
    by (auto simp: mst5_identity_remove_def defs cut split: outcome.splits prod.splits option.splits)
  show "mst5_buffer_free buf s = Some s' \<Longrightarrow> keeps_registry s s'"
    by (auto simp: mst5_buffer_free_def cut split: option.splits if_splits)
qed

text \<open>A call keeps the registries, or returns one new handle and enters it in one of them.\<close>

lemma ffi_step_registry:
  assumes "ffi_step E sh sh'"
  shows "snd sh' = snd sh \<and> keeps_registry (fst sh) (fst sh')
    \<or> (\<exists>h. snd sh' = snd sh @ [h] \<and> extends_registry h (fst sh) (fst sh'))"
proof -
  have new: ?thesis if "sh = (s, hs)" "sh' = (s', hs @ opt_list h)"
    "case h of None \<Rightarrow> keeps_registry s s' | Some h \<Rightarrow> extends_registry h s s'" for s s' hs h
    using that by (cases h) (simp_all add: opt_list_def)
  have old: ?thesis if "sh = (s, hs)" "sh' = (s', hs)" "keeps_registry s s'" for s s' hs using that by simp
  from assms show ?thesis
  proof cases
    case step_request then show ?thesis by (intro old) (auto simp: mst5_client_request_def dest: keeping_calls)
  next
    case step_request_with_nonce
    then show ?thesis by (intro old) (auto simp: mst5_client_request_with_nonce_def split: option.splits dest: keeping_calls)
  qed (erule (1) new old; erule creating_calls identity_open_call keeping_calls download_call updating_calls)+
qed

definition registry_inv :: "ffi_state \<times> u64 list \<Rightarrow> bool" where
  "registry_inv sh = (case sh of (s, hs) \<Rightarrow> distinct hs \<and> 0 \<notin> set hs \<and> (fs_next s \<noteq> 0 \<longrightarrow> (\<forall>h\<in>set hs. h < fs_next s))
     \<and> dom (fs_clients s) \<subseteq> set hs \<and> dom (fs_identities s) \<subseteq> set hs \<and> dom (fs_clients s) \<inter> dom (fs_identities s) = {})"

lemma registry_inv_keeps: "registry_inv (s, hs) \<Longrightarrow> keeps_registry s s' \<Longrightarrow> registry_inv (s', hs)"
  unfolding registry_inv_def keeps_registry_def prod.case by (elim conjE, intro conjI) (assumption | simp | blast)+

lemma extend_disjoint: "C' \<subseteq> insert h C \<and> I' \<subseteq> I \<or> C' \<subseteq> C \<and> I' \<subseteq> insert h I \<Longrightarrow> C \<subseteq> H \<Longrightarrow> I \<subseteq> H \<Longrightarrow> C \<inter> I = {}
    \<Longrightarrow> h \<notin> H \<Longrightarrow> C' \<subseteq> insert h H \<and> I' \<subseteq> insert h H \<and> C' \<inter> I' = {}" for C C' I I' H :: "'b set"
  by blast

lemma registry_inv_extends:
  assumes "registry_inv (s, hs)" "extends_registry h s s'"
  shows "registry_inv (s', hs @ [h])"
proof -
  have h: "h \<noteq> 0" "fs_next s = h" "fs_next s' = (if h = - 1 then 0 else h + 1)" using assms(2) unfolding extends_registry_def by blast+
  have below: "\<forall>x\<in>set hs. x < h" using assms(1) h by (simp add: registry_inv_def)
  have "x < h + 1" if "x \<le> h" "h \<noteq> - 1" for x
  proof -
    have "1 + h \<noteq> 0" using that(2) by (metis add.commute add_eq_0_iff)
    then have "unat (h + 1) = Suc (unat h)" using unatSuc [of h] by (simp add: add.commute)
    then show ?thesis using that(1) by (simp add: word_less_nat_alt word_le_nat_alt)
  qed
  then have "fs_next s' \<noteq> 0 \<longrightarrow> (\<forall>x\<in>set (hs @ [h]). x < fs_next s')" using below h by (auto intro: less_imp_le)
  moreover have "h \<notin> set hs" using below by auto
  moreover from this have "dom (fs_clients s') \<subseteq> insert h (set hs) \<and> dom (fs_identities s') \<subseteq> insert h (set hs)
      \<and> dom (fs_clients s') \<inter> dom (fs_identities s') = {}"
    using assms unfolding registry_inv_def extends_registry_def prod.case by (elim conjE) (rule extend_disjoint)
  moreover have "distinct hs" "0 \<notin> set hs" using assms(1) by (simp_all add: registry_inv_def)
  ultimately show ?thesis using h(1) by (simp add: registry_inv_def)
qed

interpretation handles: invariant_system ffi_init "ffi_step E" registry_inv
proof
  show "ffi_init sh \<Longrightarrow> registry_inv sh" for sh by (cases sh) (simp add: ffi_init_def registry_inv_def)
  show "registry_inv sh \<Longrightarrow> ffi_step E sh sh' \<Longrightarrow> registry_inv sh'" for sh sh'
    using ffi_step_registry [of E sh sh'] by (cases sh; cases sh') (auto intro: registry_inv_keeps registry_inv_extends)
qed

lemma dom_extended: "dom f' \<subseteq> insert x (dom f) \<Longrightarrow> x \<noteq> h \<Longrightarrow> f h = None \<Longrightarrow> f' h = None"
  using domIff subsetD by fastforce

lemma extends_bound: "C' \<subseteq> insert h C \<and> I' \<subseteq> I \<or> C' \<subseteq> C \<and> I' \<subseteq> insert h I \<Longrightarrow> C' \<subseteq> insert h C \<and> I' \<subseteq> insert h I"
  for C C' I I' :: "'b set"
  by blast

lemma registry_step_closed:
  assumes "registry_inv t" "ffi_step E t u" "h \<in> set (snd t)"
  shows "h \<in> set (snd u) \<and> (fs_clients (fst t) h = None \<longrightarrow> fs_clients (fst u) h = None)
    \<and> (fs_identities (fst t) h = None \<longrightarrow> fs_identities (fst u) h = None)"
proof -
  obtain x where "x \<noteq> h" "set (snd t) \<subseteq> set (snd u)" "dom (fs_clients (fst u)) \<subseteq> insert x (dom (fs_clients (fst t)))"
    "dom (fs_identities (fst u)) \<subseteq> insert x (dom (fs_identities (fst t)))"
  proof (cases "snd u = snd t \<and> keeps_registry (fst t) (fst u)")
    case True
    moreover obtain x where "x \<noteq> h" by (metis zero_neq_one)
    ultimately show ?thesis using that [of x] by (simp add: keeps_registry_def subset_insertI2)
  next
    case False
    then obtain x where x: "snd u = snd t @ [x]" "extends_registry x (fst t) (fst u)" using ffi_step_registry [OF assms(2)] by blast
    then have "x = fs_next (fst t)" "x \<noteq> 0" unfolding extends_registry_def by blast+
    then have "x \<noteq> h" using assms(1,3) by (cases t) (auto simp: registry_inv_def)
    moreover have "dom (fs_clients (fst u)) \<subseteq> insert x (dom (fs_clients (fst t))) \<and> dom (fs_identities (fst u)) \<subseteq> insert x (dom (fs_identities (fst t)))"
      using x(2) unfolding extends_registry_def by (elim conjE) (rule extends_bound)
    ultimately show ?thesis using that [of x] x(1) by (simp add: subset_insertI)
  qed
  then show ?thesis using assms(3) dom_extended by (meson subsetD)
qed

lemma handle_stays_closed:
  assumes "registry_inv sh" "(ffi_step E)\<^sup>*\<^sup>* sh sh'" "h \<in> set (snd sh)"
  shows "h \<in> set (snd sh') \<and> (fs_clients (fst sh) h = None \<longrightarrow> fs_clients (fst sh') h = None)
    \<and> (fs_identities (fst sh) h = None \<longrightarrow> fs_identities (fst sh') h = None)"
  using assms(2)
proof (induction rule: rtranclp_induct)
  case (step t u)
  then show ?case using registry_step_closed [OF handles.inv_steps [OF assms(1) step(1)] step(2)] by simp
qed (use assms(3) in simp)

section \<open>Properties\<close>

text \<open>
  C6: over any sequence of calls of the C interface all handles returned are different,
  a handle is never both a client and an identity, every open handle was returned by a call, and a handle
  that has been closed stays closed.
\<close>

theorem ffi_handles_unique:
  assumes "reachable ffi_init (ffi_step E) (s, hs)" "(ffi_step E)\<^sup>*\<^sup>* (s, hs) (s', hs')"
  shows "distinct hs' \<and> dom (fs_clients s') \<inter> dom (fs_identities s') = {} \<and> dom (fs_clients s') \<union> dom (fs_identities s') \<subseteq> set hs'
    \<and> (\<forall>h\<in>set hs. (fs_clients s h = None \<longrightarrow> fs_clients s' h = None) \<and> (fs_identities s h = None \<longrightarrow> fs_identities s' h = None))"
proof -
  have inv: "registry_inv (s, hs)" using handles.inv_reachable [OF assms(1)] .
  then have "registry_inv (s', hs')" using handles.inv_steps assms(2) by blast
  then show ?thesis using handle_stays_closed [OF inv assms(2)] by (simp add: registry_inv_def)
qed

definition sample_env :: ffi_env where
  "sample_env = \<lparr>fe_runtime = None, fe_compiled = Inr [], fe_connect = (\<lambda>_ _. Inr sample_client), fe_inputs = (\<lambda>_. sample_reply Null),
     fe_read_timeout = 40000, fe_random = (\<lambda>i. Some (if i = 0 then replicate 32 1 else replicate 24 2)),
     fe_stream = Inl (timed_out []), fe_file_ops = 9, fe_remove = None, fe_close = Inr (),
     fe_json_from_str = (\<lambda>_. Inr JNull), fe_cbor_into_writer = (\<lambda>_. Inr [0xf6]), fe_cbor_from_reader = (\<lambda>_. Inr JNull),
     fe_json_to_vec = (\<lambda>_. Inr (as_bytes ''null''))\<rparr>"

definition sample_ffi :: "(u64 \<rightharpoonup> identity) \<Rightarrow> u64 \<Rightarrow> id_store \<Rightarrow> ffi_state" where
  "sample_ffi ids n st = \<lparr>fs_clients = Map.empty, fs_identities = ids, fs_next = n, fs_error = [],
     fs_stores = (\<lambda>_. \<lparr>st_file = None, st_temporary = None\<rparr>)([] := st), fs_heap = Map.empty, fs_fresh = 16\<rparr>"

abbreviation no_store :: id_store where
  "no_store \<equiv> \<lparr>st_file = None, st_temporary = None\<rparr>"

abbreviation sample_identity :: identity where
  "sample_identity \<equiv> from_private toy_e2e (replicate 32 1)"

lemma sample_open:
  assumes "n \<noteq> 0" "n \<noteq> - 1"
  shows "\<exists>st'. mst5_identity_open toy_e2e sample_env (Some []) True True (sample_ffi ids n no_store)
     = ((OK, Some n), sample_ffi (ids(n \<mapsto> sample_identity)) (n + 1) st')
   \<and> load_identity toy_e2e st' = Inr (Some sample_identity)"
proof -
  obtain st' where saved: "save_identity 9 sample_identity no_store = (Inr (), st')"
    using save_identity_file(2) [of 9 sample_identity no_store] by (cases "save_identity 9 sample_identity no_store") auto
  then have st: "load_or_create_identity toy_e2e (Some (replicate 32 1)) 9 no_store = (Inr sample_identity, st')"
    by (simp add: load_or_create_identity_def load_identity_def generate_identity_def random_bytes_def)
  have "load_identity toy_e2e st' = Inr (Some sample_identity)"
    using saved save_identity_file(1) [of 9 sample_identity no_store] load_identity_file [of "replicate 32 1" st' toy_e2e] by simp
  moreover have "utf8_valid []" by (simp add: utf8_valid_def utf8_decode.simps)
  ultimately show ?thesis using assms st
    by (simp add: mst5_identity_open_def guard_def fbind_def flift_def out_pointer_def c_text_def sample_env_def sample_ffi_def
        io_result_def insert_identity_def next_handle_def set_error_def string_of_bytes_def exI [of _ st'])
qed

lemma sample_close:
  "mst5_identity_close n (sample_ffi (ids(n \<mapsto> idn)) m st) = ((OK, Some ()), sample_ffi (ids(n := None)) m st)"
  by (simp add: mst5_identity_close_def guard_def fbind_def ffi_identity_def sample_ffi_def set_error_def)

lemma sample_reopen:
  assumes "n \<noteq> 0" "n \<noteq> - 1" "load_identity toy_e2e st = Inr (Some idn)"
  shows "mst5_identity_open toy_e2e sample_env (Some []) False True (sample_ffi ids n st)
     = ((OK, Some n), sample_ffi (ids(n \<mapsto> idn)) (n + 1) st)"
  using assms by (simp add: mst5_identity_open_def guard_def fbind_def flift_def out_pointer_def c_text_def utf8_valid_def utf8_decode.simps
      sample_ffi_def io_result_def insert_identity_def next_handle_def set_error_def string_of_bytes_def)

theorem ffi_handles_unique_witness:
  "\<exists>s s' hs. reachable ffi_init (ffi_step toy_e2e) (s, [1]) \<and> (ffi_step toy_e2e)\<^sup>*\<^sup>* (s, [1]) (s', hs) \<and> fs_identities s 1 = None
   \<and> length hs = 2 \<and> distinct hs \<and> fs_identities s' 1 = None"
proof -
  let ?e = "Map.empty :: u64 \<rightharpoonup> identity"
  obtain st where o: "mst5_identity_open toy_e2e sample_env (Some []) True True (sample_ffi ?e 1 no_store)
     = ((OK, Some 1), sample_ffi (?e(1 \<mapsto> sample_identity)) 2 st)" "load_identity toy_e2e st = Inr (Some sample_identity)"
    using sample_open [of 1 ?e] by auto
  let ?t = "sample_ffi (?e(1 := None)) 2 st"
  have c: "mst5_identity_close 1 (sample_ffi (?e(1 \<mapsto> sample_identity)) 2 st) = ((OK, Some ()), ?t)" by (rule sample_close)
  have "reachable ffi_init (ffi_step toy_e2e) (sample_ffi ?e 1 no_store, [])"
    by (rule reach_init) (simp add: ffi_init_def sample_ffi_def)
  from reach_step [OF this step_identity_open [OF o(1)]] have
    "reachable ffi_init (ffi_step toy_e2e) (sample_ffi (?e(1 \<mapsto> sample_identity)) 2 st, [1])" by (simp add: opt_list_def)
  from reach_step [OF this step_identity_close [OF c]] have r: "reachable ffi_init (ffi_step toy_e2e) (?t, [1])" .
  let ?t' = "sample_ffi (?e(1 := None, 2 \<mapsto> sample_identity)) 3 st"
  have "mst5_identity_open toy_e2e sample_env (Some []) False True ?t = ((OK, Some 2), ?t')"
    using sample_reopen [of 2 st sample_identity] o(2) by simp
  from step_identity_open [OF this, of "[1]"] have s: "(ffi_step toy_e2e)\<^sup>*\<^sup>* (?t, [1]) (?t', [1, 2])"
    by (simp add: opt_list_def r_into_rtranclp)
  have "fs_identities ?t 1 = None" by (simp add: sample_ffi_def)
  with ffi_handles_unique [OF r s] r s show ?thesis by (intro exI [of _ ?t] exI [of _ ?t'] exI [of _ "[1, 2]"]) simp
qed

section \<open>Messages and backups through the interface\<close>

lemma poll_read_source:
  assumes "poll_read k r = (b, r')" "0 < k"
  shows "source_read k (slice_source r) = (Inr b, if length (drop (sr_offset r) (sr_data r)) \<le> k then [] else slice_source r')"
  using assms by (auto simp: poll_read_def slice_source_def Let_def min_def drop_drop add.commute split: if_splits)

lemma ffi_output_contents:
  assumes "ffi_output True v s = (r, s')"
  obtains b where "r = Done b" "buffer_contents s' b = v" "bf_len b = length v"
    "fs_clients s' = fs_clients s" "fs_identities s' = fs_identities s"
  using assms by (cases "v = []") (auto simp: ffi_output_def buffer_contents_def)

lemma guard_output:
  assumes "m s = ffi_output True v s"
  shows "\<exists>b s'. guard m s = ((OK, Some b), s') \<and> buffer_contents s' b = v \<and> bf_len b = length v"
proof -
  obtain r t where o: "ffi_output True v s = (r, t)" by force
  then obtain b where b: "r = Done b" "buffer_contents t b = v" "bf_len b = length v" by (rule ffi_output_contents)
  have "buffer_contents (set_error [] t) b = buffer_contents t b" by (simp add: set_error_def buffer_contents_def)
  then show ?thesis using o b assms by (simp add: guard_def)
qed

text \<open>A buffer is freed once: then the memory is as before, and a second free is an error of the caller.\<close>

lemma buffer_free_once:
  assumes "ffi_output True v s = (Done b, t)" "v \<noteq> []" "fs_heap s (fs_fresh s) = None" "0 < fs_fresh s"
  shows "\<exists>u. mst5_buffer_free b t = Some u \<and> fs_heap u = fs_heap s \<and> mst5_buffer_free b u = None"
  using assms by (auto simp: ffi_output_def mst5_buffer_free_def fun_upd_idem)

lemma decode_encode_envelope:
  assumes "length (en_nonce v) = 24" "16 \<le> length (en_ciphertext v)" "en_version v = ENVELOPE_VERSION \<or> en_version v = LEGACY_ENVELOPE_VERSION"
  shows "decode_envelope (encode_envelope v) = Done v"
  using assms by (auto simp: decode_envelope_def encode_envelope_def)

lemma decode_encode_backup:
  assumes "length (bk_salt v) = 16" "length (bk_nonce v) = 24" "length (bk_ciphertext v) = 48" "bk_version v = BACKUP_VERSION"
  shows "decode_backup (encode_backup v) = Done v"
  using assms by (simp add: decode_backup_def encode_backup_def)

text \<open>
  C39: what \<open>mst5_e2e_seal\<close> writes to its buffer for a message of at most 4 MiB, passed
  to \<open>mst5_e2e_open\<close> by the recipient (in any other process), comes out as the message.
\<close>

theorem ffi_message_delivery:
  assumes "dh_laws E" "hash_laws E" "xaead_laws E" "zstd_laws E" "\<not> list_all (\<lambda>x. x = 0) (c_dh E a (c_public E b))"
    "fe_random env 0 = Some nonce" "length nonce = 24" "length m \<le> MAX_MESSAGE_BYTES" "utf8_valid from" "utf8_valid to"
    "fs_identities s ha = Some (from_private E a)" "fs_identities t hb = Some (from_private E b)"
  shows "\<exists>buf s'. mst5_e2e_seal E env ha (Some (c_public E b)) (Some from) (Some to) (Some m) (length m) True s = ((OK, Some buf), s')
    \<and> (\<exists>out t'. mst5_e2e_open E hb (Some (c_public E a)) (Some from) (Some to) (Some (buffer_contents s' buf)) (bf_len buf) True t
          = ((OK, Some out), t') \<and> buffer_contents t' out = m \<and> bf_len out = length m)"
proof -
  obtain e where e: "seal_envelope E (Some nonce) (from_private E a) (c_public E b) (string_of_bytes from) (string_of_bytes to) m = Inr e"
    "open_envelope E (from_private E b) (c_public E a) (string_of_bytes from) (string_of_bytes to) e = Inr m" "en_version e = ENVELOPE_VERSION"
    by (rule seal_open_envelope [OF assms(1-4,7,8,5)])
  have "length (en_nonce e) = 24" using e(1) assms(7) by (auto simp: seal_envelope_def random_bytes_def rbind_eq_Inr)
  moreover have "16 \<le> length (en_ciphertext e)" using e(2) by (auto simp: open_envelope_def split: if_splits)
  ultimately have d: "decode_envelope (encode_envelope e) = Done e" using decode_encode_envelope e(3) by blast
  have c: "c_bytes (Some (c_public E p)) 32 name = Done (c_public E p)" "c_bytes (Some v) (length v) name = Done v"
    "utf8_valid v \<Longrightarrow> c_text (Some v) name = Done (string_of_bytes v)" for p v name
    using assms(1) by (auto simp: dh_laws_def c_bytes_def c_text_def)
  have "\<exists>buf s'. mst5_e2e_seal E env ha (Some (c_public E b)) (Some from) (Some to) (Some m) (length m) True s = ((OK, Some buf), s')
      \<and> buffer_contents s' buf = encode_envelope e \<and> bf_len buf = length (encode_envelope e)"
    unfolding mst5_e2e_seal_def
    by (rule guard_output) (simp add: fbind_def flift_def c ffi_identity_def assms(6,9,10,11) e(1) io_result_def)
  moreover have "\<exists>out t'. mst5_e2e_open E hb (Some (c_public E a)) (Some from) (Some to) (Some (encode_envelope e)) (length (encode_envelope e)) True t
      = ((OK, Some out), t') \<and> buffer_contents t' out = m \<and> bf_len out = length m"
    unfolding mst5_e2e_open_def
    by (rule guard_output) (simp add: fbind_def flift_def c ffi_identity_def assms(9,10,12) d e(2) io_result_def)
  ultimately show ?thesis by metis
qed

lemma toy_secret_32: "\<not> list_all (\<lambda>x. x = 0) (c_dh toy_e2e (replicate 32 1) (c_public toy_e2e (replicate 32 2)))"
  by (simp add: toy_e2e_def toy_crypto_def list_all_iff)

theorem ffi_message_delivery_witness:
  "let env = sample_env\<lparr>fe_random := \<lambda>_. Some (replicate 24 7)\<rparr>;
       a = from_private toy_e2e (replicate 32 1); b = from_private toy_e2e (replicate 32 2);
       s = sample_ffi [1 \<mapsto> a] 2 no_store; t = sample_ffi [5 \<mapsto> b] 6 no_store in
   \<exists>buf s' out t'. mst5_e2e_seal toy_e2e env 1 (Some (id_public b)) (Some [0x61]) (Some [0x62]) (Some [9, 8]) 2 True s = ((OK, Some buf), s')
     \<and> mst5_e2e_open toy_e2e 5 (Some (id_public a)) (Some [0x61]) (Some [0x62]) (Some (buffer_contents s' buf)) (bf_len buf) True t = ((OK, Some out), t')
     \<and> buffer_contents t' out = [9, 8]"
proof -
  have "utf8_valid [0x61]" "utf8_valid [0x62]" by (simp_all add: utf8_valid_def utf8_decode.simps)
  then show ?thesis
    using ffi_message_delivery [OF toy_e2e_laws(1-4) toy_secret_32, of "sample_env\<lparr>fe_random := \<lambda>_. Some (replicate 24 7)\<rparr>" "replicate 24 7"
        "[9, 8]" "[0x61]" "[0x62]" "sample_ffi [1 \<mapsto> from_private toy_e2e (replicate 32 1)] 2 no_store" 1
        "sample_ffi [5 \<mapsto> from_private toy_e2e (replicate 32 2)] 6 no_store" 5]
    by (auto simp: Let_def sample_ffi_def from_private_def const_defs numeral_2_eq_2)
qed



text \<open>A media node that answers a huge size makes the download panic; the call reports it and nothing is lost.\<close>

lemma download_size_panics:
  assumes "fs_clients s h = Some c" "utf8_valid fid" "fe_runtime env = None"
    "fst (ffi_block_on env c (media_stat (string_of_bytes fid))) = Done n" "2 ^ 63 \<le> unat n"
  shows "mst5_client_media_download C env h (Some fid) out s
    = ((PANIC, None), set_error ''panic crossed the MST5 C ABI boundary'' s)"
  using assms by (simp add: mst5_client_media_download_def guard_def fbind_def flift_def c_text_def ffi_client_def ffi_runtime_def
      vec_with_capacity_def)

end
