(* ===== verification/Spec2Isabelle.thy ===== *)
theory Spec2Isabelle
  imports Cbor Frame Record_Layer Handshake Text Endpoint M5oh Connection E2e Media Outbox Account Opcodes Client Messenger Web Media_Transfer Api Ffi
begin

text \<open>
  A verification development for the MST5 client.
\<close>

end
